(* ===== verification/Prelude.thy ===== *)
theory Prelude
  imports "HOL-Library.Word" "HOL-Library.Char_ord" "HOL-Library.List_Lexorder" "HOL-Library.AList"
begin

section \<open>Shared vocabulary of the development\<close>

text \<open>
  What every component of the program uses: the integer types, strings as lists of bytes,
  panics as values, the string routines of the Rust standard library that the connectors
  call, the bounded message buffer that most rooms keep, and maps kept as association
  lists (a \<^verbatim>\<open>HashMap\<close> with one arbitrary iteration order).
\<close>

named_theorems rust_std \<open>definitions of standard-library routines\<close>
named_theorems room_defs \<open>definitions of the operations of a room\<close>

type_synonym u16 = "16 word"
type_synonym u32 = "32 word"
type_synonym u64 = "64 word"

text \<open>An operation that may panic.\<close>

datatype 'a outcome = Panic | Done 'a

fun bind_outcome :: "'a outcome \<Rightarrow> ('a \<Rightarrow> 'b outcome) \<Rightarrow> 'b outcome" where
  "bind_outcome Panic f = Panic"
| "bind_outcome (Done x) f = f x"

lemma bind_outcome_Done_iff [simp]:
  "bind_outcome m f = Done y \<longleftrightarrow> (\<exists>x. m = Done x \<and> f x = Done y)"
  by (cases m) auto

lemma bind_outcome_split:
  "P (bind_outcome m f) \<longleftrightarrow> (m = Panic \<longrightarrow> P Panic) \<and> (\<forall>x. m = Done x \<longrightarrow> P (f x))"
  by (cases m) auto

text \<open>What one call of a \<^verbatim>\<open>Transport::recv\<close> does with the inputs at hand: a frame
  (\<^verbatim>\<open>Ok(Some(bytes))\<close>), the end of the connection (\<^verbatim>\<open>Ok(None)\<close>), an error, or no answer
  yet because the inputs are exhausted.\<close>

datatype ('e, 'a) polled = Frame 'a | Closed | Failed 'e | Pending

subsection \<open>Strings\<close>

fun split_once :: "char \<Rightarrow> string \<Rightarrow> (string \<times> string) option" where
  "split_once c [] = None"
| "split_once c (x # xs) =
     (if x = c then Some ([], xs)
      else map_option (\<lambda>(a, b). (x # a, b)) (split_once c xs))"

lemma split_once_None_iff [simp]: "split_once c s = None \<longleftrightarrow> c \<notin> set s"
  by (induction s) auto

lemma split_once_Some: "split_once c s = Some (a, b) \<Longrightarrow> s = a @ c # b \<and> c \<notin> set a"
  by (induction s arbitrary: a b) (auto split: if_splits)

lemma split_once_append: "c \<notin> set a \<Longrightarrow> split_once c (a @ c # b) = Some (a, b)"
  by (induction a) auto

text \<open>\<^verbatim>\<open>str::splitn(2, c)\<close>: one piece, or the two around the first separator.\<close>

definition splitn2 :: "char \<Rightarrow> string \<Rightarrow> string list" where
  [rust_std]: "splitn2 c s = (case split_once c s of None \<Rightarrow> [s] | Some (a, b) \<Rightarrow> [a, b])"

text \<open>\<^verbatim>\<open>str::split(c)\<close>: all the pieces.\<close>

fun split_on :: "char \<Rightarrow> string \<Rightarrow> string list" where
  "split_on c [] = [[]]"
| "split_on c (x # xs) =
     (if x = c then [] # split_on c xs
      else (case split_on c xs of [] \<Rightarrow> [[x]] | p # ps \<Rightarrow> (x # p) # ps))"

lemma split_on_not_Nil [simp]: "split_on c s \<noteq> []"
  by (induction s) (auto split: list.splits)

lemma split_on_join: "split_on c (a @ c # b) = split_on c a @ split_on c b"
  by (induction a) (auto split: list.splits)

lemma split_on_no_sep: "c \<notin> set s \<Longrightarrow> split_on c s = [s]"
  by (induction s) auto

lemma split_on_append: "c \<notin> set a \<Longrightarrow> split_on c (a @ c # b) = a # split_on c b"
  by (induction a) auto

definition starts_with :: "string \<Rightarrow> string \<Rightarrow> bool" where
  [rust_std]: "starts_with p s \<longleftrightarrow> take (length p) s = p"

definition strip_prefix :: "string \<Rightarrow> string \<Rightarrow> string option" where
  [rust_std]: "strip_prefix p s = (if starts_with p s then Some (drop (length p) s) else None)"

lemma strip_prefix_Some: "strip_prefix p s = Some r \<longleftrightarrow> s = p @ r"
  by (auto simp: strip_prefix_def starts_with_def) (metis append_take_drop_id)

lemma strip_prefix_append [simp]: "strip_prefix p (p @ r) = Some r"
  by (simp add: strip_prefix_Some)

text \<open>\<^verbatim>\<open>str::trim_end_matches(c)\<close>.\<close>

definition trim_end :: "char \<Rightarrow> string \<Rightarrow> string" where
  [rust_std]: "trim_end c s = rev (dropWhile (\<lambda>x. x = c) (rev s))"

text \<open>\<^verbatim>\<open>slice::join\<close> and \<^verbatim>\<open>str::trim\<close> (ASCII white space).\<close>

fun join :: "string \<Rightarrow> string list \<Rightarrow> string" where
  "join sep [] = []"
| "join sep [x] = x"
| "join sep (x # y # ys) = x @ sep @ join sep (y # ys)"

definition ascii_space :: "char \<Rightarrow> bool" where
  [rust_std]: "ascii_space c \<longleftrightarrow> c = CHR '' '' \<or> (9 \<le> (of_char c :: nat) \<and> (of_char c :: nat) \<le> 13)"

definition trim :: "string \<Rightarrow> string" where
  [rust_std]: "trim s = rev (dropWhile ascii_space (rev (dropWhile ascii_space s)))"

text \<open>\<^verbatim>\<open>u8::to_ascii_lowercase\<close> and \<^verbatim>\<open>str::eq_ignore_ascii_case\<close>.\<close>

definition ascii_lower :: "char \<Rightarrow> char" where
  [rust_std]: "ascii_lower c = (let n = (of_char c :: nat) in if 65 \<le> n \<and> n \<le> 90 then char_of (n + 32) else c)"

definition eq_ignore_case :: "string \<Rightarrow> string \<Rightarrow> bool" where
  [rust_std]: "eq_ignore_case a b \<longleftrightarrow> map ascii_lower a = map ascii_lower b"

lemma eq_ignore_case_refl [simp]: "eq_ignore_case s s"
  by (simp add: eq_ignore_case_def)

lemma eq_ignore_case_sym: "eq_ignore_case a b \<Longrightarrow> eq_ignore_case b a"
  by (simp add: eq_ignore_case_def)

lemma eq_ignore_case_trans: "eq_ignore_case a b \<Longrightarrow> eq_ignore_case b c \<Longrightarrow> eq_ignore_case a c"
  by (simp add: eq_ignore_case_def)

subsection \<open>Signed integers\<close>

text \<open>The value of an \<^verbatim>\<open>i64\<close> after an operation that wraps around.\<close>

definition wrap_i64 :: "int \<Rightarrow> int" where
  "wrap_i64 i = (i + 2 ^ 63) mod 2 ^ 64 - 2 ^ 63"

lemma wrap_i64_id: "- (2 ^ 63) \<le> i \<Longrightarrow> i < 2 ^ 63 \<Longrightarrow> wrap_i64 i = i"
  by (simp add: wrap_i64_def)

lemma wrap_i64_range: "- (2 ^ 63) \<le> wrap_i64 i \<and> wrap_i64 i < 2 ^ 63"
proof -
  have "0 \<le> (i + 2 ^ 63) mod 2 ^ 64" "(i + 2 ^ 63) mod 2 ^ 64 < 2 ^ 64" by simp_all
  then show ?thesis by (simp add: wrap_i64_def)
qed

subsection \<open>Decimal and hexadecimal numbers\<close>

definition digit_char :: "nat \<Rightarrow> char" where
  "digit_char d = (if d < 10 then char_of (48 + d) else char_of (87 + d))"

definition digit_val :: "char \<Rightarrow> nat option" where
  "digit_val c = (let n = (of_char c :: nat) in if 48 \<le> n \<and> n \<le> 57 then Some (n - 48) else None)"

fun show_nat :: "nat \<Rightarrow> string" where
  "show_nat n = (if n < 10 then [digit_char n] else show_nat (n div 10) @ [digit_char (n mod 10)])"

declare show_nat.simps [simp del]

fun parse_digits :: "nat \<Rightarrow> string \<Rightarrow> nat option" where
  "parse_digits acc [] = Some acc"
| "parse_digits acc (c # cs) =
     (case digit_val c of None \<Rightarrow> None | Some d \<Rightarrow> parse_digits (10 * acc + d) cs)"

text \<open>\<^verbatim>\<open>str::parse\<close> at an unsigned type with values below \<open>bound\<close>: an optional plus
  sign, at least one digit, no overflow.\<close>

definition parse_unsigned :: "nat \<Rightarrow> string \<Rightarrow> nat option" where
  "parse_unsigned bound s =
     (let ds = (if take 1 s = ''+'' then drop 1 s else s)
      in if ds = [] then None
         else (case parse_digits 0 ds of None \<Rightarrow> None
               | Some n \<Rightarrow> if n < bound then Some n else None))"

abbreviation parse_u64 :: "string \<Rightarrow> nat option" where
  "parse_u64 \<equiv> parse_unsigned (2 ^ 64)"

text \<open>\<^verbatim>\<open>str::parse::<i64>\<close>: an optional sign, at least one digit, within range.\<close>

definition parse_i64 :: "string \<Rightarrow> int option" where
  "parse_i64 s =
     (let neg = (take 1 s = ''-'');
          ds = (if take 1 s = ''-'' \<or> take 1 s = ''+'' then drop 1 s else s)
      in if ds = [] then None
         else (case parse_digits 0 ds of None \<Rightarrow> None
               | Some n \<Rightarrow>
                   let v = (if neg then - int n else int n)
                   in if - (2 ^ 63) \<le> v \<and> v < 2 ^ 63 then Some v else None))"

definition show_int :: "int \<Rightarrow> string" where
  "show_int i = (if i < 0 then CHR ''-'' # show_nat (nat (- i)) else show_nat (nat i))"

lemma digit_val_digit_char: "d < 10 \<Longrightarrow> digit_val (digit_char d) = Some d"
  by (simp add: digit_val_def digit_char_def Let_def)

lemma parse_digits_append:
  "parse_digits acc (xs @ ys) =
     (case parse_digits acc xs of None \<Rightarrow> None | Some a \<Rightarrow> parse_digits a ys)"
  by (induction xs arbitrary: acc) (auto split: option.splits)

lemma parse_digits_show_nat: "parse_digits 0 (show_nat n) = Some n"
proof (induction n rule: show_nat.induct)
  case (1 n)
  show ?case
  proof (cases "n < 10")
    case True
    then show ?thesis by (simp add: show_nat.simps [of n] digit_val_digit_char)
  next
    case False
    with 1 show ?thesis
      by (simp add: show_nat.simps [of n] parse_digits_append digit_val_digit_char)
  qed
qed

lemma show_nat_not_Nil [simp]: "show_nat n \<noteq> []"
  by (subst show_nat.simps) simp

lemma show_nat_inj: "show_nat m = show_nat n \<Longrightarrow> m = n"
  by (metis option.inject parse_digits_show_nat)

lemma show_nat_digits: "c \<in> set (show_nat n) \<Longrightarrow> 48 \<le> (of_char c :: nat) \<and> (of_char c :: nat) \<le> 57"
proof (induction n rule: show_nat.induct)
  case (1 n)
  show ?case
  proof (cases "n < 10")
    case True
    with "1.prems" show ?thesis by (simp add: show_nat.simps [of n] digit_char_def)
  next
    case False
    with 1 show ?thesis by (auto simp: show_nat.simps [of n] digit_char_def)
  qed
qed

lemma show_nat_hd_not_sign: "show_nat n = c # cs \<Longrightarrow> c \<noteq> CHR ''+'' \<and> c \<noteq> CHR ''-''"
  using show_nat_digits [of c n] by (auto simp: of_char_def)

lemma parse_unsigned_show_nat: "n < bound \<Longrightarrow> parse_unsigned bound (show_nat n) = Some n"
proof -
  assume n: "n < bound"
  obtain c cs where s: "show_nat n = c # cs"
    by (cases "show_nat n") auto
  then have "take 1 (show_nat n) \<noteq> ''+''"
    using show_nat_hd_not_sign [OF s] by simp
  with n show ?thesis
    by (simp add: parse_unsigned_def parse_digits_show_nat)
qed

text \<open>\<^verbatim>\<open>format!("{n:0kx}")\<close>: exactly \<open>k\<close> hexadecimal digits, enough for a number below \<open>16 ^ k\<close>; and
  the value of such a digit.\<close>

fun hex_padded :: "nat \<Rightarrow> nat \<Rightarrow> string" where
  "hex_padded 0 n = []"
| "hex_padded (Suc k) n = hex_padded k (n div 16) @ [digit_char (n mod 16)]"

definition hex_val :: "char \<Rightarrow> nat option" where
  "hex_val c =
     (let n = (of_char c :: nat) in
      if 48 \<le> n \<and> n \<le> 57 then Some (n - 48) else if 97 \<le> n \<and> n \<le> 102 then Some (n - 87)
      else if 65 \<le> n \<and> n \<le> 70 then Some (n - 55) else None)"

lemma hex_val_digit: "d < 16 \<Longrightarrow> hex_val (digit_char d) = Some d"
  by (auto simp: hex_val_def digit_char_def Let_def)

lemma digit_char_inj: "d < 16 \<Longrightarrow> e < 16 \<Longrightarrow> digit_char d = digit_char e \<longleftrightarrow> d = e"
  by (metis hex_val_digit option.inject)

lemma hex_padded_inj: "m < 16 ^ k \<Longrightarrow> n < 16 ^ k \<Longrightarrow> hex_padded k m = hex_padded k n \<longleftrightarrow> m = n"
proof (induction k arbitrary: m n)
  case (Suc k)
  have b: "m div 16 < 16 ^ k" "n div 16 < 16 ^ k"
    by (rule less_mult_imp_div_less, use Suc.prems in \<open>simp only: power_Suc2\<close>)+
  have "hex_padded (Suc k) m = hex_padded (Suc k) n \<longleftrightarrow>
      hex_padded k (m div 16) = hex_padded k (n div 16) \<and> digit_char (m mod 16) = digit_char (n mod 16)"
    by (simp only: hex_padded.simps append1_eq_conv)
  also have "\<dots> \<longleftrightarrow> m div 16 = n div 16 \<and> m mod 16 = n mod 16"
    by (simp only: Suc.IH [OF b] digit_char_inj mod_less_divisor zero_less_numeral)
  also have "\<dots> \<longleftrightarrow> m = n"
    by (metis div_mult_mod_eq)
  finally show ?case .
qed simp

subsection \<open>The bounded message buffer\<close>

text \<open>\<open>last_n k xs\<close> is the list of the last \<open>k\<close> elements (all of them when there are
  fewer): the iterator chain \<^verbatim>\<open>iter().rev().take(k).rev()\<close>.\<close>

definition last_n :: "nat \<Rightarrow> 'a list \<Rightarrow> 'a list" where
  [rust_std]: "last_n k xs = rev (take k (rev xs))"

lemma last_n_eq_drop: "last_n k xs = drop (length xs - k) xs"
  by (simp add: last_n_def take_rev)

lemma length_last_n [simp]: "length (last_n k xs) = min (length xs) k"
  by (simp add: last_n_def)

lemma last_n_all: "length xs \<le> k \<Longrightarrow> last_n k xs = xs"
  by (simp add: last_n_eq_drop)

lemma last_n_snoc: "last_n (Suc k) (xs @ [x]) = last_n k xs @ [x]"
  by (simp add: last_n_def)

lemma last_n_append_last_n: "last_n k (last_n k xs @ ys) = last_n k (xs @ ys)"
  by (simp add: last_n_def)

text \<open>Push at the back, then drop the front element once the length exceeds the cap:
  \<^verbatim>\<open>push_back\<close>/\<^verbatim>\<open>pop_front\<close> on a \<^verbatim>\<open>VecDeque\<close>, \<^verbatim>\<open>push\<close>/\<^verbatim>\<open>remove(0)\<close> on a \<^verbatim>\<open>Vec\<close>.\<close>

definition push_bounded :: "nat \<Rightarrow> 'a list \<Rightarrow> 'a \<Rightarrow> 'a list" where
  "push_bounded cap xs x = (let ys = xs @ [x] in if cap < length ys then tl ys else ys)"

lemma push_bounded_last_n: "length xs \<le> cap \<Longrightarrow> push_bounded cap xs x = last_n cap (xs @ [x])"
  by (cases "length xs = cap"; cases xs) (auto simp: push_bounded_def Let_def last_n_eq_drop drop_Suc)

lemma push_bounded_length: "length xs \<le> cap \<Longrightarrow> length (push_bounded cap xs x) \<le> cap"
  by (simp add: push_bounded_last_n)

lemma push_bounded_last: "0 < cap \<Longrightarrow> last (push_bounded cap xs x) = x \<and> push_bounded cap xs x \<noteq> []"
  by (cases xs) (auto simp: push_bounded_def Let_def)

lemma fold_push_bounded:
  "length xs \<le> cap \<Longrightarrow> fold (\<lambda>y b. push_bounded cap b y) ys xs = last_n cap (xs @ ys)"
proof (induction ys arbitrary: xs)
  case Nil
  then show ?case by (simp add: last_n_all)
next
  case (Cons y ys)
  then show ?case
    by (simp add: push_bounded_last_n last_n_append_last_n)
qed

subsection \<open>Maps as association lists\<close>

text \<open>\<^verbatim>\<open>HashMap::insert\<close> and \<^verbatim>\<open>remove\<close> are \<open>AList.update\<close> and \<open>AList.delete\<close>; a map that
  the program built holds each key once.\<close>

definition map_inv :: "('k \<times> 'v) list \<Rightarrow> bool" where
  "map_inv m \<longleftrightarrow> distinct (map fst m)"

lemma map_inv_Nil [simp]: "map_inv []"
  by (simp add: map_inv_def)

lemma map_inv_update [simp]: "map_inv m \<Longrightarrow> map_inv (AList.update k v m)"
  by (simp add: map_inv_def distinct_update)

lemma map_inv_delete [simp]: "map_inv m \<Longrightarrow> map_inv (AList.delete k m)"
  by (simp add: map_inv_def distinct_delete)

lemma map_of_update [simp]: "map_of (AList.update k v m) = (map_of m)(k \<mapsto> v)"
  by (simp add: update_conv')

lemma map_of_delete [simp]: "map_of (AList.delete k m) = (map_of m)(k := None)"
  by (simp add: delete_conv')

text \<open>\<^verbatim>\<open>HashMap::get_mut\<close> followed by a change of the entry; nothing happens when the key is
  absent.\<close>

definition map_modify :: "'k \<Rightarrow> ('v \<Rightarrow> 'v) \<Rightarrow> ('k \<times> 'v) list \<Rightarrow> ('k \<times> 'v) list" where
  "map_modify k f m = map (\<lambda>(k', v). (k', if k' = k then f v else v)) m"

lemma map_of_modify [simp]:
  "map_of (map_modify k f m) k' = (if k' = k then map_option f (map_of m k) else map_of m k')"
  by (induction m) (auto simp: map_modify_def)

lemma map_fst_modify [simp]: "map fst (map_modify k f m) = map fst m"
  by (auto simp: map_modify_def)

lemma map_inv_modify [simp]: "map_inv (map_modify k f m) = map_inv m"
  by (simp add: map_inv_def)

end
