(* ===== verification/Identity.thy ===== *)
theory Identity
  imports Prelude
begin

section \<open>Identities\<close>

text \<open>
  \<^verbatim>\<open>crates/interconnect-core/src/identity.rs\<close>: an identity \<^verbatim>\<open>scheme:payload\<close>, its constructors,
  its textual form and the parser. Serialisation goes through the textual form in both
  directions, so what the parser rejects cannot be received by a peer.
\<close>

record identity =
  scheme :: string
  payload :: string

datatype identity_parse_error = MissingColon string | EmptyScheme

definition identity_new :: "string \<Rightarrow> string \<Rightarrow> identity" where
  "identity_new s p = \<lparr>scheme = s, payload = p\<rparr>"

definition identity_local :: "string \<Rightarrow> identity" where
  "identity_local name = identity_new ''local'' name"

definition identity_url :: "string \<Rightarrow> identity" where
  "identity_url u = identity_new ''url'' u"

definition is_local :: "identity \<Rightarrow> bool" where
  "is_local i \<longleftrightarrow> scheme i = ''local''"

definition identity_to_string :: "identity \<Rightarrow> string" where
  "identity_to_string i = scheme i @ '':'' @ payload i"

definition identity_from_str :: "string \<Rightarrow> identity_parse_error + identity" where
  "identity_from_str s =
     (case split_once (CHR '':'') s of
        None \<Rightarrow> Inl (MissingColon s)
      | Some (sch, pay) \<Rightarrow>
          if sch = [] then Inl EmptyScheme else Inr \<lparr>scheme = sch, payload = pay\<rparr>)"

text \<open>\<^verbatim>\<open>TryFrom<String>\<close> and \<^verbatim>\<open>From<Identity> for String\<close>, which serde uses.\<close>

definition identity_try_from :: "string \<Rightarrow> identity_parse_error + identity" where
  "identity_try_from s = identity_from_str s"

definition identity_into_string :: "identity \<Rightarrow> string" where
  "identity_into_string i = identity_to_string i"

lemmas identity_defs =
  identity_new_def identity_local_def identity_url_def is_local_def identity_to_string_def
  identity_from_str_def identity_try_from_def identity_into_string_def

text \<open>The identities that the textual form can carry.\<close>

definition identity_ok :: "identity \<Rightarrow> bool" where
  "identity_ok i \<longleftrightarrow> scheme i \<noteq> [] \<and> CHR '':'' \<notin> set (scheme i)"

lemma from_str_Inr_iff: "identity_from_str s = Inr i \<longleftrightarrow> identity_ok i \<and> s = identity_to_string i"
proof
  assume "identity_from_str s = Inr i"
  then obtain a b where "split_once (CHR '':'') s = Some (a, b)" "a \<noteq> []" "i = \<lparr>scheme = a, payload = b\<rparr>"
    by (auto simp: identity_from_str_def split: option.splits if_splits)
  then show "identity_ok i \<and> s = identity_to_string i"
    by (auto simp: identity_ok_def identity_to_string_def dest: split_once_Some)
next
  assume "identity_ok i \<and> s = identity_to_string i"
  then show "identity_from_str s = Inr i"
    by (cases i) (auto simp: identity_ok_def identity_to_string_def identity_from_str_def split_once_append)
qed

lemma identity_local_ok [simp]: "identity_ok (identity_local n)"
  by (simp add: identity_ok_def identity_defs)

lemma identity_url_ok [simp]: "identity_ok (identity_url n)"
  by (simp add: identity_ok_def identity_defs)

text \<open>C25: the parser and the printer of identities are inverse to each other exactly on the
  identities whose scheme is not empty and holds no colon; the local and URL identities the
  program builds are of that kind, whatever their payload, and the two errors are exactly
  the texts without a colon and those that start with one.\<close>

theorem identity_print_parse:
  "(identity_try_from (identity_into_string i) = Inr i \<longleftrightarrow>
      scheme i \<noteq> [] \<and> CHR '':'' \<notin> set (scheme i)) \<and>
   (identity_try_from s = Inr j \<longleftrightarrow>
      scheme j \<noteq> [] \<and> CHR '':'' \<notin> set (scheme j) \<and> identity_into_string j = s) \<and>
   identity_try_from (identity_into_string (identity_local n)) = Inr (identity_local n) \<and>
   identity_try_from (identity_into_string (identity_url n)) = Inr (identity_url n) \<and>
   (identity_try_from s = Inl (MissingColon s) \<longleftrightarrow> CHR '':'' \<notin> set s) \<and>
   (identity_try_from s = Inl EmptyScheme \<longleftrightarrow> take 1 s = '':'')"
proof -
  have err: "identity_from_str s = Inl EmptyScheme \<longleftrightarrow> take 1 s = '':''"
    by (cases s) (auto simp: identity_from_str_def split: option.splits if_splits)
  show ?thesis
    by (auto simp: identity_try_from_def identity_into_string_def from_str_Inr_iff err)
      (auto simp: identity_ok_def identity_from_str_def split: option.splits if_splits dest: split_once_Some)
qed

end
