(* ===== verification/Json_Api.thy ===== *)
theory Json_Api
  imports Prelude
begin

section \<open>The JSON value interface\<close>

text \<open>
  The program handles \<^verbatim>\<open>serde_json::Value\<close> through its public operations only. That crate is
  not part of the repository, so the operations are a record \<open>json_ops\<close> that the
  definitions take as an argument; \<open>json_value\<close> states the documented laws the lemmas use,
  and \<open>value_json\<close> is a concrete implementation on a datatype, which shows that the laws
  can hold and which the evaluated examples run on.
\<close>

record 'j json_ops =
  j_null :: 'j
  j_bool :: "bool \<Rightarrow> 'j"
  j_int :: "int \<Rightarrow> 'j"
  j_str :: "string \<Rightarrow> 'j"
  j_arr :: "'j list \<Rightarrow> 'j"
  j_obj :: "(string \<times> 'j) list \<Rightarrow> 'j"
  j_get :: "'j \<Rightarrow> string \<Rightarrow> 'j option"
  j_as_bool :: "'j \<Rightarrow> bool option"
  j_as_u64 :: "'j \<Rightarrow> nat option"
  j_as_i64 :: "'j \<Rightarrow> int option"
  j_as_str :: "'j \<Rightarrow> string option"
  j_as_array :: "'j \<Rightarrow> 'j list option"
  j_text :: "'j \<Rightarrow> string"

text \<open>Indexing \<^verbatim>\<open>v["k"]\<close>: the member, or \<^verbatim>\<open>Null\<close> when there is none; a path of members; and
  the idioms \<^verbatim>\<open>v.as_str().unwrap_or(d)\<close> and its kin.\<close>

definition j_index :: "'j json_ops \<Rightarrow> 'j \<Rightarrow> string \<Rightarrow> 'j" where
  "j_index J v k = (case j_get J v k of None \<Rightarrow> j_null J | Some x \<Rightarrow> x)"

definition j_path :: "'j json_ops \<Rightarrow> 'j \<Rightarrow> string list \<Rightarrow> 'j" where
  "j_path J v ks = fold (\<lambda>k x. j_index J x k) ks v"

definition j_str_or :: "'j json_ops \<Rightarrow> string \<Rightarrow> 'j \<Rightarrow> string" where
  "j_str_or J d v = (case j_as_str J v of None \<Rightarrow> d | Some s \<Rightarrow> s)"

definition j_u64_or :: "'j json_ops \<Rightarrow> nat \<Rightarrow> 'j \<Rightarrow> nat" where
  "j_u64_or J d v = (case j_as_u64 J v of None \<Rightarrow> d | Some n \<Rightarrow> n)"

definition j_i64_or :: "'j json_ops \<Rightarrow> int \<Rightarrow> 'j \<Rightarrow> int" where
  "j_i64_or J d v = (case j_as_i64 J v of None \<Rightarrow> d | Some n \<Rightarrow> n)"

definition j_ok :: "'j json_ops \<Rightarrow> 'j \<Rightarrow> bool" where
  "j_ok J v \<longleftrightarrow> j_as_bool J (j_index J v ''ok'') = Some True"

locale json_value =
  fixes J :: "'j json_ops"
  assumes get_obj: "distinct (map fst kvs) \<Longrightarrow> j_get J (j_obj J kvs) k = map_of kvs k"
    and get_null: "j_get J (j_null J) k = None"
    and get_str: "j_get J (j_str J s) k = None"
    and as_bool_bool: "j_as_bool J (j_bool J b) = Some b"
    and as_bool_null: "j_as_bool J (j_null J) = None"
    and as_str_str: "j_as_str J (j_str J s) = Some s"
    and as_str_null: "j_as_str J (j_null J) = None"
    and as_str_int: "j_as_str J (j_int J i) = None"
    and as_str_bool: "j_as_str J (j_bool J b) = None"
    and as_array_arr: "j_as_array J (j_arr J vs) = Some vs"
    and as_array_null: "j_as_array J (j_null J) = None"
    and as_i64_int: "- (2 ^ 63) \<le> i \<Longrightarrow> i < 2 ^ 63 \<Longrightarrow> j_as_i64 J (j_int J i) = Some i"
    and as_i64_null: "j_as_i64 J (j_null J) = None"
    and as_u64_int: "n < 2 ^ 64 \<Longrightarrow> j_as_u64 J (j_int J (int n)) = Some n"
    and as_u64_null: "j_as_u64 J (j_null J) = None"
begin

lemmas value_simps =
  get_obj get_null get_str as_bool_bool as_bool_null as_str_str as_str_null as_str_int as_str_bool
  as_array_arr as_array_null as_i64_int as_i64_null as_u64_int as_u64_null

lemma index_null: "j_index J (j_null J) k = j_null J"
  by (simp add: j_index_def get_null)

lemma index_obj:
  "distinct (map fst kvs) \<Longrightarrow>
     j_index J (j_obj J kvs) k = (case map_of kvs k of None \<Rightarrow> j_null J | Some x \<Rightarrow> x)"
  by (simp add: j_index_def get_obj)

lemma path_null: "j_path J (j_null J) ks = j_null J"
  by (induction ks) (simp_all add: j_path_def index_null)

end

subsection \<open>An implementation of the interface\<close>

datatype json = JNull | JBool bool | JInt int | JStr string | JArr "json list" | JObj "(string \<times> json) list"

fun json_get :: "json \<Rightarrow> string \<Rightarrow> json option" where
  "json_get (JObj kvs) k = map_of kvs k"
| "json_get _ k = None"

fun json_as_bool :: "json \<Rightarrow> bool option" where
  "json_as_bool (JBool b) = Some b"
| "json_as_bool _ = None"

fun json_as_i64 :: "json \<Rightarrow> int option" where
  "json_as_i64 (JInt i) = (if - (2 ^ 63) \<le> i \<and> i < 2 ^ 63 then Some i else None)"
| "json_as_i64 _ = None"

fun json_as_u64 :: "json \<Rightarrow> nat option" where
  "json_as_u64 (JInt i) = (if 0 \<le> i \<and> i < 2 ^ 64 then Some (nat i) else None)"
| "json_as_u64 _ = None"

fun json_as_str :: "json \<Rightarrow> string option" where
  "json_as_str (JStr s) = Some s"
| "json_as_str _ = None"

fun json_as_array :: "json \<Rightarrow> json list option" where
  "json_as_array (JArr vs) = Some vs"
| "json_as_array _ = None"

definition json_quote :: "string \<Rightarrow> string" where
  "json_quote s = CHR 0x22 # concat (map (\<lambda>c. if c = CHR 0x22 \<or> c = CHR 0x5C then [CHR 0x5C, c] else [c]) s) @ [CHR 0x22]"

fun json_text :: "json \<Rightarrow> string" where
  "json_text JNull = ''null''"
| "json_text (JBool b) = (if b then ''true'' else ''false'')"
| "json_text (JInt i) = show_int i"
| "json_text (JStr s) = json_quote s"
| "json_text (JArr vs) = ''['' @ join '','' (map json_text vs) @ '']''"
| "json_text (JObj kvs) =
     CHR 0x7B # join '','' (map (\<lambda>(k, v). json_quote k @ '':'' @ json_text v) kvs) @ [CHR 0x7D]"

definition value_json :: "json json_ops" where
  "value_json =
     \<lparr>j_null = JNull, j_bool = JBool, j_int = JInt, j_str = JStr, j_arr = JArr, j_obj = JObj,
      j_get = json_get, j_as_bool = json_as_bool, j_as_u64 = json_as_u64, j_as_i64 = json_as_i64,
      j_as_str = json_as_str, j_as_array = json_as_array, j_text = json_text\<rparr>"

lemma value_json_sel [simp]:
  "j_null value_json = JNull" "j_bool value_json = JBool" "j_int value_json = JInt"
  "j_str value_json = JStr" "j_arr value_json = JArr" "j_obj value_json = JObj"
  "j_get value_json = json_get" "j_as_bool value_json = json_as_bool"
  "j_as_u64 value_json = json_as_u64" "j_as_i64 value_json = json_as_i64"
  "j_as_str value_json = json_as_str" "j_as_array value_json = json_as_array"
  "j_text value_json = json_text"
  by (simp_all add: value_json_def)

interpretation vj: json_value value_json
  by unfold_locales simp_all

lemma value_json_laws: "json_value value_json"
  by (rule vj.json_value_axioms)

end
