(* ===== verification/Wire.thy ===== *)
theory Wire
  imports Identity Json_Api
begin

section \<open>Protocol types and the wire envelope\<close>

text \<open>
  \<^verbatim>\<open>crates/interconnect-core/src\<close>: the manifest and the connection states (\<^verbatim>\<open>lib.rs\<close>), the
  message types (\<^verbatim>\<open>message.rs\<close>), transfers and passports (\<^verbatim>\<open>transfer.rs\<close>) and the wire
  messages (\<^verbatim>\<open>wire.rs\<close>). The wire types carry \<^verbatim>\<open>#[serde(tag = "type")]\<close>; the fields of an
  encoded message are modelled as the list of keys and values that this attribute
  prescribes, the tag first.
\<close>

type_synonym bytes = "8 word list"

record 'j manifest =
  m_identity :: identity
  m_name :: string
  m_substrate :: "string option"
  m_metadata :: 'j

subsection \<open>Connection states, in the order of the lifecycle\<close>

datatype connection_state = Connecting | Syncing | Live | Ghost

fun lifecycle_rank :: "connection_state \<Rightarrow> nat" where
  "lifecycle_rank Connecting = 0"
| "lifecycle_rank Syncing = 1"
| "lifecycle_rank Live = 2"
| "lifecycle_rank Ghost = 3"

lemma lifecycle_rank_inj: "lifecycle_rank a = lifecycle_rank b \<Longrightarrow> a = b"
  by (cases a; cases b) simp_all

instantiation connection_state :: linorder
begin

definition less_eq_connection_state :: "connection_state \<Rightarrow> connection_state \<Rightarrow> bool" where
  "less_eq_connection_state a b \<longleftrightarrow> lifecycle_rank a \<le> lifecycle_rank b"

definition less_connection_state :: "connection_state \<Rightarrow> connection_state \<Rightarrow> bool" where
  "less_connection_state a b \<longleftrightarrow> lifecycle_rank a < lifecycle_rank b"

instance
  by standard (auto simp: less_eq_connection_state_def less_connection_state_def intro: lifecycle_rank_inj)

end

subsection \<open>Messages, transfers and passports\<close>

record passport =
  p_identity :: identity
  p_data :: bytes
  p_signature :: "bytes option"

definition passport_new :: "identity \<Rightarrow> bytes \<Rightarrow> passport" where
  "passport_new i d = \<lparr>p_identity = i, p_data = d, p_signature = None\<rparr>"

definition passport_signed :: "identity \<Rightarrow> bytes \<Rightarrow> bytes \<Rightarrow> passport" where
  "passport_signed i d s = \<lparr>p_identity = i, p_data = d, p_signature = Some s\<rparr>"

record transfer =
  t_destination :: string
  t_passport :: passport

datatype 'i client_message =
    AuthMessage identity "bytes option"
  | IntentMessage 'i
  | AckMessage u64
  | RequestTransferMessage string

datatype ('j, 's) server_message =
    ManifestMessage "'j manifest"
  | SnapshotMessage u64 's
  | TransferMessage transfer
  | ErrorMessage string string

datatype 'i client_wire =
    Auth identity "string option" "bytes option"
  | Intent 'i
  | Ack u64
  | TransferRequest string
  | Ping

datatype ('j, 's) server_wire =
    Manifest "'j manifest"
  | Snapshot u64 's
  | Transfer string bytes
  | Error string string
  | System string
  | Pong

definition wire_error :: "string \<Rightarrow> string \<Rightarrow> ('j, 's) server_wire" where
  "wire_error code msg = Error code msg"

definition wire_system :: "string \<Rightarrow> ('j, 's) server_wire" where
  "wire_system msg = System msg"

text \<open>\<^verbatim>\<open>to_json\<close>, \<^verbatim>\<open>from_json\<close> and their string forms hand the value to serde unchanged; the
  encoder and the decoder are parameters.\<close>

definition to_json :: "('a \<Rightarrow> 'e + 'b) \<Rightarrow> 'a \<Rightarrow> 'e + 'b" where
  "to_json enc m = enc m"

definition from_json :: "('b \<Rightarrow> 'e + 'a) \<Rightarrow> 'b \<Rightarrow> 'e + 'a" where
  "from_json dec d = dec d"

definition round_trips :: "('a \<Rightarrow> 'e + 'b) \<Rightarrow> ('b \<Rightarrow> 'e + 'a) \<Rightarrow> bool" where
  "round_trips enc dec \<longleftrightarrow> (\<forall>m b. enc m = Inr b \<longrightarrow> dec b = Inr m)"

lemma round_tripsD: "round_trips enc dec \<Longrightarrow> enc m = Inr b \<Longrightarrow> dec b = Inr m"
  by (simp add: round_trips_def)

subsection \<open>The fields of an encoded client message\<close>

text \<open>An internally tagged variant is an object with the tag member and the members of the
  variant's content in it; for the newtype variant \<^verbatim>\<open>Intent(I)\<close> these are the members of the
  encoded intent. Byte vectors are arrays of numbers.\<close>

definition tagged :: "'j json_ops \<Rightarrow> string \<Rightarrow> (string \<times> 'j) list \<Rightarrow> (string \<times> 'j) list" where
  "tagged J variant members = (''type'', j_str J variant) # members"

definition opt_json :: "'j json_ops \<Rightarrow> ('a \<Rightarrow> 'j) \<Rightarrow> 'a option \<Rightarrow> 'j" where
  "opt_json J f x = (case x of None \<Rightarrow> j_null J | Some y \<Rightarrow> f y)"

definition bytes_json :: "'j json_ops \<Rightarrow> bytes \<Rightarrow> 'j" where
  "bytes_json J bs = j_arr J (map (\<lambda>b. j_int J (uint b)) bs)"

fun client_wire_fields ::
  "'j json_ops \<Rightarrow> ('i \<Rightarrow> (string \<times> 'j) list) \<Rightarrow> 'i client_wire \<Rightarrow> (string \<times> 'j) list" where
  "client_wire_fields J intent (Auth i name pass) =
     tagged J ''auth''
       [(''identity'', j_str J (identity_into_string i)),
        (''name'', opt_json J (j_str J) name),
        (''passport'', opt_json J (bytes_json J) pass)]"
| "client_wire_fields J intent (Intent x) = tagged J ''intent'' (intent x)"
| "client_wire_fields J intent (Ack seq) = tagged J ''ack'' [(''seq'', j_int J (uint seq))]"
| "client_wire_fields J intent (TransferRequest dest) =
     tagged J ''transfer_request'' [(''destination'', j_str J dest)]"
| "client_wire_fields J intent Ping = tagged J ''ping'' []"

definition keys_distinct :: "(string \<times> 'j) list \<Rightarrow> bool" where
  "keys_distinct fs \<longleftrightarrow> distinct (map fst fs)"

lemma keys_distinct_intent:
  "keys_distinct (client_wire_fields J intent (Intent x)) \<longleftrightarrow>
     keys_distinct (intent x) \<and> ''type'' \<notin> fst ` set (intent x)"
  by (auto simp: keys_distinct_def tagged_def)

text \<open>An encoded client message is an object without repeated members for every variant
  that the protocol itself defines; for an intent, exactly when the intent's own encoding has
  no repeated member and does not use the envelope's tag name.\<close>

lemma client_envelope_keys:
  "(keys_distinct (client_wire_fields J intent w) \<longleftrightarrow>
      (case w of
         Intent x \<Rightarrow> keys_distinct (intent x) \<and> ''type'' \<notin> fst ` set (intent x)
       | _ \<Rightarrow> True)) \<and>
   map_of (client_wire_fields J intent w) ''type'' =
     Some (j_str J (case w of
        Auth _ _ _ \<Rightarrow> ''auth''
      | Intent _ \<Rightarrow> ''intent''
      | Ack _ \<Rightarrow> ''ack''
      | TransferRequest _ \<Rightarrow> ''transfer_request''
      | Ping \<Rightarrow> ''ping''))"
  by (cases w) (auto simp: keys_distinct_def tagged_def)

text \<open>An encoding that starts with a member \<open>type\<close> of its own, as \<^verbatim>\<open>#[serde(tag = "type")]\<close> makes
  it.\<close>

definition type_tagged :: "'j json_ops \<Rightarrow> ('i \<Rightarrow> (string \<times> 'j) list) \<Rightarrow> bool" where
  "type_tagged J f \<longleftrightarrow> (\<forall>x. \<exists>v ms. f x = tagged J v ms)"

lemma tagged_collides: "type_tagged J f \<Longrightarrow> \<forall>x. \<not> keys_distinct (client_wire_fields J f (Intent x))"
  unfolding keys_distinct_intent type_tagged_def tagged_def
  by (metis fst_conv image_eqI list.set_intros(1))

text \<open>A codec of client messages that writes the members of a message with \<open>print\<close> and refuses what
  has the member \<open>type\<close> more than once, as the decoders that serde derives for internally tagged
  enums do (\<^verbatim>\<open>duplicate field\<close>).\<close>

definition strict_codec ::
  "'j json_ops \<Rightarrow> ('i \<Rightarrow> (string \<times> 'j) list) \<Rightarrow> ((string \<times> 'j) list \<Rightarrow> 'b) \<Rightarrow> ('i client_wire \<Rightarrow> 'e + 'b)
    \<Rightarrow> ('b \<Rightarrow> 'e + 'i client_wire) \<Rightarrow> bool" where
  "strict_codec J f print enc dec \<longleftrightarrow>
     (\<forall>w. enc w = Inr (print (client_wire_fields J f w))) \<and>
     (\<forall>ms. 1 < count_list (map fst ms) ''type'' \<longrightarrow> isl (dec (print ms)))"

lemma strict_codec_refuses:
  assumes "strict_codec J f print enc dec" and "type_tagged J f"
  obtains data e where "enc (Intent x) = Inr data" and "dec data = Inl e"
proof -
  from assms(2) obtain v ms where "f x = tagged J v ms"
    unfolding type_tagged_def by blast
  then have "1 < count_list (map fst (client_wire_fields J f (Intent x))) ''type''"
    by (simp add: tagged_def)
  with assms(1) have "enc (Intent x) = Inr (print (client_wire_fields J f (Intent x)))"
      "isl (dec (print (client_wire_fields J f (Intent x))))"
    unfolding strict_codec_def by blast+
  then show thesis
    by (auto simp: isl_def intro: that)
qed

end
