(* ===== verification/Transport.thy ===== *)
theory Transport
  imports Wire
begin

section \<open>What a room's transport promises\<close>

text \<open>
  \<^verbatim>\<open>crates/interconnect-core/src/transport.rs\<close> declares the interface: \<^verbatim>\<open>send\<close> and \<^verbatim>\<open>recv\<close>.
  A transport's \<open>recv\<close> is modelled on the inputs that its environment delivers (lines, web
  socket frames, poll responses), as a list: one call consumes some of them and answers
  with a frame, the end of the connection, an error, or \<open>Pending\<close> when it would wait for
  more. The locales state the contracts that the connectors share; every connector's
  theory interprets them on its own \<open>recv\<close>.
\<close>

text \<open>The last step of every \<^verbatim>\<open>recv\<close>: \<^verbatim>\<open>Ok(Some(serde_json::to_vec(&wire)?))\<close>.\<close>

definition emit :: "('w \<Rightarrow> 'ej + 'b) \<Rightarrow> ('ej \<Rightarrow> 'e) \<Rightarrow> 'w \<Rightarrow> ('e, 'b) polled" where
  "emit enc err w = (case enc w of Inl e \<Rightarrow> Failed (err e) | Inr b \<Rightarrow> Frame b)"

lemma emit_Frame [simp]: "emit enc err w = Frame b \<longleftrightarrow> enc w = Inr b"
  by (simp add: emit_def split: sum.splits)

lemma emit_not_Pending [simp]: "emit enc err w \<noteq> Pending" "emit enc err w \<noteq> Closed"
  "Pending \<noteq> emit enc err w" "Closed \<noteq> emit enc err w"
  by (simp_all add: emit_def split: sum.splits)

text \<open>A client that calls \<open>recv\<close> up to \<open>n\<close> times, as long as it gets frames.\<close>

fun recv_run ::
  "('t \<Rightarrow> 'i list \<Rightarrow> ('e, 'b) polled \<times> 't \<times> 'i list) \<Rightarrow> nat \<Rightarrow> 't \<Rightarrow> 'i list \<Rightarrow> 'b list \<times> 't \<times> 'i list" where
  "recv_run recv 0 t ins = ([], t, ins)"
| "recv_run recv (Suc n) t ins =
     (case recv t ins of
        (Frame b, t', rest) \<Rightarrow> (case recv_run recv n t' rest of (bs, r) \<Rightarrow> (b # bs, r))
      | (_, t', rest) \<Rightarrow> ([], t', rest))"

subsection \<open>Frames carry the room's snapshot and a sequence number\<close>

locale snapshot_transport =
  fixes recv :: "'t \<Rightarrow> 'i list \<Rightarrow> ('e, 'b) polled \<times> 't \<times> 'i list"
    and enc :: "('j, 's) server_wire \<Rightarrow> 'ej + 'b"
    and seq_of :: "'t \<Rightarrow> u64"
    and snap :: "'t \<Rightarrow> 's"
  assumes recv_frame:
    "recv t ins = (Frame b, t', rest) \<Longrightarrow> enc (Snapshot (seq_of t' - 1) (snap t')) = Inr b"
    and recv_consumes: "recv t ins = (Frame b, t', rest) \<Longrightarrow> length rest < length ins"
begin

lemma recv_decoded:
  assumes "recv t ins = (Frame b, t', rest)" and "round_trips enc dec"
  shows "dec b = Inr (Snapshot (seq_of t' - 1) (snap t'))"
  using assms recv_frame by (blast dest: round_tripsD)

lemma run_consumes:
  "recv_run recv n t ins = (bs, t', rest) \<Longrightarrow> (\<And>t ins r t' rest. recv t ins = (r, t', rest) \<Longrightarrow> length rest \<le> length ins)
   \<Longrightarrow> length bs + length rest \<le> length ins"
proof (induction n arbitrary: t ins bs)
  case 0
  then show ?case by simp
next
  case (Suc n)
  obtain r t1 ins1 where step: "recv t ins = (r, t1, ins1)"
    by (cases "recv t ins") auto
  show ?case
  proof (cases r)
    case (Frame b)
    with Suc.prems step obtain bs' where run: "recv_run recv n t1 ins1 = (bs', t', rest)" and bs: "bs = b # bs'"
      by (auto split: prod.splits)
    have "length ins1 < length ins"
      using step Frame by (auto intro: recv_consumes)
    moreover have "length bs' + length rest \<le> length ins1"
      by (rule Suc.IH [OF run]) (rule Suc.prems(2))
    ultimately show ?thesis
      using bs by simp
  qed (use Suc.prems step in auto)
qed

end

text \<open>Most transports bump the counter once per frame.\<close>

locale sequenced_transport = snapshot_transport +
  assumes recv_bumps: "recv t ins = (Frame b, t', rest) \<Longrightarrow> seq_of t' = seq_of t + 1"
begin

lemma recv_frame_seq:
  "recv t ins = (Frame b, t', rest) \<Longrightarrow> enc (Snapshot (seq_of t) (snap t')) = Inr b"
  using recv_frame recv_bumps by fastforce

lemma run_numbers:
  "recv_run recv n t ins = (bs, t', rest) \<Longrightarrow> i < length bs \<Longrightarrow>
     \<exists>s. enc (Snapshot (seq_of t + of_nat i) s) = Inr (bs ! i)"
proof (induction n arbitrary: t ins bs i)
  case 0
  then show ?case by simp
next
  case (Suc n)
  obtain r t1 ins1 where step: "recv t ins = (r, t1, ins1)"
    by (cases "recv t ins") auto
  show ?case
  proof (cases r)
    case (Frame b)
    with Suc.prems step obtain bs' where run: "recv_run recv n t1 ins1 = (bs', t', rest)" and bs: "bs = b # bs'"
      by (auto split: prod.splits)
    show ?thesis
    proof (cases i)
      case 0
      have "enc (Snapshot (seq_of t) (snap t1)) = Inr b"
        using step Frame recv_frame_seq by blast
      with 0 bs show ?thesis by auto
    next
      case (Suc k)
      with bs Suc.prems have "k < length bs'" by simp
      then obtain s where "enc (Snapshot (seq_of t1 + of_nat k) s) = Inr (bs' ! k)"
        using Suc.IH [OF run] by blast
      moreover have "seq_of t1 = seq_of t + 1"
        using step Frame recv_bumps by blast
      ultimately show ?thesis
        using Suc bs by (auto simp: add.assoc)
    qed
  qed (use Suc.prems step in auto)
qed

lemma run_numbers_decoded:
  assumes "recv_run recv n t ins = (bs, t', rest)" and "round_trips enc dec" and "i < length bs"
  shows "\<exists>s. dec (bs ! i) = Inr (Snapshot (seq_of t + of_nat i) s)"
  using run_numbers [OF assms(1,3)] assms(2) by (blast dest: round_tripsD)

end

subsection \<open>The history window\<close>

locale window_room =
  fixes msgs :: "'t \<Rightarrow> 'm list"
    and push :: "'t \<Rightarrow> 'm \<Rightarrow> 't"
    and cap :: nat
  assumes msgs_push: "msgs (push t m) = push_bounded cap (msgs t) m"
begin

lemma push_keeps_bound: "length (msgs t) \<le> cap \<Longrightarrow> length (msgs (push t m)) \<le> cap"
  by (simp add: msgs_push push_bounded_length)

lemma msgs_fold_push:
  "length (msgs t) \<le> cap \<Longrightarrow> msgs (fold (\<lambda>m t. push t m) ms t) = last_n cap (msgs t @ ms)"
proof (induction ms arbitrary: t)
  case Nil
  then show ?case by (simp add: last_n_all)
next
  case (Cons m ms)
  then show ?case
    by (simp add: msgs_push push_bounded_length) (simp add: push_bounded_last_n last_n_append_last_n)
qed

end

text \<open>A transport that loses no accepted message: after any call the buffer is the window
  over the old buffer and all the messages accepted among the inputs that the call used.\<close>

locale lossless_room =
  fixes recv :: "'t \<Rightarrow> 'i list \<Rightarrow> ('e, 'b) polled \<times> 't \<times> 'i list"
    and msgs :: "'t \<Rightarrow> 'm list"
    and accepted :: "'t \<Rightarrow> 'i list \<Rightarrow> 'm list"
    and cap :: nat
  assumes recv_window:
    "recv t ins = (r, t', rest) \<Longrightarrow> length (msgs t) \<le> cap \<Longrightarrow>
       \<exists>used. ins = used @ rest \<and> msgs t' = last_n cap (msgs t @ accepted t used)"
    and accepted_stable: "recv t ins = (r, t', rest) \<Longrightarrow> accepted t' = accepted t"
    and accepted_append: "accepted t (xs @ ys) = accepted t xs @ accepted t ys"
begin

lemma run_window:
  "recv_run recv n t ins = (bs, t', rest) \<Longrightarrow> length (msgs t) \<le> cap \<Longrightarrow>
     \<exists>used. ins = used @ rest \<and> msgs t' = last_n cap (msgs t @ accepted t used)"
proof (induction n arbitrary: t ins bs)
  case 0
  moreover have "accepted t' [] = []"
    using accepted_append [of t' "[]" "[]"] by simp
  ultimately show ?case by (simp add: last_n_all)
next
  case (Suc n)
  obtain r t1 ins1 where step: "recv t ins = (r, t1, ins1)"
    by (cases "recv t ins") auto
  obtain u where u: "ins = u @ ins1" "msgs t1 = last_n cap (msgs t @ accepted t u)"
    using recv_window [OF step Suc.prems(2)] by blast
  show ?case
  proof (cases r)
    case (Frame b)
    with Suc.prems step obtain bs' where run: "recv_run recv n t1 ins1 = (bs', t', rest)"
      by (auto split: prod.splits)
    have "length (msgs t1) \<le> cap" using u by simp
    from Suc.IH [OF run this] obtain v where
      v: "ins1 = v @ rest" "msgs t' = last_n cap (msgs t1 @ accepted t1 v)" by blast
    have "msgs t' = last_n cap (msgs t @ accepted t (u @ v))"
      using u v accepted_stable [OF step] by (simp add: last_n_append_last_n accepted_append)
    with u v show ?thesis by (intro exI [of _ "u @ v"]) simp
  qed (use Suc.prems step u in auto)
qed

lemma run_bound:
  "recv_run recv n t ins = (bs, t', rest) \<Longrightarrow> length (msgs t) \<le> cap \<Longrightarrow> length (msgs t') \<le> cap"
  by (drule run_window) auto

end

subsection \<open>Transports that are one loop\<close>

text \<open>Nearly every \<^verbatim>\<open>recv\<close> is a \<^verbatim>\<open>loop\<close> whose body consumes one input of the environment and
  either continues or returns. \<open>recv_loop\<close> runs such a body; the locales below ask for facts
  about one turn only, and the sublocales give the contracts of the whole loop.\<close>

datatype ('e, 'b, 't) turn = Continue 't | Return "('e, 'b) polled" 't

fun turn_state :: "('e, 'b, 't) turn \<Rightarrow> 't" where
  "turn_state (Continue t) = t"
| "turn_state (Return r t) = t"

fun recv_loop ::
  "('t \<Rightarrow> 'i \<Rightarrow> ('e, 'b, 't) turn) \<Rightarrow> 't \<Rightarrow> 'i list \<Rightarrow> ('e, 'b) polled \<times> 't \<times> 'i list" where
  "recv_loop body t [] = (Pending, t, [])"
| "recv_loop body t (x # ins) =
     (case body t x of
        Continue t' \<Rightarrow> recv_loop body t' ins
      | Return r t' \<Rightarrow> (r, t', ins))"

lemma recv_loop_consumes: "recv_loop body t ins = (Frame b, t', rest) \<Longrightarrow> length rest < length ins"
  by (induction body t ins rule: recv_loop.induct) (auto split: turn.splits)

lemma recv_loop_le: "recv_loop body t ins = (r, t', rest) \<Longrightarrow> length rest \<le> length ins"
  by (induction body t ins rule: recv_loop.induct) (auto split: turn.splits)

lemma recv_loop_preserves:
  "recv_loop body t ins = (r, t', rest) \<Longrightarrow> P t \<Longrightarrow> (\<And>t x. P t \<Longrightarrow> P (turn_state (body t x))) \<Longrightarrow> P t'"
proof (induction body t ins rule: recv_loop.induct)
  case (2 body t x ins)
  have "P (turn_state (body t x))" by (rule "2.prems"(3) [OF "2.prems"(2)])
  with 2 show ?case by (cases "body t x") auto
qed simp

text \<open>A stretch of turns that all continue.\<close>

fun continues :: "('t \<Rightarrow> 'i \<Rightarrow> ('e, 'b, 't) turn) \<Rightarrow> 't \<Rightarrow> 'i list \<Rightarrow> 't option" where
  "continues body t [] = Some t"
| "continues body t (x # ins) =
     (case body t x of Continue t' \<Rightarrow> continues body t' ins | Return _ _ \<Rightarrow> None)"

lemma recv_loop_continues: "continues body t ins = Some t' \<Longrightarrow> recv_loop body t (ins @ rest) = recv_loop body t' rest"
  by (induction ins arbitrary: t) (auto split: turn.splits)

locale turn_snapshots =
  fixes body :: "'t \<Rightarrow> 'i \<Rightarrow> ('e, 'b, 't) turn"
    and enc :: "('j, 's) server_wire \<Rightarrow> 'ej + 'b"
    and seq_of :: "'t \<Rightarrow> u64"
    and snap :: "'t \<Rightarrow> 's"
  assumes turn_frame: "body t x = Return (Frame b) t' \<Longrightarrow> enc (Snapshot (seq_of t' - 1) (snap t')) = Inr b"
begin

lemma loop_frame:
  "recv_loop body t ins = (Frame b, t', rest) \<Longrightarrow> enc (Snapshot (seq_of t' - 1) (snap t')) = Inr b"
  by (induction ins arbitrary: t) (auto dest: turn_frame split: turn.splits)

end

sublocale turn_snapshots \<subseteq> snapshot_transport "recv_loop body" enc seq_of snap
  by unfold_locales (auto dest: loop_frame recv_loop_consumes)

locale turn_sequenced = turn_snapshots +
  assumes turn_bumps: "body t x = Return (Frame b) t' \<Longrightarrow> seq_of t' = seq_of t + 1"
    and turn_keeps: "body t x = Continue t' \<Longrightarrow> seq_of t' = seq_of t"
begin

lemma loop_bumps: "recv_loop body t ins = (Frame b, t', rest) \<Longrightarrow> seq_of t' = seq_of t + 1"
  by (induction ins arbitrary: t) (auto dest: turn_bumps turn_keeps split: turn.splits)

end

sublocale turn_sequenced \<subseteq> sequenced_transport "recv_loop body" enc seq_of snap
  by unfold_locales (rule loop_bumps)

locale turn_lossless =
  fixes body :: "'t \<Rightarrow> 'i \<Rightarrow> ('e, 'b, 't) turn"
    and msgs :: "'t \<Rightarrow> 'm list"
    and accept :: "'t \<Rightarrow> 'i \<Rightarrow> 'm list"
    and cap :: nat
  assumes turn_window:
    "length (msgs t) \<le> cap \<Longrightarrow> msgs (turn_state (body t x)) = last_n cap (msgs t @ accept t x)"
    and turn_accept: "accept (turn_state (body t x)) = accept t"
begin

lemma loop_accept: "recv_loop body t ins = (r, t', rest) \<Longrightarrow> accept t' = accept t"
  using recv_loop_preserves [of body t ins r t' rest "\<lambda>u. accept u = accept t"] by (simp add: turn_accept)

lemma loop_window:
  "recv_loop body t ins = (r, t', rest) \<Longrightarrow> length (msgs t) \<le> cap \<Longrightarrow>
     \<exists>used. ins = used @ rest \<and> msgs t' = last_n cap (msgs t @ concat (map (accept t) used))"
proof (induction ins arbitrary: t)
  case (Cons x ins)
  note w = turn_window [OF Cons.prems(2), of x]
  show ?case
  proof (cases "body t x")
    case (Continue t1)
    with Cons.prems have "recv_loop body t1 ins = (r, t', rest)" by simp
    moreover have "length (msgs t1) \<le> cap" using w Continue by simp
    ultimately obtain used where "ins = used @ rest"
        "msgs t' = last_n cap (msgs t1 @ concat (map (accept t1) used))"
      using Cons.IH by blast
    moreover have "accept t1 = accept t" using turn_accept [of t x] Continue by simp
    ultimately show ?thesis
      using w Continue by (intro exI [of _ "x # used"]) (simp add: last_n_append_last_n)
  next
    case (Return r1 t1)
    with Cons.prems w show ?thesis by (intro exI [of _ "[x]"]) auto
  qed
qed (simp add: last_n_all)

end

sublocale turn_lossless \<subseteq> lossless_room "recv_loop body" msgs "\<lambda>t ins. concat (map (accept t) ins)" cap
  by unfold_locales (auto dest: loop_window loop_accept)

text \<open>A part of the transport's state that every turn changes by the same step function is, after any
  calls, the fold of the steps over the inputs that were used.\<close>

locale turn_folds =
  fixes body :: "'t \<Rightarrow> 'i \<Rightarrow> ('e, 'b, 't) turn"
    and part :: "'t \<Rightarrow> 'p"
    and step :: "'p \<Rightarrow> 'i \<Rightarrow> 'p"
  assumes turn_part: "part (turn_state (body t x)) = step (part t) x"
begin

lemma loop_folds:
  "recv_loop body t ins = (r, t', rest) \<Longrightarrow> \<exists>used. ins = used @ rest \<and> part t' = foldl step (part t) used"
proof (induction ins arbitrary: t)
  case (Cons x ins)
  note p = turn_part [of t x]
  show ?case
  proof (cases "body t x")
    case (Continue t1)
    with Cons.prems have "recv_loop body t1 ins = (r, t', rest)" by simp
    from Cons.IH [OF this] obtain used where "ins = used @ rest" "part t' = foldl step (part t1) used" by blast
    with p Continue show ?thesis by (intro exI [of _ "x # used"]) simp
  next
    case (Return r1 t1)
    with Cons.prems p show ?thesis by (intro exI [of _ "[x]"]) simp
  qed
qed simp

lemma run_folds:
  "recv_run (recv_loop body) n t ins = (bs, t', rest) \<Longrightarrow> \<exists>used. ins = used @ rest \<and> part t' = foldl step (part t) used"
proof (induction n arbitrary: t ins bs)
  case (Suc n)
  obtain r t1 ins1 where loop: "recv_loop body t ins = (r, t1, ins1)"
    by (cases "recv_loop body t ins") auto
  obtain u where u: "ins = u @ ins1" "part t1 = foldl step (part t) u"
    using loop_folds [OF loop] by blast
  show ?case
  proof (cases r)
    case (Frame b)
    with Suc.prems loop obtain bs' where "recv_run (recv_loop body) n t1 ins1 = (bs', t', rest)"
      by (auto split: prod.splits)
    from Suc.IH [OF this] obtain v where "ins1 = v @ rest" "part t' = foldl step (part t1) v" by blast
    with u show ?thesis by (intro exI [of _ "u @ v"]) simp
  qed (use Suc.prems loop u in auto)
qed simp

end

end
