(* ===== verification/Client.thy ===== *)
theory Client
  imports Transport
begin

section \<open>The client library\<close>

text \<open>
  \<^verbatim>\<open>crates/interconnect-client/src\<close>: the errors (\<^verbatim>\<open>error.rs\<close>), the web socket transport
  (\<^verbatim>\<open>transport.rs\<close>) and the typed connection with its handshake (\<^verbatim>\<open>connection.rs\<close>). A
  connection is generic over its transport, which is a record of the two operations of the
  trait; the waiting loops of the handshake take the number of \<open>recv\<close> calls they may make,
  and answer \<open>Pending\<close> when they have not finished by then.
\<close>

datatype ('we, 'cj, 'o) client_error =
    WebSocket 'we
  | ConnClosed
  | Codec 'cj
  | Handshake string
  | Server string string
  | Other 'o

record ('t, 'i, 'te, 'b) transport_ops =
  t_send :: "'t \<Rightarrow> 'b \<Rightarrow> ('te + unit) \<times> 't"
  t_recv :: "'t \<Rightarrow> 'i list \<Rightarrow> ('te, 'b) polled \<times> 't \<times> 'i list"

record ('t, 'j) connection =
  conn_transport :: 't
  conn_manifest :: "'j manifest"

subsection \<open>The connection\<close>

text \<open>The two waiting loops differ in the message they want: \<open>want\<close> picks it out, \<open>System\<close>
  messages are skipped, \<open>Error\<close> and every other message end the handshake.\<close>

fun discriminant :: "('j, 's) server_wire \<Rightarrow> nat" where
  "discriminant (Manifest _) = 0"
| "discriminant (Snapshot _ _) = 1"
| "discriminant (Transfer _ _) = 2"
| "discriminant (Error _ _) = 3"
| "discriminant (System _) = 4"
| "discriminant Pong = 5"

definition unexpected :: "string \<Rightarrow> ('j, 's) server_wire \<Rightarrow> string" where
  "unexpected label w =
     ''expected '' @ label @ '', got discriminant Discriminant('' @ show_nat (discriminant w) @ '')''"

fun want_manifest :: "('j, 's) server_wire \<Rightarrow> 'j manifest option" where
  "want_manifest (Manifest m) = Some m"
| "want_manifest _ = None"

fun want_snapshot :: "('j, 's) server_wire \<Rightarrow> 's option" where
  "want_snapshot (Snapshot _ d) = Some d"
| "want_snapshot _ = None"

datatype 'x verdict = Wanted 'x | Skipped | Refused string string | Unexpected string

definition await_verdict ::
  "string \<Rightarrow> (('j, 's) server_wire \<Rightarrow> 'x option) \<Rightarrow> ('j, 's) server_wire \<Rightarrow> 'x verdict" where
  "await_verdict label want w =
     (case want w of
        Some x \<Rightarrow> Wanted x
      | None \<Rightarrow>
          (case w of
             System _ \<Rightarrow> Skipped
           | Error code msg \<Rightarrow> Refused code msg
           | other \<Rightarrow> Unexpected (unexpected label other)))"

fun await_wire ::
  "('t, 'i, 'te, 'b) transport_ops \<Rightarrow> ('te \<Rightarrow> ('we, 'cj, 'o) client_error)
    \<Rightarrow> ('b \<Rightarrow> 'cj + ('j, 's) server_wire) \<Rightarrow> string \<Rightarrow> (('j, 's) server_wire \<Rightarrow> 'x option)
    \<Rightarrow> nat \<Rightarrow> 't \<Rightarrow> 'i list \<Rightarrow> (('we, 'cj, 'o) client_error, 'x) polled \<times> 't \<times> 'i list" where
  "await_wire T into dec label want 0 t ins = (Pending, t, ins)"
| "await_wire T into dec label want (Suc n) t ins =
     (case t_recv T t ins of
        (Failed e, t', rest) \<Rightarrow> (Failed (into e), t', rest)
      | (Pending, t', rest) \<Rightarrow> (Pending, t', rest)
      | (Closed, t', rest) \<Rightarrow> (Failed ConnClosed, t', rest)
      | (Frame raw, t', rest) \<Rightarrow>
          (case from_json dec raw of
             Inl e \<Rightarrow> (Failed (Codec e), t', rest)
           | Inr w \<Rightarrow>
               (case await_verdict label want w of
                  Wanted x \<Rightarrow> (Frame x, t', rest)
                | Skipped \<Rightarrow> await_wire T into dec label want n t' rest
                | Refused code msg \<Rightarrow> (Failed (Server code msg), t', rest)
                | Unexpected text \<Rightarrow> (Failed (Handshake text), t', rest))))"

definition conn_connect ::
  "('t, 'i, 'te, 'b) transport_ops \<Rightarrow> ('te \<Rightarrow> ('we, 'cj, 'o) client_error)
    \<Rightarrow> ('q client_wire \<Rightarrow> 'cj + 'b) \<Rightarrow> ('b \<Rightarrow> 'cj + ('j, 's) server_wire) \<Rightarrow> nat \<Rightarrow> 't
    \<Rightarrow> identity \<Rightarrow> string option \<Rightarrow> bytes option \<Rightarrow> 'i list
    \<Rightarrow> (('we, 'cj, 'o) client_error, ('t, 'j) connection \<times> 's) polled \<times> 't \<times> 'i list" where
  "conn_connect T into enc dec n t who name pass ins =
     (case to_json enc (Auth who name pass) of
        Inl e \<Rightarrow> (Failed (Codec e), t, ins)
      | Inr data \<Rightarrow>
          (case t_send T t data of
             (Inl e, t1) \<Rightarrow> (Failed (into e), t1, ins)
           | (Inr _, t1) \<Rightarrow>
               (case await_wire T into dec ''Manifest'' want_manifest n t1 ins of
                  (Frame m, t2, ins2) \<Rightarrow>
                    (case await_wire T into dec ''Snapshot'' want_snapshot n t2 ins2 of
                       (Frame initial, t3, ins3) \<Rightarrow>
                         (Frame (\<lparr>conn_transport = t3, conn_manifest = m\<rparr>, initial), t3, ins3)
                     | (Failed e, t3, ins3) \<Rightarrow> (Failed e, t3, ins3)
                     | (Closed, t3, ins3) \<Rightarrow> (Closed, t3, ins3)
                     | (Pending, t3, ins3) \<Rightarrow> (Pending, t3, ins3))
                | (Failed e, t2, ins2) \<Rightarrow> (Failed e, t2, ins2)
                | (Closed, t2, ins2) \<Rightarrow> (Closed, t2, ins2)
                | (Pending, t2, ins2) \<Rightarrow> (Pending, t2, ins2))))"

definition conn_send ::
  "('t, 'i, 'te, 'b) transport_ops \<Rightarrow> ('te \<Rightarrow> ('we, 'cj, 'o) client_error)
    \<Rightarrow> ('q client_wire \<Rightarrow> 'cj + 'b) \<Rightarrow> ('t, 'j) connection \<Rightarrow> 'q client_wire
    \<Rightarrow> (('we, 'cj, 'o) client_error + unit) \<times> ('t, 'j) connection" where
  "conn_send T into enc c msg =
     (case to_json enc msg of
        Inl e \<Rightarrow> (Inl (Codec e), c)
      | Inr data \<Rightarrow>
          (case t_send T (conn_transport c) data of
             (Inl e, t) \<Rightarrow> (Inl (into e), c\<lparr>conn_transport := t\<rparr>)
           | (Inr u, t) \<Rightarrow> (Inr u, c\<lparr>conn_transport := t\<rparr>)))"

definition send_intent where
  "send_intent T into enc c intent = conn_send T into enc c (Intent intent)"

definition conn_ping where
  "conn_ping T into enc c = conn_send T into enc c Ping"

definition request_transfer where
  "request_transfer T into enc c destination = conn_send T into enc c (TransferRequest destination)"

definition conn_recv ::
  "('t, 'i, 'te, 'b) transport_ops \<Rightarrow> ('te \<Rightarrow> ('we, 'cj, 'o) client_error)
    \<Rightarrow> ('b \<Rightarrow> 'cj + ('j, 's) server_wire) \<Rightarrow> ('t, 'j) connection \<Rightarrow> 'i list
    \<Rightarrow> (('we, 'cj, 'o) client_error, ('j, 's) server_wire) polled \<times> ('t, 'j) connection \<times> 'i list" where
  "conn_recv T into dec c ins =
     (case t_recv T (conn_transport c) ins of
        (Frame raw, t, rest) \<Rightarrow>
          (case from_json dec raw of
             Inl e \<Rightarrow> (Failed (Codec e), c\<lparr>conn_transport := t\<rparr>, rest)
           | Inr w \<Rightarrow> (Frame w, c\<lparr>conn_transport := t\<rparr>, rest))
      | (Failed e, t, rest) \<Rightarrow> (Failed (into e), c\<lparr>conn_transport := t\<rparr>, rest)
      | (Closed, t, rest) \<Rightarrow> (Closed, c\<lparr>conn_transport := t\<rparr>, rest)
      | (Pending, t, rest) \<Rightarrow> (Pending, c\<lparr>conn_transport := t\<rparr>, rest))"

definition established :: "'t \<Rightarrow> 'j manifest \<Rightarrow> ('t, 'j) connection" where
  "established t m = \<lparr>conn_transport = t, conn_manifest = m\<rparr>"

subsection \<open>The web socket transport\<close>

text \<open>What the socket's stream yields: its end, an error, or a message. The socket itself and
  its sink are parameters; so is the lossy conversion to a string.\<close>

datatype 'we ws_item =
    WsEnd
  | WsErr 'we
  | WsText bytes
  | WsBinary bytes
  | WsPing bytes
  | WsPong bytes
  | WsClose
  | WsRaw bytes

fun ws_recv :: "'ws \<Rightarrow> 'we ws_item list \<Rightarrow> ('we, bytes) polled \<times> 'ws \<times> 'we ws_item list" where
  "ws_recv t [] = (Pending, t, [])"
| "ws_recv t (WsEnd # rest) = (Closed, t, rest)"
| "ws_recv t (WsErr e # rest) = (Failed e, t, rest)"
| "ws_recv t (WsText b # rest) = (Frame b, t, rest)"
| "ws_recv t (WsBinary b # rest) = (Frame b, t, rest)"
| "ws_recv t (WsPing _ # rest) = ws_recv t rest"
| "ws_recv t (WsPong _ # rest) = ws_recv t rest"
| "ws_recv t (WsClose # rest) = (Closed, t, rest)"
| "ws_recv t (WsRaw _ # rest) = ws_recv t rest"

definition ws_send ::
  "(bytes \<Rightarrow> bytes) \<Rightarrow> ('ws \<Rightarrow> 'we ws_item \<Rightarrow> ('we + unit) \<times> 'ws) \<Rightarrow> 'ws \<Rightarrow> bytes \<Rightarrow> ('we + unit) \<times> 'ws" where
  "ws_send utf8_lossy sink t data = sink t (WsText (utf8_lossy data))"

definition ws_transport ::
  "(bytes \<Rightarrow> bytes) \<Rightarrow> ('ws \<Rightarrow> 'we ws_item \<Rightarrow> ('we + unit) \<times> 'ws) \<Rightarrow> ('ws, 'we ws_item, 'we, bytes) transport_ops" where
  "ws_transport utf8_lossy sink = \<lparr>t_send = ws_send utf8_lossy sink, t_recv = ws_recv\<rparr>"

lemma ws_transport_sel [simp]:
  "t_send (ws_transport f sink) = ws_send f sink" "t_recv (ws_transport f sink) = ws_recv"
  by (simp_all add: ws_transport_def)

text \<open>The messages that carry data, and those that the transport skips.\<close>

fun ws_payload :: "'we ws_item \<Rightarrow> bytes option" where
  "ws_payload (WsText b) = Some b"
| "ws_payload (WsBinary b) = Some b"
| "ws_payload _ = None"

fun ws_control :: "'we ws_item \<Rightarrow> bool" where
  "ws_control (WsPing _) = True"
| "ws_control (WsPong _) = True"
| "ws_control (WsRaw _) = True"
| "ws_control _ = False"

lemma ws_recv_skip [simp]: "ws_control c \<Longrightarrow> ws_recv t (c # rest) = ws_recv t rest"
  by (cases c) simp_all

lemma ws_recv_data [simp]: "ws_payload c = Some b \<Longrightarrow> ws_recv t (c # rest) = (Frame b, t, rest)"
  by (cases c) simp_all

lemma ws_recv_controls: "list_all ws_control ctl \<Longrightarrow> ws_recv t (ctl @ rest) = ws_recv t rest"
  by (induction ctl) auto

lemma ws_recv_Frame_iff:
  "ws_recv t ins = (Frame b, t', rest) \<longleftrightarrow>
     t' = t \<and> (\<exists>ctl it. list_all ws_control ctl \<and> ws_payload it = Some b \<and> ins = ctl @ it # rest)"
proof
  assume "ws_recv t ins = (Frame b, t', rest)"
  then show "t' = t \<and> (\<exists>ctl it. list_all ws_control ctl \<and> ws_payload it = Some b \<and> ins = ctl @ it # rest)"
  proof (induction t ins rule: ws_recv.induct)
    case (6 t x rest')
    then obtain ctl it where "t' = t" "list_all ws_control ctl" "ws_payload it = Some b" "rest' = ctl @ it # rest"
      by auto
    then show ?case by (intro conjI exI [of _ "WsPing x # ctl"] exI [of _ it]) auto
  next
    case (7 t x rest')
    then obtain ctl it where "t' = t" "list_all ws_control ctl" "ws_payload it = Some b" "rest' = ctl @ it # rest"
      by auto
    then show ?case by (intro conjI exI [of _ "WsPong x # ctl"] exI [of _ it]) auto
  next
    case (9 t x rest')
    then obtain ctl it where "t' = t" "list_all ws_control ctl" "ws_payload it = Some b" "rest' = ctl @ it # rest"
      by auto
    then show ?case by (intro conjI exI [of _ "WsRaw x # ctl"] exI [of _ it]) auto
  qed (auto intro: exI [of _ "[]"])
qed (auto simp: ws_recv_controls)

text \<open>A stretch of the stream that carries the data frames \<open>bs\<close>, ends with the last of them
  and has only skipped messages between.\<close>

inductive carries :: "'we ws_item list \<Rightarrow> bytes list \<Rightarrow> bool" where
  carries_nil: "carries [] []"
| carries_data: "list_all ws_control ctl \<Longrightarrow> ws_payload it = Some b \<Longrightarrow> carries its bs
    \<Longrightarrow> carries (ctl @ it # its) (b # bs)"

inductive_simps carries_Nil [simp]: "carries its []"
inductive_simps carries_Cons: "carries its (b # bs)"

lemma carries_append: "carries xs as \<Longrightarrow> carries ys bs \<Longrightarrow> carries (xs @ ys) (as @ bs)"
proof (induction xs as rule: carries.induct)
  case (carries_data ctl it b its bs')
  then show ?case using carries.carries_data [of ctl it b "its @ ys" "bs' @ bs"] by simp
qed simp

lemma carries_item: "ws_payload it = Some b \<Longrightarrow> carries its bs \<Longrightarrow> carries (it # its) (b # bs)"
  using carries.carries_data [of "[]" it b its bs] by simp

lemma carries_control: "ws_control c \<Longrightarrow> carries its (b # bs) \<Longrightarrow> carries (c # its) (b # bs)"
  unfolding carries_Cons by (metis append_Cons list.pred_inject(2))

lemma carries_length: "carries its bs \<Longrightarrow> length bs \<le> length its"
  by (induction rule: carries.induct) auto

lemma carries_split: "carries its (as @ bs) \<Longrightarrow> \<exists>xs ys. its = xs @ ys \<and> carries xs as \<and> carries ys bs"
proof (induction as arbitrary: its)
  case Nil
  then show ?case by (intro exI [of _ "[]"] exI [of _ its]) simp
next
  case (Cons a as)
  then obtain ctl it its' where its: "its = ctl @ it # its'" "list_all ws_control ctl" "ws_payload it = Some a"
      "carries its' (as @ bs)"
    by (auto simp: carries_Cons)
  then obtain xs ys where "its' = xs @ ys" "carries xs as" "carries ys bs"
    using Cons.IH by blast
  with its show ?case
    by (intro exI [of _ "ctl @ it # xs"] exI [of _ ys]) (auto intro: carries.carries_data)
qed

lemma verdict_manifest [simp]:
  "await_verdict l want_manifest w = Skipped \<longleftrightarrow> (\<exists>m. w = System m)"
  "await_verdict l want_manifest w = Wanted m \<longleftrightarrow> w = Manifest m"
  by (cases w; simp add: await_verdict_def)+

lemma verdict_snapshot [simp]:
  "await_verdict l want_snapshot w = Skipped \<longleftrightarrow> (\<exists>m. w = System m)"
  "await_verdict l want_snapshot w = Wanted s \<longleftrightarrow> (\<exists>q. w = Snapshot q s)"
  by (cases w; simp add: await_verdict_def)+

lemma decodes_system [simp]:
  "(\<exists>w. dec b = Inr w \<and> (\<exists>m. w = System m)) \<longleftrightarrow> (\<exists>msg. dec b = Inr (System msg))"
  by auto

text \<open>What a waiting loop returns, when it has enough calls.\<close>

lemma await_ws_steps:
  assumes "carries its bs" and "\<forall>b \<in> set bs. \<exists>w. dec b = Inr w \<and> await_verdict l want w = Skipped"
    and "length bs \<le> n"
  shows "await_wire (ws_transport f sink) into dec l want n t (its @ rest) =
         await_wire (ws_transport f sink) into dec l want (n - length bs) t rest"
  using assms
proof (induction arbitrary: n rule: carries.induct)
  case (carries_data ctl it b its bs)
  then obtain k where "n = Suc k" by (cases n) auto
  with carries_data show ?case
    by (auto simp: ws_recv_controls from_json_def)
qed simp

lemma await_ws_Frame:
  assumes "await_wire (ws_transport f sink) into dec l want n t ins = (Frame x, t', rest)"
  shows "t' = t \<and> (\<exists>its pre b w. ins = its @ rest \<and> carries its (pre @ [b]) \<and>
     (\<forall>b \<in> set pre. \<exists>w. dec b = Inr w \<and> await_verdict l want w = Skipped) \<and>
     dec b = Inr w \<and> await_verdict l want w = Wanted x)"
  using assms
proof (induction n arbitrary: ins)
  case 0
  then show ?case by simp
next
  case (Suc n)
  from Suc.prems obtain raw t1 r1 where rc: "ws_recv t ins = (Frame raw, t1, r1)"
    by (auto split: polled.splits prod.splits)
  then have t1: "t1 = t" by (simp add: ws_recv_Frame_iff)
  obtain ctl it where ins: "list_all ws_control ctl" "ws_payload it = Some raw" "ins = ctl @ it # r1"
    using rc by (auto simp: ws_recv_Frame_iff)
  obtain w where w: "dec raw = Inr w"
    using Suc.prems rc by (auto simp: from_json_def split: sum.splits)
  show ?case
  proof (cases "await_verdict l want w = Skipped")
    case True
    with Suc.prems rc w t1 have "await_wire (ws_transport f sink) into dec l want n t r1 = (Frame x, t', rest)"
      by (simp add: from_json_def)
    from Suc.IH [OF this] obtain its pre b w' where ih: "t' = t" "r1 = its @ rest" "carries its (pre @ [b])"
      "\<forall>b \<in> set pre. \<exists>w. dec b = Inr w \<and> await_verdict l want w = Skipped"
      "dec b = Inr w'" "await_verdict l want w' = Wanted x"
      by blast
    have "carries (ctl @ it # its) ((raw # pre) @ [b])"
      using carries.carries_data [OF ins(1,2) ih(3)] by simp
    with ih ins w True show ?thesis
      by (intro conjI exI [of _ "ctl @ it # its"] exI [of _ "raw # pre"] exI [of _ b] exI [of _ w']) auto
  next
    case False
    with Suc.prems rc w t1 have Some: "await_verdict l want w = Wanted x" "r1 = rest" "t' = t"
      by (auto simp: from_json_def split: verdict.splits)
    moreover have "carries (ctl @ [it]) ([] @ [raw])"
      using carries.carries_data [OF ins(1,2) carries.carries_nil] by simp
    ultimately show ?thesis
      using ins w Some by (intro conjI exI [of _ "ctl @ [it]"] exI [of _ "[]"] exI [of _ raw] exI [of _ w]) auto
  qed
qed

fun verdict_result :: "'x verdict \<Rightarrow> (('we, 'cj, 'o) client_error, 'x) polled" where
  "verdict_result (Wanted x) = Frame x"
| "verdict_result Skipped = Pending"
| "verdict_result (Refused code msg) = Failed (Server code msg)"
| "verdict_result (Unexpected text) = Failed (Handshake text)"

lemma await_ws_answer:
  assumes "carries its (pre @ [b])"
    and "\<forall>b \<in> set pre. \<exists>w. dec b = Inr w \<and> await_verdict l want w = Skipped"
    and "dec b = Inr w" and "await_verdict l want w = v" and "v \<noteq> Skipped" and "length its < n"
  shows "await_wire (ws_transport f sink) into dec l want n t (its @ rest) = (verdict_result v, t, rest)"
proof -
  obtain xs ys where xy: "its = xs @ ys" "carries xs pre" "carries ys [b]"
    using carries_split [OF assms(1)] by blast
  have "length pre + 1 \<le> length its" using carries_length [OF assms(1)] by simp
  then obtain k where k: "n - length pre = Suc k" "length pre \<le> n"
    using assms(6) by (cases "n - length pre") auto
  obtain ctl it where ys: "ys = ctl @ [it]" "list_all ws_control ctl" "ws_payload it = Some b"
    using xy(3) by (auto simp: carries_Cons)
  have "await_wire (ws_transport f sink) into dec l want n t (xs @ ys @ rest) =
        await_wire (ws_transport f sink) into dec l want (Suc k) t (ys @ rest)"
    using await_ws_steps [OF xy(2) assms(2) k(2)] k(1) by simp
  also have "\<dots> = (verdict_result v, t, rest)"
    using assms(3-5) ys by (cases v) (auto simp: ws_recv_controls from_json_def)
  finally show ?thesis using xy by simp
qed

lemma await_ws_Frame_iff:
  assumes "length ins < n"
  shows "await_wire (ws_transport f sink) into dec l want n t ins = (Frame x, t', rest) \<longleftrightarrow>
    t' = t \<and> (\<exists>its pre b w. ins = its @ rest \<and> carries its (pre @ [b]) \<and>
     (\<forall>b \<in> set pre. \<exists>w. dec b = Inr w \<and> await_verdict l want w = Skipped) \<and>
     dec b = Inr w \<and> await_verdict l want w = Wanted x)" (is "?L \<longleftrightarrow> ?R")
proof
  assume ?L then show ?R by (rule await_ws_Frame)
next
  assume ?R
  then obtain its pre b w where "t' = t" "ins = its @ rest" "carries its (pre @ [b])"
     "\<forall>b \<in> set pre. \<exists>w. dec b = Inr w \<and> await_verdict l want w = Skipped"
     "dec b = Inr w" "await_verdict l want w = Wanted x"
    by blast
  then show ?L
    using assms await_ws_answer [of its pre b dec l want w "Wanted x" n f sink into t rest] by simp
qed

lemma connect_Frame_iff:
  "conn_connect T into enc dec n t who name pass ins = (Frame (c, s), t', rest) \<longleftrightarrow>
     (\<exists>data t1 u m t2 ins2. to_json enc (Auth who name pass) = Inr data \<and> t_send T t data = (Inr u, t1) \<and>
        await_wire T into dec ''Manifest'' want_manifest n t1 ins = (Frame m, t2, ins2) \<and>
        await_wire T into dec ''Snapshot'' want_snapshot n t2 ins2 = (Frame s, t', rest) \<and>
        c = \<lparr>conn_transport = t', conn_manifest = m\<rparr>)"
  by (auto simp: conn_connect_def split: sum.splits prod.splits polled.splits)

lemma connect_ws:
  assumes "enc (Auth who name pass) = Inr data" and "sink ws (WsText (utf8 data)) = (Inr u, ws')"
    and "carries its ((pre @ [bm]) @ mid @ [bs])"
    and "\<forall>b \<in> set (pre @ mid). \<exists>msg. dec b = Inr (System msg)"
    and "dec bm = Inr (Manifest m)" and "dec bs = Inr (Snapshot q s)" and "length (its @ rest) < n"
  shows "conn_connect (ws_transport utf8 sink) into enc dec n ws who name pass (its @ rest) =
    (Frame (established ws' m, s), ws', rest)"
proof -
  obtain i1 i2 where i: "its = i1 @ i2" "carries i1 (pre @ [bm])" "carries i2 (mid @ [bs])"
    using carries_split [OF assms(3)] by blast
  have "await_wire (ws_transport utf8 sink) into dec ''Manifest'' want_manifest n ws' (i1 @ i2 @ rest) =
        (Frame m, ws', i2 @ rest)"
    using i assms
    by (simp add: await_ws_answer [OF i(2), of dec "''Manifest''" want_manifest "Manifest m" "Wanted m"])
  moreover have "await_wire (ws_transport utf8 sink) into dec ''Snapshot'' want_snapshot n ws' (i2 @ rest) =
        (Frame s, ws', rest)"
    using i assms
    by (simp add: await_ws_answer [OF i(3), of dec "''Snapshot''" want_snapshot "Snapshot q s" "Wanted s"])
  ultimately show ?thesis
    using i assms by (auto simp: connect_Frame_iff ws_send_def to_json_def established_def)
qed

text \<open>C1: over a web socket, the handshake succeeds exactly when the authentication message
  could be encoded and sent, and the data messages that follow are system messages, a
  manifest, system messages and a snapshot, in this order; it returns that manifest and the
  data of that snapshot, and leaves everything behind the snapshot unread.\<close>

theorem client_handshake:
  assumes "length ins < n"
  shows "conn_connect (ws_transport utf8 sink) into enc dec n ws who name pass ins = (Frame (c, s), ws', rest) \<longleftrightarrow>
    (\<exists>data u m q sys1 bm sys2 bs its. enc (Auth who name pass) = Inr data \<and>
       sink ws (WsText (utf8 data)) = (Inr u, ws') \<and>
       ins = its @ rest \<and> carries its (sys1 @ [bm] @ sys2 @ [bs]) \<and>
       (\<forall>b \<in> set (sys1 @ sys2). \<exists>msg. dec b = Inr (System msg)) \<and>
       dec bm = Inr (Manifest m) \<and> dec bs = Inr (Snapshot q s) \<and>
       c = established ws' m)" (is "?L \<longleftrightarrow> ?R")
proof
  assume ?L
  then obtain data t1 u m t2 ins2 where
    1: "enc (Auth who name pass) = Inr data" "sink ws (WsText (utf8 data)) = (Inr u, t1)"
      "await_wire (ws_transport utf8 sink) into dec ''Manifest'' want_manifest n t1 ins = (Frame m, t2, ins2)"
      "await_wire (ws_transport utf8 sink) into dec ''Snapshot'' want_snapshot n t2 ins2 = (Frame s, ws', rest)"
      "c = established ws' m"
    by (auto simp: connect_Frame_iff ws_send_def to_json_def established_def)
  from await_ws_Frame [OF 1(3)] obtain i1 sys1 bm where 2: "t2 = t1" "ins = i1 @ ins2" "carries i1 (sys1 @ [bm])"
      "\<forall>b \<in> set sys1. \<exists>msg. dec b = Inr (System msg)" "dec bm = Inr (Manifest m)"
    by auto
  from await_ws_Frame [OF 1(4)] obtain i2 sys2 bs q where 3: "ws' = t2" "ins2 = i2 @ rest" "carries i2 (sys2 @ [bs])"
      "\<forall>b \<in> set sys2. \<exists>msg. dec b = Inr (System msg)" "dec bs = Inr (Snapshot q s)"
    by auto
  have "carries (i1 @ i2) (sys1 @ [bm] @ sys2 @ [bs])"
    using carries_append [OF 2(3) 3(3)] by simp
  with 1 2 3 show ?R
    by (intro exI [of _ data] exI [of _ u] exI [of _ m] exI [of _ q] exI [of _ sys1] exI [of _ bm]
        exI [of _ sys2] exI [of _ bs] exI [of _ "i1 @ i2"]) auto
next
  assume ?R
  then obtain data u m q sys1 bm sys2 bs its where
    1: "enc (Auth who name pass) = Inr data" "sink ws (WsText (utf8 data)) = (Inr u, ws')"
      "ins = its @ rest" "carries its ((sys1 @ [bm]) @ sys2 @ [bs])"
      "\<forall>b \<in> set (sys1 @ sys2). \<exists>msg. dec b = Inr (System msg)"
      "dec bm = Inr (Manifest m)" "dec bs = Inr (Snapshot q s)" "c = established ws' m"
    by auto
  show ?L
    unfolding 1(3,8)
    by (rule connect_ws [where pre = sys1 and mid = sys2 and bm = bm and bs = bs and q = q and u = u and data = data])
      (use 1 assms in simp_all)
qed

text \<open>A decoder and a stream on which the handshake succeeds: a ping, a greeting, the manifest, the
  snapshot and one more message.\<close>

definition demo_manifest :: "json manifest" where
  "demo_manifest = \<lparr>m_identity = identity_local ''srv'', m_name = ''demo'', m_substrate = None, m_metadata = JNull\<rparr>"

definition demo_dec :: "bytes \<Rightarrow> unit + (json, nat) server_wire" where
  "demo_dec b =
     (if b = [0] then Inr (Manifest demo_manifest) else if b = [1] then Inr (Snapshot 7 42)
      else if b = [2] then Inr (System ''hi'') else if b = [3] then Inr (Error ''full'' ''no room'')
      else if b = [4] then Inr Pong else Inl ())"

theorem client_handshake_witness:
  "fst (conn_connect (ws_transport id (\<lambda>s m. (Inr (), Suc s))) (WebSocket :: unit \<Rightarrow> (unit, unit, unit) client_error) (\<lambda>_ :: nat client_wire. Inr [9]) demo_dec 9 0
     (identity_local ''a'') None None [WsPing [], WsText [2], WsBinary [0], WsText [1], WsText [3]])
   = Frame (established 1 demo_manifest, 42)"
proof -
  have "carries [WsPing [], WsText [2], WsBinary [0], WsText [1]] ([[2]] @ [[0]] @ [] @ [[1]])"
    by (simp add: carries_item carries_control)
  then have "\<exists>sys1 bm sys2 bs its. [WsPing [], WsText [2], WsBinary [0], WsText [1], WsText [3]] = its @ [WsText [3]] \<and>
      carries its (sys1 @ [bm] @ sys2 @ [bs]) \<and> (\<forall>b \<in> set (sys1 @ sys2). \<exists>msg. demo_dec b = Inr (System msg)) \<and>
      demo_dec bm = Inr (Manifest demo_manifest) \<and> demo_dec bs = Inr (Snapshot 7 42)"
    by (intro exI [of _ "[[2]]"] exI [of _ "[0]"] exI [of _ "[]"] exI [of _ "[1]"]
        exI [of _ "[WsPing [], WsText [2], WsBinary [0], WsText [1]]"]) (auto simp: demo_dec_def)
  then have "conn_connect (ws_transport id (\<lambda>s m. (Inr (), Suc s))) (WebSocket :: unit \<Rightarrow> (unit, unit, unit) client_error) (\<lambda>_ :: nat client_wire. Inr [9]) demo_dec 9 0
     (identity_local ''a'') None None [WsPing [], WsText [2], WsBinary [0], WsText [1], WsText [3]]
     = (Frame (established 1 demo_manifest, 42), 1, [WsText [3]])"
    by (subst client_handshake) (simp, simp, blast)
  then show ?thesis by simp
qed

text \<open>C15: over a web socket, the first data message behind the system messages that is neither a
  system message nor a manifest ends the handshake: an error of the server is handed to the
  caller with its code and text, every other message is a handshake error that names its
  position in the list of message kinds; nothing behind it is read.\<close>

theorem client_handshake_refused:
  assumes "enc (Auth who name pass) = Inr data" and "sink ws (WsText (utf8 data)) = (Inr u, ws')"
    and "carries its (sys @ [b])" and "\<forall>b \<in> set sys. \<exists>msg. dec b = Inr (System msg)"
    and "dec b = Inr w" and "\<nexists>m. w = Manifest m" and "\<nexists>m. w = System m" and "length its < n"
  shows "conn_connect (ws_transport utf8 sink) into enc dec n ws who name pass (its @ rest) =
    (Failed (case w of
       Error code msg \<Rightarrow> Server code msg
     | _ \<Rightarrow> Handshake (''expected Manifest, got discriminant Discriminant('' @ show_nat (discriminant w) @ '')'')),
     ws', rest)"
proof -
  have v: "verdict_result (await_verdict ''Manifest'' want_manifest w) =
     Failed (case w of
       Error code msg \<Rightarrow> Server code msg
     | _ \<Rightarrow> Handshake (''expected Manifest, got discriminant Discriminant('' @ show_nat (discriminant w) @ '')''))"
    using assms(6,7) by (cases w) (auto simp: await_verdict_def unexpected_def)
  have "await_verdict ''Manifest'' want_manifest w \<noteq> Skipped"
    using assms(7) by auto
  with await_ws_answer [OF assms(3), of dec "''Manifest''" want_manifest w _ n utf8 sink into ws' rest] v assms
  have "await_wire (ws_transport utf8 sink) into dec ''Manifest'' want_manifest n ws' (its @ rest) =
     (Failed (case w of
       Error code msg \<Rightarrow> Server code msg
     | _ \<Rightarrow> Handshake (''expected Manifest, got discriminant Discriminant('' @ show_nat (discriminant w) @ '')'')),
     ws', rest)"
    by simp
  then show ?thesis
    using assms(1,2) by (simp add: conn_connect_def ws_send_def to_json_def)
qed

theorem client_handshake_refused_witness:
  "fst (conn_connect (ws_transport id (\<lambda>s m. (Inr (), s))) (WebSocket :: unit \<Rightarrow> (unit, unit, unit) client_error) (\<lambda>_ :: nat client_wire. Inr [9]) demo_dec 9 ()
     (identity_local ''a'') None None ([WsText [2], WsText [4]] @ [WsText [0]]))
   = Failed (Handshake (''expected Manifest, got discriminant Discriminant('' @ show_nat 5 @ '')''))"
proof -
  have "carries [WsText [2], WsText [4]] ([[2]] @ [[4]])"
    by (simp add: carries_item)
  then show ?thesis
    by (subst client_handshake_refused [where sys = "[[2]]" and b = "[4]" and w = Pong])
      (auto simp: demo_dec_def)
qed

subsection \<open>The handshake ends\<close>

lemma ws_recv_rest:
  "ws_recv t ins = (r, t', rest) \<Longrightarrow> length rest \<le> length ins \<and>
     ((\<exists>b. r = Frame b) \<longrightarrow> length rest < length ins) \<and> (r = Pending \<longrightarrow> rest = [])"
  by (induction t ins rule: ws_recv.induct) auto

lemma await_fuel:
  "length ins < n \<Longrightarrow> length ins < m \<Longrightarrow>
     await_wire (ws_transport f sink) into dec l want n t ins = await_wire (ws_transport f sink) into dec l want m t ins"
proof (induction n arbitrary: m t ins)
  case (Suc n)
  then obtain k where m: "m = Suc k" by (cases m) auto
  obtain r t' rest where rc: "ws_recv t ins = (r, t', rest)"
    by (cases "ws_recv t ins") auto
  show ?case
  proof (cases r)
    case (Frame b)
    then have "length rest < n" "length rest < k"
      using ws_recv_rest [OF rc] Suc.prems m by auto
    then have IH: "await_wire (ws_transport f sink) into dec l want n t' rest =
        await_wire (ws_transport f sink) into dec l want k t' rest"
      by (rule Suc.IH)
    show ?thesis
      using Frame rc m IH by (simp split: sum.splits verdict.splits)
  qed (use rc m in simp_all)
qed simp

lemma await_rest:
  "await_wire (ws_transport f sink) into dec l want n t ins = (r, t', rest) \<Longrightarrow>
     length rest \<le> length ins \<and> r \<noteq> Closed \<and> (length ins < n \<longrightarrow> r = Pending \<longrightarrow> rest = [])"
proof (induction n arbitrary: t ins)
  case (Suc n)
  obtain q t1 r1 where rc: "ws_recv t ins = (q, t1, r1)"
    by (cases "ws_recv t ins") auto
  show ?case
  proof (cases q)
    case (Frame b)
    then have "length r1 < length ins"
      using ws_recv_rest [OF rc] by auto
    show ?thesis
    proof (cases "\<exists>w. from_json dec b = Inr w \<and> await_verdict l want w = Skipped")
      case True
      then have "await_wire (ws_transport f sink) into dec l want n t1 r1 = (r, t', rest)"
        using Suc.prems rc Frame by auto
      from Suc.IH [OF this] \<open>length r1 < length ins\<close> show ?thesis by auto
    next
      case False
      then have "rest = r1 \<and> r \<noteq> Closed \<and> r \<noteq> Pending"
        using Suc.prems rc Frame by (auto split: sum.splits verdict.splits)
      with \<open>length r1 < length ins\<close> show ?thesis by simp
    qed
  qed (use rc Suc.prems ws_recv_rest [OF rc] in auto)
qed simp

lemma connect_fuel:
  assumes "length ins < n" and m: "length ins < m"
  shows "conn_connect (ws_transport utf8 sink) into enc dec n ws who name pass ins =
      conn_connect (ws_transport utf8 sink) into enc dec m ws who name pass ins \<and>
    (case conn_connect (ws_transport utf8 sink) into enc dec n ws who name pass ins of
       (r, _, rest) \<Rightarrow> length rest \<le> length ins \<and> r \<noteq> Closed \<and> (r = Pending \<longrightarrow> rest = []))"
proof -
  let ?T = "ws_transport utf8 sink"
  let ?await = "await_wire ?T into dec"
  note defs = conn_connect_def ws_send_def
  show ?thesis
  proof (cases "to_json enc (Auth who name pass)")
    case (Inr data)
    obtain u ws1 where sent: "sink ws (WsText (utf8 data)) = (u, ws1)" by fastforce
    show ?thesis
    proof (cases u)
      case (Inr v)
      obtain r ws2 ins2 where first: "?await ''Manifest'' want_manifest n ws1 ins = (r, ws2, ins2)"
        by (cases "?await ''Manifest'' want_manifest n ws1 ins") auto
      have firstm: "?await ''Manifest'' want_manifest m ws1 ins = (r, ws2, ins2)"
        by (rule trans [OF await_fuel [OF m assms(1)] first])
      note rest = await_rest [OF first]
      show ?thesis
      proof (cases r)
        case (Frame mf)
        obtain r' ws3 ins3 where second: "?await ''Snapshot'' want_snapshot n ws2 ins2 = (r', ws3, ins3)"
          by (cases "?await ''Snapshot'' want_snapshot n ws2 ins2") auto
        have le: "length ins2 < n" "length ins2 < m"
          using assms m rest by auto
        have secondm: "?await ''Snapshot'' want_snapshot m ws2 ins2 = (r', ws3, ins3)"
          by (rule trans [OF await_fuel [OF le(2,1)] second])
        show ?thesis
          using \<open>to_json enc (Auth who name pass) = Inr data\<close> sent Inr first firstm Frame second secondm
            rest await_rest [OF second] assms
          by (cases r') (auto simp: defs)
      qed (use \<open>to_json enc (Auth who name pass) = Inr data\<close> sent Inr first firstm rest assms in
          \<open>auto simp: defs\<close>)
    qed (use Inr sent in \<open>simp add: defs\<close>)
  qed (simp add: defs)
qed


text \<open>C17: the handshake over a web socket ends: with one call of \<open>recv\<close> more than there are messages
  on the stream, further calls change nothing, and it is undecided only when it has read
  everything that the server has sent so far; it never answers with an orderly end.\<close>

theorem client_handshake_terminates:
  assumes "length ins < n"
  shows "conn_connect (ws_transport utf8 sink) into enc dec n ws who name pass ins =
      conn_connect (ws_transport utf8 sink) into enc dec (Suc (length ins)) ws who name pass ins \<and>
    (case conn_connect (ws_transport utf8 sink) into enc dec n ws who name pass ins of
       (r, _, rest) \<Rightarrow> length rest \<le> length ins \<and> r \<noteq> Closed \<and> (r = Pending \<longrightarrow> rest = []))"
  by (rule connect_fuel [OF assms lessI])

text \<open>A server that has only greeted so far: undecided, everything read.\<close>

theorem client_handshake_terminates_witness:
  "conn_connect (ws_transport id (\<lambda>s m. (Inr (), Suc s))) (WebSocket :: unit \<Rightarrow> (unit, unit, unit) client_error)
     (\<lambda>_ :: nat client_wire. Inr [9]) demo_dec 100 0 (identity_local ''a'') None None [WsPing [], WsText [2]]
   = (Pending, 1, [])"
  by (subst conjunct1 [OF client_handshake_terminates]; code_simp)

end
