(* ===== verification/Protocol.thy ===== *)
theory Protocol
  imports Json_Api
begin

section \<open>The daemon's socket protocol\<close>

text \<open>
  \<^verbatim>\<open>crates/interconnect-daemon/src/protocol.rs\<close> and \<^verbatim>\<open>config.rs\<close>. Requests are tagged with
  \<^verbatim>\<open>cmd\<close>; responses are \<^verbatim>\<open>#[serde(untagged)]\<close>: the encoder writes the members of the variant,
  the decoder tries the variants in the order of their declaration and takes the first whose
  members are present with the right types, whatever other members the object has. Both
  directions are written over the operations of the JSON library; the daemon and the client
  only ever exchange objects.
\<close>

record 'j room_config =
  rc_name :: string
  rc_connector :: string
  rc_options :: 'j

record 'j config =
  cfg_room :: "'j room_config list"

definition config_default :: "'j config" where
  "config_default = \<lparr>cfg_room = []\<rparr>"

datatype ('io, 'p) config_error = ConfigIo string 'io | ConfigParse 'p

definition config_load ::
  "(string \<Rightarrow> 'io + string) \<Rightarrow> (string \<Rightarrow> 'p + 'j config) \<Rightarrow> string \<Rightarrow> ('io, 'p) config_error + 'j config" where
  "config_load read_file parse_toml path =
     (case read_file path of
        Inl e \<Rightarrow> Inl (ConfigIo path e)
      | Inr text \<Rightarrow> (case parse_toml text of Inl e \<Rightarrow> Inl (ConfigParse e) | Inr c \<Rightarrow> Inr c))"

datatype 'j request =
    ReqRecv string bool
  | ReqSend string 'j
  | ReqState string
  | ReqList

datatype 'j response =
    RespMessages bool "'j list"
  | RespSent bool
  | RespState bool 'j
  | RespRooms bool "string list"
  | RespError bool string

definition response_error :: "string \<Rightarrow> 'j response" where
  "response_error msg = RespError False msg"

definition response_messages :: "'j list \<Rightarrow> 'j response" where
  "response_messages msgs = RespMessages True msgs"

definition response_sent :: "'j response" where
  "response_sent = RespSent True"

definition response_state :: "'j \<Rightarrow> 'j response" where
  "response_state snapshot = RespState True snapshot"

definition response_rooms :: "string list \<Rightarrow> 'j response" where
  "response_rooms names = RespRooms True names"

lemmas response_defs =
  response_error_def response_messages_def response_sent_def response_state_def response_rooms_def

subsection \<open>Requests\<close>

fun request_encode :: "'j json_ops \<Rightarrow> 'j request \<Rightarrow> 'j" where
  "request_encode J (ReqRecv room block) =
     j_obj J [(''cmd'', j_str J ''recv''), (''room'', j_str J room), (''block'', j_bool J block)]"
| "request_encode J (ReqSend room payload) =
     j_obj J [(''cmd'', j_str J ''send''), (''room'', j_str J room), (''payload'', payload)]"
| "request_encode J (ReqState room) = j_obj J [(''cmd'', j_str J ''state''), (''room'', j_str J room)]"
| "request_encode J ReqList = j_obj J [(''cmd'', j_str J ''list'')]"

definition field_str :: "'j json_ops \<Rightarrow> 'j \<Rightarrow> string \<Rightarrow> string option" where
  "field_str J v k = Option.bind (j_get J v k) (j_as_str J)"

definition field_bool :: "'j json_ops \<Rightarrow> 'j \<Rightarrow> string \<Rightarrow> bool option" where
  "field_bool J v k = Option.bind (j_get J v k) (j_as_bool J)"

text \<open>\<^verbatim>\<open>block\<close> has \<^verbatim>\<open>#[serde(default)]\<close>: absent means false, present must be a Boolean.\<close>

definition request_decode :: "'j json_ops \<Rightarrow> 'j \<Rightarrow> 'j request option" where
  "request_decode J v =
     (case field_str J v ''cmd'' of
        None \<Rightarrow> None
      | Some cmd \<Rightarrow>
          if cmd = ''recv'' then
            (case (field_str J v ''room'', j_get J v ''block'') of
               (Some room, None) \<Rightarrow> Some (ReqRecv room False)
             | (Some room, Some b) \<Rightarrow> map_option (ReqRecv room) (j_as_bool J b)
             | (None, _) \<Rightarrow> None)
          else if cmd = ''send'' then
            (case (field_str J v ''room'', j_get J v ''payload'') of
               (Some room, Some payload) \<Rightarrow> Some (ReqSend room payload)
             | _ \<Rightarrow> None)
          else if cmd = ''state'' then map_option ReqState (field_str J v ''room'')
          else if cmd = ''list'' then Some ReqList
          else None)"

subsection \<open>Responses\<close>

fun response_fields :: "'j json_ops \<Rightarrow> 'j response \<Rightarrow> (string \<times> 'j) list" where
  "response_fields J (RespMessages ok msgs) = [(''ok'', j_bool J ok), (''messages'', j_arr J msgs)]"
| "response_fields J (RespSent ok) = [(''ok'', j_bool J ok)]"
| "response_fields J (RespState ok snapshot) = [(''ok'', j_bool J ok), (''snapshot'', snapshot)]"
| "response_fields J (RespRooms ok rooms) =
     [(''ok'', j_bool J ok), (''rooms'', j_arr J (map (j_str J) rooms))]"
| "response_fields J (RespError ok err) = [(''ok'', j_bool J ok), (''error'', j_str J err)]"

definition response_encode :: "'j json_ops \<Rightarrow> 'j response \<Rightarrow> 'j" where
  "response_encode J r = j_obj J (response_fields J r)"

fun strings_of :: "'j json_ops \<Rightarrow> 'j list \<Rightarrow> string list option" where
  "strings_of J [] = Some []"
| "strings_of J (v # vs) =
     (case (j_as_str J v, strings_of J vs) of
        (Some s, Some ss) \<Rightarrow> Some (s # ss)
      | _ \<Rightarrow> None)"

text \<open>One decoder per variant; \<^verbatim>\<open>untagged\<close> takes the first that answers.\<close>

definition try_messages :: "'j json_ops \<Rightarrow> 'j \<Rightarrow> 'j response option" where
  "try_messages J v =
     (case (field_bool J v ''ok'', Option.bind (j_get J v ''messages'') (j_as_array J)) of
        (Some ok, Some ms) \<Rightarrow> Some (RespMessages ok ms)
      | _ \<Rightarrow> None)"

definition try_sent :: "'j json_ops \<Rightarrow> 'j \<Rightarrow> 'j response option" where
  "try_sent J v = map_option RespSent (field_bool J v ''ok'')"

definition try_state :: "'j json_ops \<Rightarrow> 'j \<Rightarrow> 'j response option" where
  "try_state J v =
     (case (field_bool J v ''ok'', j_get J v ''snapshot'') of
        (Some ok, Some s) \<Rightarrow> Some (RespState ok s)
      | _ \<Rightarrow> None)"

definition try_rooms :: "'j json_ops \<Rightarrow> 'j \<Rightarrow> 'j response option" where
  "try_rooms J v =
     (case (field_bool J v ''ok'', Option.bind (Option.bind (j_get J v ''rooms'') (j_as_array J)) (strings_of J)) of
        (Some ok, Some rs) \<Rightarrow> Some (RespRooms ok rs)
      | _ \<Rightarrow> None)"

definition try_error :: "'j json_ops \<Rightarrow> 'j \<Rightarrow> 'j response option" where
  "try_error J v =
     (case (field_bool J v ''ok'', field_str J v ''error'') of
        (Some ok, Some e) \<Rightarrow> Some (RespError ok e)
      | _ \<Rightarrow> None)"

fun first_of :: "('j \<Rightarrow> 'r option) list \<Rightarrow> 'j \<Rightarrow> 'r option" where
  "first_of [] v = None"
| "first_of (d # ds) v = (case d v of Some r \<Rightarrow> Some r | None \<Rightarrow> first_of ds v)"

definition response_decode :: "'j json_ops \<Rightarrow> 'j \<Rightarrow> 'j response option" where
  "response_decode J =
     first_of [try_messages J, try_sent J, try_state J, try_rooms J, try_error J]"

fun response_ok :: "'j response \<Rightarrow> bool" where
  "response_ok (RespMessages ok _) = ok"
| "response_ok (RespSent ok) = ok"
| "response_ok (RespState ok _) = ok"
| "response_ok (RespRooms ok _) = ok"
| "response_ok (RespError ok _) = ok"

lemmas protocol_decode_defs =
  request_decode_def field_str_def field_bool_def response_decode_def try_messages_def try_sent_def

context json_value
begin

lemma decode_encode_request: "request_decode J (request_encode J r) = Some r"
  by (cases r) (simp_all add: protocol_decode_defs value_simps)

lemma decode_encode_response:
  "response_decode J (response_encode J r) =
     Some (case r of RespMessages ok ms \<Rightarrow> RespMessages ok ms | _ \<Rightarrow> RespSent (response_ok r))"
  by (cases r) (simp_all add: protocol_decode_defs response_encode_def value_simps)

end

text \<open>Every request of the command line client is decoded by the daemon as it was sent.\<close>

lemma request_roundtrip:
  assumes "json_value J"
  shows "request_decode J (request_encode J r) = Some r"
  by (rule json_value.decode_encode_request [OF assms])

lemma request_roundtrip_witness:
  "request_decode value_json (request_encode value_json (ReqRecv ''ops'' True)) = Some (ReqRecv ''ops'' True)"
  by (rule request_roundtrip [OF value_json_laws])

text \<open>C9: of the five responses only the message list and the plain acknowledgement survive the
  trip to the client. The untagged decoder tries \<open>Sent\<close>, which needs the \<^verbatim>\<open>ok\<close> member alone,
  before \<open>State\<close>, \<open>Rooms\<close> and \<open>Error\<close>: each of those arrives as \<open>Sent\<close>, so the snapshot, the
  room names and the error text are lost.\<close>

theorem response_untagged_loss:
  assumes "json_value J"
  shows "(response_decode J (response_encode J r) = Some r \<longleftrightarrow>
      (case r of RespMessages _ _ \<Rightarrow> True | RespSent _ \<Rightarrow> True | _ \<Rightarrow> False)) \<and>
    response_decode J (response_encode J (response_state s)) = Some response_sent \<and>
    response_decode J (response_encode J (response_rooms names)) = Some response_sent \<and>
    response_decode J (response_encode J (response_error e)) = Some (RespSent False)"
  by (cases r) (simp_all add: json_value.decode_encode_response [OF assms] response_defs)

theorem response_untagged_loss_witness:
  "response_decode value_json (response_encode value_json (response_error ''room not found: x''))
     = Some (RespSent False)"
  using response_untagged_loss [OF value_json_laws] by blast

end
