(* ===== verification/Daemon.thy ===== *)
theory Daemon
  imports Protocol
begin

section \<open>The daemon\<close>

text \<open>
  \<^verbatim>\<open>crates/interconnect-daemon/src/daemon.rs\<close>: the per-room state with its read cursor, the
  table of rooms behind one mutex, the request dispatcher, and the connections and connector
  tasks that run concurrently over it. One critical section of the mutex is one step;
  everything that a task does outside the mutex (taking a waiter from \<^verbatim>\<open>Notify\<close>, in
  particular) is a step of its own, so the interleavings of the program are the traces of
  \<open>daemon_step\<close>. tokio's \<^verbatim>\<open>Notify\<close> and the sending half of its channel are parameters.
\<close>

subsection \<open>What the daemon uses of tokio\<close>

text \<open>\<open>n_notified\<close> creates a waiter and \<open>n_ready\<close> says whether it has been woken. The documented
  behaviour of \<^verbatim>\<open>notify_waiters\<close>: it wakes exactly the waiters that exist when it is called,
  and stores nothing for later ones.\<close>

record ('n, 'k) notify_ops =
  n_new :: 'n
  n_notify_waiters :: "'n \<Rightarrow> 'n"
  n_notified :: "'n \<Rightarrow> 'k"
  n_ready :: "'n \<Rightarrow> 'k \<Rightarrow> bool"

locale tokio_notify =
  fixes N :: "('n, 'k) notify_ops"
  assumes ready_iff: "n_ready N ((n_notify_waiters N ^^ i) n) (n_notified N n) \<longleftrightarrow> 0 < i"
begin

lemma not_ready_when_created: "\<not> n_ready N n (n_notified N n)"
  using ready_iff [of 0 n] by simp

lemma ready_after_notify: "n_ready N (n_notify_waiters N n) (n_notified N n)"
  using ready_iff [of 1 n] by simp

end

text \<open>An implementation: a counter of the calls, as in tokio's own state word.\<close>

definition count_notify :: "(nat, nat) notify_ops" where
  "count_notify = \<lparr>n_new = 0, n_notify_waiters = Suc, n_notified = (\<lambda>n. n), n_ready = (\<lambda>n k. k < n)\<rparr>"

interpretation cn: tokio_notify count_notify
  by unfold_locales (simp add: count_notify_def Suc_funpow)

record ('j, 'n, 'k, 'h) daemon_env =
  de_json :: "'j json_ops"
  de_notify :: "('n, 'k) notify_ops"
  de_tx_send :: "'h \<Rightarrow> 'j \<Rightarrow> 'h"

subsection \<open>The state of a room\<close>

record ('j, 'n, 'h) room_state =
  rs_config :: "'j room_config"
  rs_messages :: "'j list"
  rs_cursor :: nat
  rs_notify :: 'n
  rs_handle :: "'h option"

definition room_state_new :: "('j, 'n, 'k, 'h) daemon_env \<Rightarrow> 'j room_config \<Rightarrow> ('j, 'n, 'h) room_state" where
  "room_state_new E cfg =
     \<lparr>rs_config = cfg, rs_messages = [], rs_cursor = 0, rs_notify = n_new (de_notify E), rs_handle = None\<rparr>"

definition room_push ::
  "('j, 'n, 'k, 'h) daemon_env \<Rightarrow> ('j, 'n, 'h) room_state \<Rightarrow> 'j \<Rightarrow> ('j, 'n, 'h) room_state" where
  "room_push E s msg =
     s\<lparr>rs_messages := rs_messages s @ [msg], rs_notify := n_notify_waiters (de_notify E) (rs_notify s)\<rparr>"

text \<open>The slice panics when the cursor is beyond the end; \<open>room_ok\<close> excludes it.\<close>

definition drain_pending :: "('j, 'n, 'h) room_state \<Rightarrow> ('j list \<times> ('j, 'n, 'h) room_state) outcome" where
  "drain_pending s =
     (if rs_cursor s \<le> length (rs_messages s)
      then Done (drop (rs_cursor s) (rs_messages s), s\<lparr>rs_cursor := length (rs_messages s)\<rparr>)
      else Panic)"

definition room_snapshot :: "('j, 'n, 'k, 'h) daemon_env \<Rightarrow> ('j, 'n, 'h) room_state \<Rightarrow> 'j" where
  "room_snapshot E s =
     (let J = de_json E in
      j_obj J
        [(''room'', j_str J (rc_name (rs_config s))),
         (''connector'', j_str J (rc_connector (rs_config s))),
         (''message_count'', j_int J (int (length (rs_messages s)))),
         (''cursor'', j_int J (int (rs_cursor s))),
         (''last_message'', (if rs_messages s = [] then j_null J else last (rs_messages s)))])"

definition room_ok :: "('j, 'n, 'h) room_state \<Rightarrow> bool" where
  "room_ok s \<longleftrightarrow> rs_cursor s \<le> length (rs_messages s)"

definition pending :: "('j, 'n, 'h) room_state \<Rightarrow> 'j list" where
  "pending s = drop (rs_cursor s) (rs_messages s)"

lemma room_ok_new [simp]: "room_ok (room_state_new E cfg)"
  by (simp add: room_ok_def room_state_new_def)

lemma room_ok_push [simp]: "room_ok s \<Longrightarrow> room_ok (room_push E s m)"
  by (simp add: room_ok_def room_push_def)

lemma drain_ok: "room_ok s \<Longrightarrow> drain_pending s = Done (pending s, s\<lparr>rs_cursor := length (rs_messages s)\<rparr>)"
  by (simp add: drain_pending_def room_ok_def pending_def)

text \<open>C5: a room is a queue: seen through its pending messages, pushing is enqueueing at the back,
  draining answers everything in order and leaves nothing, and with the cursor in bounds, as
  it is in a new room and after every push and drain, draining does not panic.\<close>

theorem room_refines_queue:
  "pending (room_state_new E cfg) = [] \<and> room_ok (room_state_new E cfg) \<and>
   (room_ok s \<longrightarrow>
      pending (room_push E s m) = pending s @ [m] \<and> room_ok (room_push E s m) \<and>
      (\<exists>s'. drain_pending s = Done (pending s, s') \<and> pending s' = [] \<and> room_ok s' \<and>
            rs_messages s' = rs_messages s))"
  by (simp add: drain_ok) (simp add: pending_def room_state_new_def room_push_def room_ok_def)

theorem room_refines_queue_witness:
  "\<exists>s'. drain_pending (room_push \<lparr>de_json = value_json, de_notify = count_notify, de_tx_send = (\<lambda>h p. h @ [p])\<rparr>
        \<lparr>rs_config = \<lparr>rc_name = ''r'', rc_connector = ''irc'', rc_options = JNull\<rparr>, rs_messages = [JInt 1],
         rs_cursor = 1, rs_notify = 0, rs_handle = None\<rparr> (JInt 2)) = Done ([JInt 2], s')"
proof -
  let ?s = "\<lparr>rs_config = \<lparr>rc_name = ''r'', rc_connector = ''irc'', rc_options = JNull\<rparr>, rs_messages = [JInt 1],
         rs_cursor = 1, rs_notify = 0 :: nat, rs_handle = None :: json list option\<rparr>"
  let ?E = "\<lparr>de_json = value_json, de_notify = count_notify, de_tx_send = (\<lambda>h p. h @ [p])\<rparr>"
  have p: "pending (room_push ?E ?s (JInt 2)) = [JInt 2]"
    by (simp add: pending_def room_push_def)
  have "room_ok (room_push ?E ?s (JInt 2))"
    by (simp add: room_ok_def room_push_def)
  then obtain s' where "drain_pending (room_push ?E ?s (JInt 2)) = Done (pending (room_push ?E ?s (JInt 2)), s')"
    using room_refines_queue [where E = ?E and s = "room_push ?E ?s (JInt 2)"] by blast
  then show ?thesis unfolding p by blast
qed

subsection \<open>The table of rooms\<close>

type_synonym ('j, 'n, 'h) rooms = "(string \<times> ('j, 'n, 'h) room_state) list"

definition daemon_new :: "('j, 'n, 'k, 'h) daemon_env \<Rightarrow> 'j config \<Rightarrow> ('j, 'n, 'h) rooms" where
  "daemon_new E cfg =
     fold (\<lambda>rc m. AList.update (rc_name rc) (room_state_new E rc) m) (cfg_room cfg) []"

text \<open>Storing the handle of a connector that was spawned, and the body of the task that moves a
  connector's snapshots into the room.\<close>

definition store_handle :: "string \<Rightarrow> 'h \<Rightarrow> ('j, 'n, 'h) rooms \<Rightarrow> ('j, 'n, 'h) rooms" where
  "store_handle name h = map_modify name (\<lambda>s. s\<lparr>rs_handle := Some h\<rparr>)"

definition forward_push ::
  "('j, 'n, 'k, 'h) daemon_env \<Rightarrow> string \<Rightarrow> 'j \<Rightarrow> ('j, 'n, 'h) rooms \<Rightarrow> ('j, 'n, 'h) rooms option" where
  "forward_push E name msg rooms =
     (case map_of rooms name of
        Some s \<Rightarrow> Some (AList.update name (room_push E s msg) rooms)
      | None \<Rightarrow> None)"

lemma map_inv_daemon_new [simp]: "map_inv (daemon_new E cfg)"
proof -
  have "map_inv m \<Longrightarrow> map_inv (fold (\<lambda>rc m. AList.update (rc_name rc) (room_state_new E rc) m) rcs m)" for rcs m
    by (induction rcs arbitrary: m) simp_all
  then show ?thesis by (simp add: daemon_new_def)
qed

lemma daemon_new_lookup:
  "map_of (daemon_new E cfg) name =
     map_option (room_state_new E) (find (\<lambda>rc. rc_name rc = name) (rev (cfg_room cfg)))"
proof -
  have "map_of (fold (\<lambda>rc m. AList.update (rc_name rc) (room_state_new E rc) m) rcs m) name =
      (case find (\<lambda>rc. rc_name rc = name) (rev rcs) of
         None \<Rightarrow> map_of m name | Some rc \<Rightarrow> Some (room_state_new E rc))" for rcs m
    by (induction rcs arbitrary: m rule: rev_induct) (auto split: option.splits)
  then show ?thesis by (simp add: daemon_new_def split: option.splits)
qed

subsection \<open>Dispatching a request\<close>

definition room_not_found :: "string \<Rightarrow> string" where
  "room_not_found room = ''room not found: '' @ room"

definition no_connector :: "string \<Rightarrow> string" where
  "no_connector room = ''room '' @ [CHR 0x27] @ room @ [CHR 0x27] @ '' has no active connector''"

text \<open>What the first critical section of \<^verbatim>\<open>dispatch\<close> does: it answers, or, for a blocking receive
  on a room with nothing pending, leaves the task to wait.\<close>

datatype 'j dispatched = Reply "'j response" | MustWait string

fun dispatch ::
  "('j, 'n, 'k, 'h) daemon_env \<Rightarrow> 'j request \<Rightarrow> ('j, 'n, 'h) rooms
    \<Rightarrow> ('j dispatched \<times> ('j, 'n, 'h) rooms) outcome" where
  "dispatch E ReqList rooms = Done (Reply (response_rooms (map fst rooms)), rooms)"
| "dispatch E (ReqState room) rooms =
     (case map_of rooms room of
        None \<Rightarrow> Done (Reply (response_error (room_not_found room)), rooms)
      | Some s \<Rightarrow> Done (Reply (response_state (room_snapshot E s)), rooms))"
| "dispatch E (ReqSend room payload) rooms =
     (case map_of rooms room of
        None \<Rightarrow> Done (Reply (response_error (room_not_found room)), rooms)
      | Some s \<Rightarrow>
          (case rs_handle s of
             Some h \<Rightarrow>
               Done (Reply response_sent, AList.update room (s\<lparr>rs_handle := Some (de_tx_send E h payload)\<rparr>) rooms)
           | None \<Rightarrow> Done (Reply (response_error (no_connector room)), rooms)))"
| "dispatch E (ReqRecv room block) rooms =
     (case map_of rooms room of
        None \<Rightarrow> Done (Reply (response_error (room_not_found room)), rooms)
      | Some s \<Rightarrow>
          bind_outcome (drain_pending s) (\<lambda>(msgs, s').
            Done (if \<not> block \<or> msgs \<noteq> [] then Reply (response_messages msgs) else MustWait room,
                  AList.update room s' rooms)))"

text \<open>The body of the waiting loop once the waiter has been woken.\<close>

definition dispatch_woken ::
  "string \<Rightarrow> ('j, 'n, 'h) rooms \<Rightarrow> ('j dispatched \<times> ('j, 'n, 'h) rooms) outcome" where
  "dispatch_woken room rooms =
     (case map_of rooms room of
        None \<Rightarrow> Done (Reply (response_error (room_not_found room)), rooms)
      | Some s \<Rightarrow>
          bind_outcome (drain_pending s) (\<lambda>(msgs, s').
            Done (if msgs \<noteq> [] then Reply (response_messages msgs) else MustWait room,
                  AList.update room s' rooms)))"

text \<open>One line of a connection: blank lines are skipped, a line that is no request is answered
  with an error; the JSON parser and printer are parameters.\<close>

datatype 'j line_action = SkipLine | BadRequest "'j response" | GoodRequest "'j request"

definition connection_line ::
  "('j, 'n, 'k, 'h) daemon_env \<Rightarrow> (string \<Rightarrow> string + 'j request) \<Rightarrow> string \<Rightarrow> 'j line_action" where
  "connection_line E from_str line =
     (let l = trim line in
      if l = [] then SkipLine
      else (case from_str l of
              Inl e \<Rightarrow> BadRequest (response_error (''invalid request: '' @ e))
            | Inr req \<Rightarrow> GoodRequest req))"

definition response_line :: "('j, 'n, 'k, 'h) daemon_env \<Rightarrow> 'j response \<Rightarrow> string" where
  "response_line E r = j_text (de_json E) (response_encode (de_json E) r) @ [CHR 0x0A]"

fun request_room :: "'j request \<Rightarrow> string option" where
  "request_room (ReqRecv room _) = Some room"
| "request_room (ReqSend room _) = Some room"
| "request_room (ReqState room) = Some room"
| "request_room ReqList = None"

definition rooms_ok :: "('j, 'n, 'h) rooms \<Rightarrow> bool" where
  "rooms_ok rooms \<longleftrightarrow> (\<forall>name r. map_of rooms name = Some r \<longrightarrow> room_ok r)"

text \<open>C7: with the cursors in bounds the dispatcher never panics and keeps them in bounds; it
  changes no room but the one the request names, and of that room neither the messages nor the
  configuration; it leaves the request waiting only for a blocking receive on a room without
  pending messages; and it answers with an error exactly for a room that is not there, or one
  without a connector for a send.\<close>

theorem dispatch_correct:
  assumes "rooms_ok rooms"
  shows "\<exists>d rooms'. dispatch E req rooms = Done (d, rooms') \<and> rooms_ok rooms' \<and>
    (\<forall>name. request_room req \<noteq> Some name \<longrightarrow> map_of rooms' name = map_of rooms name) \<and>
    (\<forall>name. map_option (\<lambda>r. (rs_messages r, rs_config r)) (map_of rooms' name) =
            map_option (\<lambda>r. (rs_messages r, rs_config r)) (map_of rooms name)) \<and>
    (\<forall>room. d = MustWait room \<longleftrightarrow>
       req = ReqRecv room True \<and> (\<exists>r. map_of rooms room = Some r \<and> pending r = [])) \<and>
    ((\<exists>e. d = Reply (RespError False e)) \<longleftrightarrow>
       (\<exists>room. request_room req = Some room \<and> map_of rooms room = None) \<or>
       (\<exists>room p r. req = ReqSend room p \<and> map_of rooms room = Some r \<and> rs_handle r = None))"
proof (cases req)
  case (ReqRecv room b)
  then show ?thesis
  proof (cases "map_of rooms room")
    case None
    with ReqRecv assms show ?thesis by (simp add: response_defs)
  next
    case (Some r)
    with assms have "room_ok r" by (simp add: rooms_ok_def)
    with Some ReqRecv assms show ?thesis
      by (auto simp: drain_ok rooms_ok_def response_defs pending_def room_ok_def split: if_splits)
  qed
next
  case (ReqSend room p)
  with assms show ?thesis
    by (cases "map_of rooms room") (auto simp: rooms_ok_def response_defs room_ok_def split: option.splits)
qed (use assms in \<open>auto simp: rooms_ok_def response_defs split: option.splits\<close>)

theorem dispatch_correct_witness:
  "\<exists>d rooms'. dispatch \<lparr>de_json = value_json, de_notify = count_notify, de_tx_send = (\<lambda>h p. h @ [p])\<rparr>
      (ReqSend ''ops'' JNull) [(''dev'', room_state_new \<lparr>de_json = value_json, de_notify = count_notify, de_tx_send = (\<lambda>h p. h @ [p])\<rparr>
         \<lparr>rc_name = ''dev'', rc_connector = ''irc'', rc_options = JNull\<rparr>)] = Done (d, rooms') \<and>
     (\<exists>e. d = Reply (RespError False e))"
proof -
  let ?E = "\<lparr>de_json = value_json, de_notify = count_notify, de_tx_send = (\<lambda>h p. h @ [p])\<rparr>"
  let ?rooms = "[(''dev'', room_state_new ?E \<lparr>rc_name = ''dev'', rc_connector = ''irc'', rc_options = JNull\<rparr>)]"
  have "rooms_ok ?rooms" by (auto simp: rooms_ok_def)
  from dispatch_correct [OF this, of ?E "ReqSend ''ops'' JNull"] obtain d rooms' where
    "dispatch ?E (ReqSend ''ops'' JNull) ?rooms = Done (d, rooms')"
    "(\<exists>e. d = Reply (RespError False e)) \<longleftrightarrow>
       (\<exists>room. request_room (ReqSend ''ops'' JNull) = Some room \<and> map_of ?rooms room = None) \<or>
       (\<exists>room p r. ReqSend ''ops'' JNull = ReqSend room p \<and> map_of ?rooms room = Some r \<and> rs_handle r = None)"
    by blast
  moreover have "request_room (ReqSend ''ops'' JNull) = Some ''ops''" "map_of ?rooms ''ops'' = None"
    by simp_all
  ultimately show ?thesis by blast
qed

end
