(* ===== verification/Room.thy ===== *)
theory Room
  imports Client Daemon
begin

section \<open>Rooms: spawning a connector and running its task\<close>

text \<open>
  \<^verbatim>\<open>crates/interconnect-daemon/src/room.rs\<close>: the choice of a connector by name, the options
  each of them needs, and the task that moves snapshots out of a connection and intents into
  it. The thirteen spawn functions are the same but for their options and the connector they
  call; the connector is the argument \<open>connect\<close>. The decoder's error value is not kept in
  \<open>BadOptions\<close>.
\<close>

datatype room_error =
    UnknownConnector string
  | BadOptions string string
  | ConnectError string

subsection \<open>Options and spawning\<close>

definition field_uint :: "'j json_ops \<Rightarrow> nat \<Rightarrow> 'j \<Rightarrow> string \<Rightarrow> nat option" where
  "field_uint J bound v k =
     Option.bind (Option.bind (j_get J v k) (j_as_u64 J)) (\<lambda>n. if n < bound then Some n else None)"

definition field_int :: "'j json_ops \<Rightarrow> 'j \<Rightarrow> string \<Rightarrow> int option" where
  "field_int J v k = Option.bind (j_get J v k) (j_as_i64 J)"

text \<open>The entry points of the connectors, with the first snapshot as a JSON value when it could be
  converted; \<open>chat_config\<close> decodes a chat log configuration.\<close>

record ('k, 'j, 'c) connectors =
  connect_slack :: "string \<Rightarrow> string \<Rightarrow> string \<Rightarrow> string + 'k \<times> 'j option"
  connect_discord :: "string \<Rightarrow> nat \<Rightarrow> string + 'k \<times> 'j option"
  connect_sqlite_generic :: "string \<Rightarrow> string \<Rightarrow> string + 'k \<times> 'j option"
  connect_sqlite_chat :: "string \<Rightarrow> 'c \<Rightarrow> string + 'k \<times> 'j option"
  connect_telegram :: "string \<Rightarrow> int \<Rightarrow> string + 'k \<times> 'j option"
  connect_matrix :: "string \<Rightarrow> string \<Rightarrow> string \<Rightarrow> string + 'k \<times> 'j option"
  connect_irc :: "string \<Rightarrow> nat \<Rightarrow> string \<Rightarrow> string \<Rightarrow> string + 'k \<times> 'j option"
  connect_zulip :: "string \<Rightarrow> string \<Rightarrow> string \<Rightarrow> string \<Rightarrow> string \<Rightarrow> string + 'k \<times> 'j option"
  connect_maillist :: "string \<Rightarrow> string \<Rightarrow> string \<Rightarrow> nat \<Rightarrow> string + 'k \<times> 'j option"
  connect_signal :: "string \<Rightarrow> string \<Rightarrow> string \<Rightarrow> string + 'k \<times> 'j option"
  connect_github :: "string \<Rightarrow> string \<Rightarrow> string \<Rightarrow> nat \<Rightarrow> string + 'k \<times> 'j option"
  connect_whatsapp :: "string \<Rightarrow> string \<Rightarrow> string \<Rightarrow> string + 'k \<times> 'j option"
  connect_fs :: "string \<Rightarrow> string + 'k \<times> 'j option"
  chat_config :: "'j \<Rightarrow> 'c option"
  chat_default :: 'c

text \<open>What every spawn function does with the outcome of its connector: the error becomes a
  \<open>ConnectError\<close>, else the first snapshot is pushed (null when it has no JSON form).\<close>

definition start_room :: "'j json_ops \<Rightarrow> (string + 'k \<times> 'j option) \<Rightarrow> (room_error + 'k \<times> 'j) outcome" where
  "start_room J r =
     (case r of
        Inl e \<Rightarrow> Done (Inl (ConnectError e))
      | Inr (conn, snapshot) \<Rightarrow> Done (Inr (conn, (case snapshot of None \<Rightarrow> j_null J | Some v \<Rightarrow> v))))"

definition bad_options :: "'j room_config \<Rightarrow> string \<Rightarrow> (room_error + 'r) outcome" where
  "bad_options cfg option_name = Done (Inl (BadOptions (rc_connector cfg) option_name))"

definition spawn_slack ::
  "'j json_ops \<Rightarrow> ('k, 'j, 'c) connectors \<Rightarrow> 'j room_config \<Rightarrow> (room_error + 'k \<times> 'j) outcome" where
  "spawn_slack J K cfg =
     (case (field_str J (rc_options cfg) ''bot_token'',
        field_str J (rc_options cfg) ''app_token'',
        field_str J (rc_options cfg) ''channel_id'') of
        (Some bot_token, Some app_token, Some channel_id) \<Rightarrow>
          start_room J (connect_slack K bot_token app_token channel_id)
      | _ \<Rightarrow> bad_options cfg [])"

text \<open>Building the channel id of Discord from zero panics, as its documentation says.\<close>

definition spawn_discord ::
  "'j json_ops \<Rightarrow> ('k, 'j, 'c) connectors \<Rightarrow> 'j room_config \<Rightarrow> (room_error + 'k \<times> 'j) outcome" where
  "spawn_discord J K cfg =
     (case (field_str J (rc_options cfg) ''token'', field_uint J (2 ^ 64) (rc_options cfg) ''channel_id'') of
        (Some token, Some channel_id) \<Rightarrow>
          if channel_id = 0 then Panic else start_room J (connect_discord K token channel_id)
      | _ \<Rightarrow> bad_options cfg [])"

definition spawn_sqlite_generic ::
  "'j json_ops \<Rightarrow> ('k, 'j, 'c) connectors \<Rightarrow> 'j room_config \<Rightarrow> (room_error + 'k \<times> 'j) outcome" where
  "spawn_sqlite_generic J K cfg =
     (case (field_str J (rc_options cfg) ''path'',
        field_str J (rc_options cfg) ''table'') of
        (Some path, Some table) \<Rightarrow>
          start_room J (connect_sqlite_generic K path table)
      | _ \<Rightarrow> bad_options cfg [])"

text \<open>The chat log is configured when it names its columns; a chat log table without them, or a
  missing one, gives the default configuration.\<close>

definition spawn_sqlite_chat ::
  "'j json_ops \<Rightarrow> ('k, 'j, 'c) connectors \<Rightarrow> 'j room_config \<Rightarrow> (room_error + 'k \<times> 'j) outcome" where
  "spawn_sqlite_chat J K cfg =
     (case field_str J (rc_options cfg) ''path'' of
        None \<Rightarrow> bad_options cfg []
      | Some path \<Rightarrow>
          (let log = (case j_get J (rc_options cfg) ''chat_log'' of None \<Rightarrow> j_obj J [] | Some v \<Rightarrow> v) in
           case j_get J log ''columns'' of
             None \<Rightarrow> start_room J (connect_sqlite_chat K path (chat_default K))
           | Some _ \<Rightarrow>
               (case chat_config K log of
                  None \<Rightarrow> bad_options cfg ''chat_log''
                | Some c \<Rightarrow> start_room J (connect_sqlite_chat K path c))))"

definition spawn_sqlite ::
  "'j json_ops \<Rightarrow> ('k, 'j, 'c) connectors \<Rightarrow> 'j room_config \<Rightarrow> (room_error + 'k \<times> 'j) outcome" where
  "spawn_sqlite J K cfg =
     (if j_get J (rc_options cfg) ''chat_log'' \<noteq> None then spawn_sqlite_chat J K cfg
      else spawn_sqlite_generic J K cfg)"

definition spawn_telegram ::
  "'j json_ops \<Rightarrow> ('k, 'j, 'c) connectors \<Rightarrow> 'j room_config \<Rightarrow> (room_error + 'k \<times> 'j) outcome" where
  "spawn_telegram J K cfg =
     (case (field_str J (rc_options cfg) ''bot_token'',
        field_int J (rc_options cfg) ''chat_id'') of
        (Some bot_token, Some chat_id) \<Rightarrow>
          start_room J (connect_telegram K bot_token chat_id)
      | _ \<Rightarrow> bad_options cfg [])"

definition spawn_matrix ::
  "'j json_ops \<Rightarrow> ('k, 'j, 'c) connectors \<Rightarrow> 'j room_config \<Rightarrow> (room_error + 'k \<times> 'j) outcome" where
  "spawn_matrix J K cfg =
     (case (field_str J (rc_options cfg) ''homeserver'',
        field_str J (rc_options cfg) ''access_token'',
        field_str J (rc_options cfg) ''room_id'') of
        (Some homeserver, Some access_token, Some room_id) \<Rightarrow>
          start_room J (connect_matrix K homeserver access_token room_id)
      | _ \<Rightarrow> bad_options cfg [])"

definition spawn_irc ::
  "'j json_ops \<Rightarrow> ('k, 'j, 'c) connectors \<Rightarrow> 'j room_config \<Rightarrow> (room_error + 'k \<times> 'j) outcome" where
  "spawn_irc J K cfg =
     (case (field_str J (rc_options cfg) ''server'',
        field_uint J (2 ^ 16) (rc_options cfg) ''port'',
        field_str J (rc_options cfg) ''nick'',
        field_str J (rc_options cfg) ''channel'') of
        (Some server, Some port, Some nick, Some channel) \<Rightarrow>
          start_room J (connect_irc K server port nick channel)
      | _ \<Rightarrow> bad_options cfg [])"

definition spawn_zulip ::
  "'j json_ops \<Rightarrow> ('k, 'j, 'c) connectors \<Rightarrow> 'j room_config \<Rightarrow> (room_error + 'k \<times> 'j) outcome" where
  "spawn_zulip J K cfg =
     (case (field_str J (rc_options cfg) ''realm'',
        field_str J (rc_options cfg) ''email'',
        field_str J (rc_options cfg) ''api_key'',
        field_str J (rc_options cfg) ''stream'',
        field_str J (rc_options cfg) ''topic'') of
        (Some realm, Some email, Some api_key, Some stream, Some topic) \<Rightarrow>
          start_room J (connect_zulip K realm email api_key stream topic)
      | _ \<Rightarrow> bad_options cfg [])"

definition spawn_maillist ::
  "'j json_ops \<Rightarrow> ('k, 'j, 'c) connectors \<Rightarrow> 'j room_config \<Rightarrow> (room_error + 'k \<times> 'j) outcome" where
  "spawn_maillist J K cfg =
     (case (field_str J (rc_options cfg) ''base_url'',
        field_str J (rc_options cfg) ''username'',
        field_str J (rc_options cfg) ''password'',
        field_uint J (2 ^ 32) (rc_options cfg) ''list_id'') of
        (Some base_url, Some username, Some password, Some list_id) \<Rightarrow>
          start_room J (connect_maillist K base_url username password list_id)
      | _ \<Rightarrow> bad_options cfg [])"

definition spawn_signal ::
  "'j json_ops \<Rightarrow> ('k, 'j, 'c) connectors \<Rightarrow> 'j room_config \<Rightarrow> (room_error + 'k \<times> 'j) outcome" where
  "spawn_signal J K cfg =
     (case (field_str J (rc_options cfg) ''signal_cli_path'',
        field_str J (rc_options cfg) ''account'',
        field_str J (rc_options cfg) ''recipient'') of
        (Some signal_cli_path, Some account, Some recipient) \<Rightarrow>
          start_room J (connect_signal K signal_cli_path account recipient)
      | _ \<Rightarrow> bad_options cfg [])"

definition spawn_github ::
  "'j json_ops \<Rightarrow> ('k, 'j, 'c) connectors \<Rightarrow> 'j room_config \<Rightarrow> (room_error + 'k \<times> 'j) outcome" where
  "spawn_github J K cfg =
     (case (field_str J (rc_options cfg) ''token'',
        field_str J (rc_options cfg) ''owner'',
        field_str J (rc_options cfg) ''repo'',
        field_uint J (2 ^ 64) (rc_options cfg) ''issue_number'') of
        (Some token, Some owner, Some repo, Some issue_number) \<Rightarrow>
          start_room J (connect_github K token owner repo issue_number)
      | _ \<Rightarrow> bad_options cfg [])"

definition spawn_whatsapp ::
  "'j json_ops \<Rightarrow> ('k, 'j, 'c) connectors \<Rightarrow> 'j room_config \<Rightarrow> (room_error + 'k \<times> 'j) outcome" where
  "spawn_whatsapp J K cfg =
     (case (field_str J (rc_options cfg) ''phone_number_id'',
        field_str J (rc_options cfg) ''access_token'',
        field_str J (rc_options cfg) ''recipient_phone'') of
        (Some phone_number_id, Some access_token, Some recipient_phone) \<Rightarrow>
          start_room J (connect_whatsapp K phone_number_id access_token recipient_phone)
      | _ \<Rightarrow> bad_options cfg [])"

definition spawn_fs ::
  "'j json_ops \<Rightarrow> ('k, 'j, 'c) connectors \<Rightarrow> 'j room_config \<Rightarrow> (room_error + 'k \<times> 'j) outcome" where
  "spawn_fs J K cfg =
     (case field_str J (rc_options cfg) ''root'' of
        Some root \<Rightarrow> start_room J (connect_fs K root)
      | None \<Rightarrow> bad_options cfg [])"

text \<open>\<^verbatim>\<open>spawn_room\<close>: the choice by name.\<close>

datatype connector =
    Slack | Discord | Sqlite | Telegram | Matrix | Irc | Zulip | Maillist | Signal | Github | Whatsapp | Fs

definition connector_of :: "string \<Rightarrow> connector option" where
  "connector_of name =
     map_of
       [(''slack'', Slack), (''discord'', Discord), (''sqlite'', Sqlite), (''telegram'', Telegram),
        (''matrix'', Matrix), (''irc'', Irc), (''zulip'', Zulip), (''maillist'', Maillist),
        (''signal'', Signal), (''github'', Github), (''whatsapp'', Whatsapp), (''fs'', Fs)] name"

definition spawn_room ::
  "'j json_ops \<Rightarrow> ('k, 'j, 'c) connectors \<Rightarrow> 'j room_config \<Rightarrow> (room_error + 'k \<times> 'j) outcome" where
  "spawn_room J K cfg =
     (case connector_of (rc_connector cfg) of
        None \<Rightarrow> Done (Inl (UnknownConnector (rc_connector cfg)))
      | Some Slack \<Rightarrow> spawn_slack J K cfg
      | Some Discord \<Rightarrow> spawn_discord J K cfg
      | Some Sqlite \<Rightarrow> spawn_sqlite J K cfg
      | Some Telegram \<Rightarrow> spawn_telegram J K cfg
      | Some Matrix \<Rightarrow> spawn_matrix J K cfg
      | Some Irc \<Rightarrow> spawn_irc J K cfg
      | Some Zulip \<Rightarrow> spawn_zulip J K cfg
      | Some Maillist \<Rightarrow> spawn_maillist J K cfg
      | Some Signal \<Rightarrow> spawn_signal J K cfg
      | Some Github \<Rightarrow> spawn_github J K cfg
      | Some Whatsapp \<Rightarrow> spawn_whatsapp J K cfg
      | Some Fs \<Rightarrow> spawn_fs J K cfg)"

named_theorems spawn_defs
lemmas spawn_fun_defs [spawn_defs] =
  spawn_slack_def spawn_discord_def spawn_sqlite_def spawn_sqlite_generic_def spawn_sqlite_chat_def
  spawn_telegram_def spawn_matrix_def spawn_irc_def spawn_zulip_def spawn_maillist_def spawn_signal_def
  spawn_github_def spawn_whatsapp_def spawn_fs_def

lemma connector_of_discord: "connector_of name = Some Discord \<longleftrightarrow> name = ''discord''"
  by (auto simp: connector_of_def)

lemma connector_of_sqlite: "connector_of name = Some Sqlite \<longleftrightarrow> name = ''sqlite''"
  by (auto simp: connector_of_def)

lemma start_room_bad: "start_room J r \<noteq> Panic" "start_room J r \<noteq> Done (Inl (BadOptions c f))"
    "start_room J r \<noteq> Done (Inl (UnknownConnector c))"
  by (auto simp: start_room_def split: sum.splits prod.splits)

lemma bad_options_iff: "bad_options cfg f \<noteq> Panic"
    "bad_options cfg f = Done (Inl e) \<longleftrightarrow> e = BadOptions (rc_connector cfg) f"
  by (auto simp: bad_options_def)

lemma spawn_room_panic:
  "spawn_room J K cfg = Panic \<longleftrightarrow> connector_of (rc_connector cfg) = Some Discord \<and>
     (\<exists>token. field_str J (rc_options cfg) ''token'' = Some token) \<and>
     field_uint J (2 ^ 64) (rc_options cfg) ''channel_id'' = Some 0"
proof (cases "connector_of (rc_connector cfg)")
  case (Some c)
  then show ?thesis
    by (cases c)
      (auto simp: spawn_room_def spawn_defs start_room_bad bad_options_iff Let_def split: option.splits)
qed (simp add: spawn_room_def)

lemma spawn_room_unknown:
  "spawn_room J K cfg = Done (Inl (UnknownConnector name)) \<longleftrightarrow>
     connector_of (rc_connector cfg) = None \<and> name = rc_connector cfg"
proof (cases "connector_of (rc_connector cfg)")
  case (Some k)
  then show ?thesis
    by (cases k)
      (auto simp: spawn_room_def spawn_defs start_room_bad bad_options_iff Let_def split: option.splits)
qed (auto simp: spawn_room_def)

lemma spawn_room_bad:
  "spawn_room J K cfg = Done (Inl (BadOptions c f)) \<Longrightarrow>
     c = rc_connector cfg \<and> connector_of c \<noteq> None \<and> (f = [] \<or> f = ''chat_log'' \<and> connector_of c = Some Sqlite)"
proof (cases "connector_of (rc_connector cfg)")
  case (Some k)
  assume "spawn_room J K cfg = Done (Inl (BadOptions c f))"
  with Some show ?thesis
    by (cases k)
      (auto simp: spawn_room_def spawn_defs start_room_bad bad_options_iff Let_def split: option.splits if_splits)
qed (simp add: spawn_room_def)

text \<open>C19: spawning fails for a connector that is not one of the twelve, whatever its options, with
  that name; errors about options carry the configured connector; and for a Discord room whose
  channel id is zero it panics instead of reporting an error, which ends the daemon before it
  serves any room.\<close>

theorem spawn_room_errors:
  "(connector_of (rc_connector cfg) = None \<longleftrightarrow>
      spawn_room J K cfg = Done (Inl (UnknownConnector (rc_connector cfg)))) \<and>
   (\<forall>c f. spawn_room J K cfg = Done (Inl (BadOptions c f)) \<longrightarrow>
      c = rc_connector cfg \<and> connector_of c \<noteq> None \<and> (f = [] \<or> f = ''chat_log'' \<and> c = ''sqlite'')) \<and>
   (spawn_room J K cfg = Panic \<longleftrightarrow>
      rc_connector cfg = ''discord'' \<and> (\<exists>token. field_str J (rc_options cfg) ''token'' = Some token) \<and>
      field_uint J (2 ^ 64) (rc_options cfg) ''channel_id'' = Some 0)"
proof (intro conjI)
  show "connector_of (rc_connector cfg) = None \<longleftrightarrow>
      spawn_room J K cfg = Done (Inl (UnknownConnector (rc_connector cfg)))"
    by (simp add: spawn_room_unknown)
  show "\<forall>c f. spawn_room J K cfg = Done (Inl (BadOptions c f)) \<longrightarrow>
      c = rc_connector cfg \<and> connector_of c \<noteq> None \<and> (f = [] \<or> f = ''chat_log'' \<and> c = ''sqlite'')"
    using spawn_room_bad [of J K cfg] by (auto simp: connector_of_sqlite)
  show "spawn_room J K cfg = Panic \<longleftrightarrow>
      rc_connector cfg = ''discord'' \<and> (\<exists>token. field_str J (rc_options cfg) ''token'' = Some token) \<and>
      field_uint J (2 ^ 64) (rc_options cfg) ''channel_id'' = Some 0"
    by (simp add: spawn_room_panic connector_of_discord)
qed

theorem spawn_room_errors_witness:
  "\<forall>K :: (unit, json, unit) connectors.
     spawn_room value_json K \<lparr>rc_name = ''a'', rc_connector = ''discord'',
       rc_options = JObj [(''token'', JStr ''t''), (''channel_id'', JInt 0)]\<rparr> = Panic \<and>
     spawn_room value_json K \<lparr>rc_name = ''a'', rc_connector = ''gopher'', rc_options = JNull\<rparr> =
       Done (Inl (UnknownConnector ''gopher''))"
proof (intro allI conjI)
  fix K :: "(unit, json, unit) connectors"
  let ?d = "\<lparr>rc_name = ''a'', rc_connector = ''discord'',
       rc_options = JObj [(''token'', JStr ''t''), (''channel_id'', JInt 0)]\<rparr>"
  have "field_uint value_json (2 ^ 64) (rc_options ?d) ''channel_id'' = Some 0"
      "field_str value_json (rc_options ?d) ''token'' = Some ''t''"
    by (simp_all add: field_uint_def field_str_def)
  then show "spawn_room value_json K ?d = Panic"
    using spawn_room_errors [of ?d value_json K] by simp
  show "spawn_room value_json K \<lparr>rc_name = ''a'', rc_connector = ''gopher'', rc_options = JNull\<rparr> =
       Done (Inl (UnknownConnector ''gopher''))"
    using spawn_room_errors [of "\<lparr>rc_name = ''a'', rc_connector = ''gopher'', rc_options = JNull\<rparr>" value_json K]
    by (simp add: connector_of_def)
qed

subsection \<open>The room task\<close>

text \<open>Each turn of the loop is one branch of the \<^verbatim>\<open>select!\<close>: what the connection received, an
  intent from the daemon, or the end of the intent channel. \<open>rt_pushed\<close> is what the task has
  put into the channel to the daemon.\<close>

record ('t, 'i, 'j) room_task =
  rt_conn :: "('t, 'j) connection"
  rt_inputs :: "'i list"
  rt_pushed :: "'j list"
  rt_running :: bool

record ('t, 'i, 'te, 'b, 'we, 'cj, 'o, 'j, 's, 'q) room_env =
  re_transport :: "('t, 'i, 'te, 'b) transport_ops"
  re_into :: "'te \<Rightarrow> ('we, 'cj, 'o) client_error"
  re_enc :: "'q client_wire \<Rightarrow> 'cj + 'b"
  re_dec :: "'b \<Rightarrow> 'cj + ('j, 's) server_wire"
  re_to_value :: "'s \<Rightarrow> 'j option"
  re_from_value :: "'j \<Rightarrow> 'q option"
  re_null :: 'j

datatype 'j select = SelRecv | SelIntent 'j | SelGone

fun room_step ::
  "('t, 'i, 'te, 'b, 'we, 'cj, 'o, 'j, 's, 'q) room_env \<Rightarrow> 'j select \<Rightarrow> ('t, 'i, 'j) room_task
    \<Rightarrow> ('t, 'i, 'j) room_task option" where
  "room_step R SelRecv s =
     (if \<not> rt_running s then None
      else (case conn_recv (re_transport R) (re_into R) (re_dec R) (rt_conn s) (rt_inputs s) of
              (Frame w, c, rest) \<Rightarrow>
                Some (s\<lparr>rt_conn := c, rt_inputs := rest,
                  rt_pushed := (case w of
                     Snapshot _ d \<Rightarrow> rt_pushed s @ [case re_to_value R d of None \<Rightarrow> re_null R | Some v \<Rightarrow> v]
                   | _ \<Rightarrow> rt_pushed s)\<rparr>)
            | (Closed, c, rest) \<Rightarrow> Some (s\<lparr>rt_conn := c, rt_inputs := rest, rt_running := False\<rparr>)
            | (Failed e, c, rest) \<Rightarrow> Some (s\<lparr>rt_conn := c, rt_inputs := rest, rt_running := False\<rparr>)
            | (Pending, c, rest) \<Rightarrow> None))"
| "room_step R (SelIntent body) s =
     (if \<not> rt_running s then None
      else (case re_from_value R body of
              None \<Rightarrow> Some s
            | Some intent \<Rightarrow>
                Some (s\<lparr>rt_conn := snd (send_intent (re_transport R) (re_into R) (re_enc R) (rt_conn s) intent)\<rparr>)))"
| "room_step R SelGone s = (if \<not> rt_running s then None else Some (s\<lparr>rt_running := False\<rparr>))"

fun room_run where
  "room_run R [] s = Some s"
| "room_run R (x # xs) s = (case room_step R x s of None \<Rightarrow> None | Some s' \<Rightarrow> room_run R xs s')"

text \<open>The task right after spawning, with the first snapshot pushed.\<close>

definition room_task_start :: "('t, 'j) connection \<Rightarrow> 'j \<Rightarrow> 'i list \<Rightarrow> ('t, 'i, 'j) room_task" where
  "room_task_start c first ins = \<lparr>rt_conn = c, rt_inputs = ins, rt_pushed = [first], rt_running = True\<rparr>"

lemma room_step_stopped: "\<not> rt_running s \<Longrightarrow> room_step R x s = None"
  by (cases x) auto

lemma room_step_pushes: "room_step R x s = Some s' \<Longrightarrow> \<exists>vs. rt_pushed s' = rt_pushed s @ vs \<and> length vs \<le> 1"
  by (cases x) (auto split: if_splits polled.splits server_wire.splits option.splits prod.splits)

lemma room_run_pushes: "room_run R xs s = Some s' \<Longrightarrow> \<exists>vs. rt_pushed s' = rt_pushed s @ vs \<and> length vs \<le> length xs"
proof (induction xs arbitrary: s)
  case (Cons x xs)
  then obtain s1 where s1: "room_step R x s = Some s1" "room_run R xs s1 = Some s'"
    by (auto split: option.splits)
  from Cons.IH [OF s1(2)] room_step_pushes [OF s1(1)] show ?case by fastforce
qed simp

lemma room_run_append: "room_run R (xs @ ys) s = Option.bind (room_run R xs s) (room_run R ys)"
  by (induction xs arbitrary: s) (auto split: option.splits)

text \<open>C22: a room task takes no turn after the one that stopped it. While it runs, a turn stops it
  if and only if it is the end of the intent channel or a receive that reports the end of the
  connection or an error of it. An intent can always be taken and never stops it: one that can be parsed is
  sent, whatever becomes of that, and another one changes nothing. A turn pushes the value of the snapshot that it received,
  null when that has none, and nothing otherwise; a receive is not yet possible exactly while
  the connection has nothing to report.\<close>

theorem room_task_turns:
  assumes "room_run R xs s = Some s'" and "rt_running s"
  defines "received \<equiv> fst (conn_recv (re_transport R) (re_into R) (re_dec R) (rt_conn s') (rt_inputs s'))"
  shows "(\<exists>vs. rt_pushed s' = rt_pushed s @ vs \<and> length vs \<le> length xs) \<and>
    (\<not> rt_running s' \<longrightarrow> (\<forall>x. room_step R x s' = None)) \<and>
    (\<forall>payload. rt_running s' \<longrightarrow> (\<exists>s''. room_step R (SelIntent payload) s' = Some s'' \<and> rt_inputs s'' = rt_inputs s' \<and>
       rt_conn s'' = (case re_from_value R payload of
          None \<Rightarrow> rt_conn s'
        | Some i \<Rightarrow> snd (send_intent (re_transport R) (re_into R) (re_enc R) (rt_conn s') i)))) \<and>
    (rt_running s' \<longrightarrow> (room_step R SelRecv s' = None \<longleftrightarrow> received = Pending) \<and> room_step R SelGone s' \<noteq> None) \<and>
    (\<forall>x s''. room_step R x s' = Some s'' \<longrightarrow>
       (\<not> rt_running s'' \<longleftrightarrow> x = SelGone \<or> x = SelRecv \<and> (received = Closed \<or> (\<exists>e. received = Failed e))) \<and>
       rt_pushed s'' = rt_pushed s' @
         (if x = SelRecv then
            (case received of
               Frame (Snapshot q d) \<Rightarrow> [case re_to_value R d of None \<Rightarrow> re_null R | Some v \<Rightarrow> v]
             | _ \<Rightarrow> [])
          else []))"
proof (intro conjI)
  show "\<exists>vs. rt_pushed s' = rt_pushed s @ vs \<and> length vs \<le> length xs"
    by (rule room_run_pushes [OF assms(1)])
  show "\<not> rt_running s' \<longrightarrow> (\<forall>x. room_step R x s' = None)"
    by (simp add: room_step_stopped)
  show "\<forall>payload. rt_running s' \<longrightarrow> (\<exists>s''. room_step R (SelIntent payload) s' = Some s'' \<and> rt_inputs s'' = rt_inputs s' \<and>
       rt_conn s'' = (case re_from_value R payload of
          None \<Rightarrow> rt_conn s'
        | Some i \<Rightarrow> snd (send_intent (re_transport R) (re_into R) (re_enc R) (rt_conn s') i)))"
    by (auto split: option.splits)
  show "rt_running s' \<longrightarrow> (room_step R SelRecv s' = None \<longleftrightarrow> received = Pending) \<and> room_step R SelGone s' \<noteq> None"
    by (auto simp: received_def split: polled.splits prod.splits)
  show "\<forall>x s''. room_step R x s' = Some s'' \<longrightarrow>
       (\<not> rt_running s'' \<longleftrightarrow> x = SelGone \<or> x = SelRecv \<and> (received = Closed \<or> (\<exists>e. received = Failed e))) \<and>
       rt_pushed s'' = rt_pushed s' @
         (if x = SelRecv then
            (case received of
               Frame (Snapshot q d) \<Rightarrow> [case re_to_value R d of None \<Rightarrow> re_null R | Some v \<Rightarrow> v]
             | _ \<Rightarrow> [])
          else [])"
  proof (intro allI impI)
    fix x s''
    assume "room_step R x s' = Some s''"
    then show "(\<not> rt_running s'' \<longleftrightarrow> x = SelGone \<or> x = SelRecv \<and> (received = Closed \<or> (\<exists>e. received = Failed e))) \<and>
       rt_pushed s'' = rt_pushed s' @
         (if x = SelRecv then
            (case received of
               Frame (Snapshot q d) \<Rightarrow> [case re_to_value R d of None \<Rightarrow> re_null R | Some v \<Rightarrow> v]
             | _ \<Rightarrow> [])
          else [])"
      by (cases x) (auto simp: received_def split: if_splits polled.splits option.splits prod.splits server_wire.splits)
  qed
qed

definition demo_room_env ::
  "(unit, unit ws_item, unit, bytes, unit, unit, unit, json, nat, nat) room_env" where
  "demo_room_env =
     \<lparr>re_transport = ws_transport id (\<lambda>t m. (Inr (), t)), re_into = WebSocket, re_enc = (\<lambda>_. Inr []),
      re_dec = demo_dec, re_to_value = (\<lambda>n. Some (JInt (int n))), re_from_value = (\<lambda>_. Some 0), re_null = JNull\<rparr>"

theorem room_task_turns_witness:
  "\<exists>s'. room_run demo_room_env [SelRecv, SelIntent JNull, SelRecv]
      (room_task_start (established () demo_manifest) JNull [WsText [1], WsClose, WsText [1]]) = Some s' \<and>
    rt_pushed s' = [JNull, JInt 42] \<and> (\<forall>x. room_step demo_room_env x s' = None)"
proof -
  let ?s = "room_task_start (established () demo_manifest) JNull [WsText [1], WsClose, WsText [1]]"
  obtain s' where s': "room_run demo_room_env [SelRecv, SelIntent JNull, SelRecv] ?s = Some s'"
      "rt_pushed s' = [JNull, JInt 42]" "\<not> rt_running s'"
    by (simp add: demo_room_env_def room_task_start_def established_def conn_recv_def from_json_def demo_dec_def
        send_intent_def conn_send_def to_json_def ws_send_def)
  have "rt_running ?s" by (simp add: room_task_start_def)
  from room_task_turns [OF s'(1) this] s' show ?thesis by blast
qed

end
