(* ===== verification/Room_Select.thy ===== *)
theory Room_Select
  imports Room
begin

section \<open>What the \<open>select!\<close> of a room task drops\<close>

text \<open>
  The loop of every room task (\<^verbatim>\<open>crates/interconnect-daemon/src/room.rs\<close>) is a \<^verbatim>\<open>tokio::select!\<close>
  between \<^verbatim>\<open>conn.recv()\<close> and the intent channel. When an intent is there first, the future of
  \<^verbatim>\<open>recv\<close> is dropped where it is suspended and the next turn calls \<^verbatim>\<open>recv\<close> anew, so what the
  dropped call had taken from its environment and not yet put into the transport is gone.
  \<open>drop_points\<close> lists the states in which a receive loop can be dropped: before an item is
  there, where nothing of it is used, and at the awaits inside the processing of an item that
  was taken, which each connector gives as its \<open>mid\<close>. \<open>select_step\<close> is the turn of a room task
  with the drops as steps of their own.
\<close>

fun drop_points ::
  "('t \<Rightarrow> 'i \<Rightarrow> ('e, 'b, 't) turn) \<Rightarrow> ('t \<Rightarrow> 'i \<Rightarrow> 't list) \<Rightarrow> 't \<Rightarrow> 'i list \<Rightarrow> ('t \<times> 'i list) list" where
  "drop_points body mid t [] = [(t, [])]"
| "drop_points body mid t (x # ins) =
     (t, x # ins) # map (\<lambda>m. (m, ins)) (mid t x) @
     (case body t x of Continue t' \<Rightarrow> drop_points body mid t' ins | Return _ _ \<Rightarrow> [])"

lemma drop_points_ConsE:
  assumes "(t', rest) \<in> set (drop_points body mid t (x # ins))"
  obtains (before) "t' = t" "rest = x # ins"
  | (inside) "t' \<in> set (mid t x)" "rest = ins"
  | (later) t1 where "body t x = Continue t1" "(t', rest) \<in> set (drop_points body mid t1 ins)"
  using assms by (cases "body t x") auto

lemma drop_points_mid: "m \<in> set (mid t x) \<Longrightarrow> (m, ins) \<in> set (drop_points body mid t (x # ins))"
  by simp

lemma drop_points_consume: "(t', rest) \<in> set (drop_points body mid t ins) \<Longrightarrow> \<exists>used. ins = used @ rest"
proof (induction ins arbitrary: t)
  case (Cons x ins)
  from Cons.prems show ?case
  proof (cases rule: drop_points_ConsE)
    case (later t1)
    from Cons.IH [OF this(2)] obtain used where "ins = used @ rest" by blast
    then show ?thesis by (intro exI [of _ "x # used"]) simp
  qed auto
qed simp

text \<open>A loop that awaits nothing once it has an item can be dropped anywhere: the next call does what
  the dropped one would have done.\<close>

lemma drop_resumes:
  "(t', rest) \<in> set (drop_points body (\<lambda>_ _. []) t ins) \<Longrightarrow> recv_loop body t' rest = recv_loop body t ins"
proof (induction ins arbitrary: t)
  case (Cons x ins)
  from Cons.prems show ?case
    by (cases rule: drop_points_ConsE) (auto simp: Cons.IH)
qed simp

subsection \<open>Turns of a room task\<close>

datatype 'j select_turn = Drop nat | Sel "'j select"

fun select_step ::
  "('t, 'i, 'te, 'b, 'we, 'cj, 'o, 'j, 's, 'q) room_env \<Rightarrow> ('t \<Rightarrow> 'i list \<Rightarrow> ('t \<times> 'i list) list)
    \<Rightarrow> 'j select_turn \<Rightarrow> ('t, 'i, 'j) room_task \<Rightarrow> ('t, 'i, 'j) room_task option" where
  "select_step R points (Sel x) s = room_step R x s"
| "select_step R points (Drop k) s =
     (let ps = points (conn_transport (rt_conn s)) (rt_inputs s) in
      if rt_running s \<and> k < length ps
      then Some (s\<lparr>rt_conn := (rt_conn s)\<lparr>conn_transport := fst (ps ! k)\<rparr>, rt_inputs := snd (ps ! k)\<rparr>)
      else None)"

fun select_run where
  "select_run R points [] s = Some s"
| "select_run R points (x # xs) s =
     (case select_step R points x s of None \<Rightarrow> None | Some s' \<Rightarrow> select_run R points xs s')"

lemma select_run_append:
  "select_run R points (xs @ ys) s = Option.bind (select_run R points xs s) (select_run R points ys)"
  by (induction xs arbitrary: s) (auto split: option.splits)

lemma select_run_Sel: "select_run R points (map Sel xs) s = room_run R xs s"
  by (induction xs arbitrary: s) (auto split: option.splits)

abbreviation task_transport :: "('t, 'i, 'j) room_task \<Rightarrow> 't" where
  "task_transport s \<equiv> conn_transport (rt_conn s)"

lemma conn_recv_transport:
  "conn_recv T into dec c ins = (r, c', rest) \<Longrightarrow>
     \<exists>r'. t_recv T (conn_transport c) ins = (r', conn_transport c', rest)"
  by (auto simp: conn_recv_def split: prod.splits polled.splits sum.splits)

lemma conn_send_transport:
  "conn_transport (snd (conn_send T into enc c m)) = conn_transport c \<or>
     (\<exists>data. conn_transport (snd (conn_send T into enc c m)) = snd (t_send T (conn_transport c) data))"
proof (cases "to_json enc m")
  case (Inr data)
  obtain r t where "t_send T (conn_transport c) data = (r, t)" by fastforce
  with Inr have "conn_transport (snd (conn_send T into enc c m)) = snd (t_send T (conn_transport c) data)"
    by (auto simp: conn_send_def split: sum.splits)
  then show ?thesis by blast
qed (simp add: conn_send_def)

text \<open>The things things a turn can do to the transport and its inputs.\<close>

lemma select_step_transport:
  assumes "select_step R points x s = Some s'"
  obtains (same) "task_transport s' = task_transport s" "rt_inputs s' = rt_inputs s"
  | (received) r where "t_recv (re_transport R) (task_transport s) (rt_inputs s) = (r, task_transport s', rt_inputs s')"
  | (sent) data where "task_transport s' = snd (t_send (re_transport R) (task_transport s) data)" "rt_inputs s' = rt_inputs s"
  | (dropped) "(task_transport s', rt_inputs s') \<in> set (points (task_transport s) (rt_inputs s))"
proof -
  have recv: "\<exists>r. t_recv (re_transport R) (task_transport s) (rt_inputs s) = (r, task_transport s', rt_inputs s')"
    if x: "x = Sel SelRecv"
  proof -
    from assms x obtain r where
      "conn_recv (re_transport R) (re_into R) (re_dec R) (rt_conn s) (rt_inputs s) = (r, rt_conn s', rt_inputs s')"
      by (auto split: if_splits prod.splits polled.splits)
    then show ?thesis by (rule conn_recv_transport)
  qed
  have send: "task_transport s' = task_transport s \<and> rt_inputs s' = rt_inputs s \<or>
      (\<exists>data. task_transport s' = snd (t_send (re_transport R) (task_transport s) data) \<and> rt_inputs s' = rt_inputs s)"
    if x: "x = Sel (SelIntent b)" for b
  proof (cases "re_from_value R b")
    case None
    with assms x show ?thesis by (auto split: if_splits)
  next
    case (Some i)
    with assms x have "rt_inputs s' = rt_inputs s"
        "rt_conn s' = snd (send_intent (re_transport R) (re_into R) (re_enc R) (rt_conn s) i)"
      by (auto split: if_splits)
    then show ?thesis
      using conn_send_transport [of "re_transport R" "re_into R" "re_enc R" "rt_conn s" "Intent i"]
      by (auto simp: send_intent_def)
  qed
  show thesis
  proof (cases x)
    case (Drop k)
    with assms have "(task_transport s', rt_inputs s') \<in> set (points (task_transport s) (rt_inputs s))"
      by (auto simp: Let_def split: if_splits)
    then show ?thesis by (rule dropped)
  next
    case (Sel y)
    show ?thesis
    proof (cases y)
      case SelRecv
      with Sel recv received show ?thesis by blast
    next
      case (SelIntent b)
      with Sel send [of b] same sent show ?thesis by blast
    next
      case SelGone
      with Sel assms have "task_transport s' = task_transport s" "rt_inputs s' = rt_inputs s"
        by (auto split: if_splits)
      then show ?thesis by (rule same)
    qed
  qed
qed

subsection \<open>What a room keeps when it is dropped\<close>

text \<open>The history of a room under all its turns: the window over the old messages and what was kept
  of the messages among the inputs used, where \<open>keep\<close> says what may be missing.\<close>

definition select_window ::
  "('m list \<Rightarrow> 'm list \<Rightarrow> bool)
    \<Rightarrow> ('t, 'i, 'te, 'b, 'we, 'cj, 'o, 'j, 's, 'q) room_env \<Rightarrow> ('t \<Rightarrow> 'i list \<Rightarrow> ('t \<times> 'i list) list)
    \<Rightarrow> ('t \<Rightarrow> 'm list) \<Rightarrow> ('t \<Rightarrow> 'i \<Rightarrow> 'm list) \<Rightarrow> nat \<Rightarrow> bool" where
  "select_window keep R points msgs accept cap \<longleftrightarrow>
     (\<forall>xs s s'. select_run R points xs s = Some s' \<longrightarrow> length (msgs (task_transport s)) \<le> cap \<longrightarrow>
        (\<exists>used ms. rt_inputs s = used @ rt_inputs s' \<and> keep ms (concat (map (accept (task_transport s)) used)) \<and>
           msgs (task_transport s') = last_n cap (msgs (task_transport s) @ ms)))"

text \<open>A window that sending does not touch and that a drop inside the processing of an item leaves as
  it was; with equality for \<open>keep\<close>, only items that are no messages may be dropped inside.\<close>

locale droppable_room = turn_lossless body msgs accept cap
  for body :: "'t \<Rightarrow> 'i \<Rightarrow> ('e, 'b, 't) turn" and msgs :: "'t \<Rightarrow> 'm list" and accept cap +
  fixes mid :: "'t \<Rightarrow> 'i \<Rightarrow> 't list"
    and snd_op :: "'t \<Rightarrow> 'b \<Rightarrow> ('e + unit) \<times> 't"
    and keep :: "'m list \<Rightarrow> 'm list \<Rightarrow> bool"
  assumes mid_keeps: "m \<in> set (mid t x) \<Longrightarrow> msgs m = msgs t \<and> accept m = accept t \<and> keep [] (accept t x)"
    and send_keeps: "msgs (snd (snd_op t data)) = msgs t \<and> accept (snd (snd_op t data)) = accept t"
    and keep_refl: "keep xs xs"
    and keep_append: "keep as bs \<Longrightarrow> keep cs ds \<Longrightarrow> keep (as @ cs) (bs @ ds)"
begin

definition window_step :: "'t \<Rightarrow> 'i list \<Rightarrow> 't \<Rightarrow> 'i list \<Rightarrow> bool" where
  "window_step t ins t' rest \<longleftrightarrow>
     accept t' = accept t \<and>
     (\<exists>used ms. ins = used @ rest \<and> keep ms (concat (map (accept t) used)) \<and> msgs t' = last_n cap (msgs t @ ms))"

lemma window_stepI:
  "accept t' = accept t \<Longrightarrow> ins = used @ rest \<Longrightarrow> keep ms (concat (map (accept t) used)) \<Longrightarrow>
     msgs t' = last_n cap (msgs t @ ms) \<Longrightarrow> window_step t ins t' rest"
  unfolding window_step_def by blast

lemma window_step_same: "length (msgs t) \<le> cap \<Longrightarrow> accept t' = accept t \<Longrightarrow> msgs t' = msgs t \<Longrightarrow> window_step t ins t' ins"
  by (rule window_stepI [where used = "[]" and ms = "[]"]) (simp_all add: last_n_all keep_refl)

lemma window_step_trans:
  assumes "window_step t ins t1 ins1" and "window_step t1 ins1 t2 ins2"
  shows "window_step t ins t2 ins2"
proof -
  from assms obtain u ms v ns where
    "accept t1 = accept t" "ins = u @ ins1" "keep ms (concat (map (accept t) u))" "msgs t1 = last_n cap (msgs t @ ms)"
    "accept t2 = accept t1" "ins1 = v @ ins2" "keep ns (concat (map (accept t1) v))" "msgs t2 = last_n cap (msgs t1 @ ns)"
    unfolding window_step_def by blast
  then show ?thesis
    by (intro window_stepI [where used = "u @ v" and ms = "ms @ ns"]) (simp_all add: keep_append last_n_append_last_n)
qed

lemma window_step_bound: "window_step t ins t' rest \<Longrightarrow> length (msgs t') \<le> cap"
  by (auto simp: window_step_def)

lemma turn_step: "length (msgs t) \<le> cap \<Longrightarrow> window_step t (x # ins) (turn_state (body t x)) ins"
  by (rule window_stepI [where used = "[x]" and ms = "accept t x"]) (simp_all add: turn_accept turn_window keep_refl)

lemma mid_step: "length (msgs t) \<le> cap \<Longrightarrow> m \<in> set (mid t x) \<Longrightarrow> window_step t (x # ins) m ins"
  using mid_keeps [of m t x] by (intro window_stepI [where used = "[x]" and ms = "[]"]) (simp_all add: last_n_all)

lemma drop_step:
  "(t', rest) \<in> set (drop_points body mid t ins) \<Longrightarrow> length (msgs t) \<le> cap \<Longrightarrow> window_step t ins t' rest"
proof (induction ins arbitrary: t)
  case Nil
  then show ?case by (auto intro: window_step_same)
next
  case (Cons x ins)
  from Cons.prems(1) show ?case
  proof (cases rule: drop_points_ConsE)
    case before
    with Cons.prems(2) show ?thesis by (auto intro: window_step_same)
  next
    case inside
    with Cons.prems(2) mid_step show ?thesis by blast
  next
    case (later t1)
    with turn_step [OF Cons.prems(2), of x ins] have "window_step t (x # ins) t1 ins" by simp
    with Cons.IH [OF later(2) window_step_bound] window_step_trans show ?thesis by blast
  qed
qed

lemma recv_step: "recv_loop body t ins = (r, t', rest) \<Longrightarrow> length (msgs t) \<le> cap \<Longrightarrow> window_step t ins t' rest"
proof -
  assume run: "recv_loop body t ins = (r, t', rest)" and cap: "length (msgs t) \<le> cap"
  obtain used where "ins = used @ rest" "msgs t' = last_n cap (msgs t @ concat (map (accept t) used))"
    using loop_window [OF run cap] by blast
  with loop_accept [OF run] show ?thesis by (intro window_stepI [where used = used]) (simp_all add: keep_refl)
qed

lemma select_window_step:
  assumes R: "re_transport R = \<lparr>t_send = snd_op, t_recv = recv_loop body\<rparr>"
    and step: "select_step R (drop_points body mid) x s = Some s'" and cap: "length (msgs (task_transport s)) \<le> cap"
  shows "window_step (task_transport s) (rt_inputs s) (task_transport s') (rt_inputs s')"
  using step
proof (cases rule: select_step_transport)
  case same
  with cap window_step_same show ?thesis by metis
next
  case (received r)
  with R cap recv_step show ?thesis by simp
next
  case (sent data)
  with R cap send_keeps [of "task_transport s" data] window_step_same show ?thesis by simp
next
  case dropped
  then show ?thesis by (rule drop_step [OF _ cap])
qed

lemma select_run_window:
  assumes R: "re_transport R = \<lparr>t_send = snd_op, t_recv = recv_loop body\<rparr>"
  shows "select_run R (drop_points body mid) xs s = Some s' \<Longrightarrow> length (msgs (task_transport s)) \<le> cap \<Longrightarrow>
     window_step (task_transport s) (rt_inputs s) (task_transport s') (rt_inputs s')"
proof (induction xs arbitrary: s)
  case Nil
  then show ?case by (auto intro: window_step_same)
next
  case (Cons x xs)
  then obtain s1 where s1: "select_step R (drop_points body mid) x s = Some s1"
      "select_run R (drop_points body mid) xs s1 = Some s'"
    by (auto split: option.splits)
  note one = select_window_step [OF R s1(1) Cons.prems(2)]
  from window_step_trans [OF one Cons.IH [OF s1(2) window_step_bound [OF one]]] show ?case .
qed

lemma windowed:
  "re_transport R = \<lparr>t_send = snd_op, t_recv = recv_loop body\<rparr> \<Longrightarrow>
     select_window keep R (drop_points body mid) msgs accept cap"
  unfolding select_window_def using select_run_window [of R] unfolding window_step_def by blast

end

subsection \<open>Rooms that poll on a timer\<close>

text \<open>The mailing list, GitHub and SQLite rooms begin every turn of \<^verbatim>\<open>recv\<close> with
  \<^verbatim>\<open>sleep(POLL_INTERVAL).await\<close>. A dropped \<^verbatim>\<open>recv\<close> takes the sleep with it. Time goes in
  seconds; \<open>True\<close> is a second at whose end an intent is taken. The result is the number of polls
  done.\<close>

fun poll_count :: "nat \<Rightarrow> nat \<Rightarrow> bool list \<Rightarrow> nat" where
  "poll_count interval left [] = 0"
| "poll_count interval left (intent # seconds) =
     (if intent then poll_count interval interval seconds
      else if left \<le> 1 then Suc (poll_count interval interval seconds)
      else poll_count interval (left - 1) seconds)"

lemma poll_count_quiet:
  "0 < left \<Longrightarrow> 0 < interval \<Longrightarrow>
     poll_count interval left (replicate n False) = (if n < left then 0 else Suc ((n - left) div interval))"
proof (induction n arbitrary: left)
  case (Suc n)
  show ?case
  proof (cases "left = 1")
    case True
    with Suc show ?thesis by (auto simp: div_if)
  next
    case False
    with Suc.prems have "0 < left - 1" "n < left - 1 \<longleftrightarrow> Suc n < left" "n - (left - 1) = Suc n - left" by auto
    with Suc.IH [of "left - 1"] Suc.prems False show ?thesis by simp
  qed
qed simp

lemma poll_count_wait:
  "k < left \<Longrightarrow> poll_count interval left (replicate k False @ True # seconds) = poll_count interval interval seconds"
  by (induction k arbitrary: left) auto

text \<open>Without intents a room polls once every interval; with an intent in every interval it does not
  poll at all.\<close>

lemma polling_starves:
  assumes "\<forall>k \<in> set gaps. k < interval" and "0 < interval"
  shows "poll_count interval interval (concat (map (\<lambda>k. replicate k False @ [True]) gaps)) = 0"
    and "poll_count interval interval (replicate n False) = n div interval"
proof -
  show "poll_count interval interval (concat (map (\<lambda>k. replicate k False @ [True]) gaps)) = 0"
    using assms(1) by (induction gaps) (simp_all add: poll_count_wait)
  show "poll_count interval interval (replicate n False) = n div interval"
    using poll_count_quiet [of interval interval n] assms(2) by (auto simp: le_div_geq)
qed

end
