(* ===== verification/Daemon_Tasks.thy ===== *)
theory Daemon_Tasks
  imports Daemon
begin

section \<open>Connections and connector tasks running concurrently\<close>

text \<open>
  The transition system of \<^verbatim>\<open>daemon.rs\<close>. A connection handles one request at a time. A
  blocking receive goes through three states: it has found nothing and released the mutex
  (\<open>TakeNotify\<close>), it has cloned the room's \<^verbatim>\<open>Notify\<close> and is at the top of its loop
  (\<open>LoopTop\<close>), it awaits a waiter (\<open>Waiting\<close>). \<open>d_log\<close> is the history of the replies.
\<close>

datatype 'k task = TakeNotify string | LoopTop string | Waiting string 'k

datatype 'j event =
    EvPush string 'j
  | EvRequest nat "'j request"
  | EvTakeNotify nat
  | EvWait nat
  | EvWake nat

record ('j, 'n, 'k, 'h) daemon_state =
  d_rooms :: "('j, 'n, 'h) rooms"
  d_tasks :: "(nat \<times> 'k task) list"
  d_log :: "(nat \<times> 'j request \<times> 'j response) list"

definition daemon_start ::
  "('j, 'n, 'k, 'h) daemon_env \<Rightarrow> 'j config \<Rightarrow> (string \<times> 'h) list \<Rightarrow> ('j, 'n, 'k, 'h) daemon_state" where
  "daemon_start E cfg spawned =
     \<lparr>d_rooms = fold (\<lambda>(name, h). store_handle name h) spawned (daemon_new E cfg), d_tasks = [], d_log = []\<rparr>"

text \<open>What becomes of connection \<open>tid\<close> after a critical section for the request \<open>req\<close>.\<close>

fun settle ::
  "nat \<Rightarrow> 'j request \<Rightarrow> (string \<Rightarrow> 'k task) \<Rightarrow> ('j dispatched \<times> ('j, 'n, 'h) rooms) outcome
    \<Rightarrow> ('j, 'n, 'k, 'h) daemon_state \<Rightarrow> ('j, 'n, 'k, 'h) daemon_state outcome" where
  "settle tid req wait Panic s = Panic"
| "settle tid req wait (Done (Reply r, rooms)) s =
     Done (s\<lparr>d_rooms := rooms, d_tasks := AList.delete tid (d_tasks s), d_log := d_log s @ [(tid, req, r)]\<rparr>)"
| "settle tid req wait (Done (MustWait room, rooms)) s =
     Done (s\<lparr>d_rooms := rooms, d_tasks := AList.update tid (wait room) (d_tasks s)\<rparr>)"

fun daemon_step ::
  "('j, 'n, 'k, 'h) daemon_env \<Rightarrow> 'j event \<Rightarrow> ('j, 'n, 'k, 'h) daemon_state
    \<Rightarrow> ('j, 'n, 'k, 'h) daemon_state outcome option" where
  "daemon_step E (EvPush room msg) s =
     map_option (\<lambda>rooms. Done (s\<lparr>d_rooms := rooms\<rparr>)) (forward_push E room msg (d_rooms s))"
| "daemon_step E (EvRequest tid req) s =
     (case map_of (d_tasks s) tid of
        Some _ \<Rightarrow> None
      | None \<Rightarrow> Some (settle tid req TakeNotify (dispatch E req (d_rooms s)) s))"
| "daemon_step E (EvTakeNotify tid) s =
     (case map_of (d_tasks s) tid of
        Some (TakeNotify room) \<Rightarrow>
          (case map_of (d_rooms s) room of
             None \<Rightarrow> Some Panic
           | Some _ \<Rightarrow> Some (Done (s\<lparr>d_tasks := AList.update tid (LoopTop room) (d_tasks s)\<rparr>)))
      | _ \<Rightarrow> None)"
| "daemon_step E (EvWait tid) s =
     (case map_of (d_tasks s) tid of
        Some (LoopTop room) \<Rightarrow>
          (case map_of (d_rooms s) room of
             None \<Rightarrow> None
           | Some r \<Rightarrow>
               Some (Done (s\<lparr>d_tasks := AList.update tid (Waiting room (n_notified (de_notify E) (rs_notify r))) (d_tasks s)\<rparr>)))
      | _ \<Rightarrow> None)"
| "daemon_step E (EvWake tid) s =
     (case map_of (d_tasks s) tid of
        Some (Waiting room k) \<Rightarrow>
          (case map_of (d_rooms s) room of
             None \<Rightarrow> None
           | Some r \<Rightarrow>
               if n_ready (de_notify E) (rs_notify r) k
               then Some (settle tid (ReqRecv room True) LoopTop (dispatch_woken room (d_rooms s)) s)
               else None)
      | _ \<Rightarrow> None)"

inductive daemon_path ::
  "('j, 'n, 'k, 'h) daemon_env \<Rightarrow> ('j, 'n, 'k, 'h) daemon_state \<Rightarrow> 'j event list
    \<Rightarrow> ('j, 'n, 'k, 'h) daemon_state \<Rightarrow> bool" for E where
  path_refl: "daemon_path E s [] s"
| path_step: "daemon_path E s evs s' \<Longrightarrow> daemon_step E ev s' = Some (Done s'') \<Longrightarrow> daemon_path E s (evs @ [ev]) s''"

inductive_cases daemon_path_snocE: "daemon_path E s (evs @ [ev]) s'"

lemma daemon_path_trans: "daemon_path E s2 evs' s3 \<Longrightarrow> daemon_path E s1 evs s2 \<Longrightarrow> daemon_path E s1 (evs @ evs') s3"
  by (induction rule: daemon_path.induct) (auto simp flip: append_assoc intro: daemon_path.intros)

lemma daemon_path_one: "daemon_step E ev s = Some (Done s') \<Longrightarrow> daemon_path E s [ev] s'"
  using path_step [OF path_refl, of E ev s s'] by simp

text \<open>The same as a function, to run concrete interleavings.\<close>

fun daemon_run ::
  "('j, 'n, 'k, 'h) daemon_env \<Rightarrow> 'j event list \<Rightarrow> ('j, 'n, 'k, 'h) daemon_state
    \<Rightarrow> ('j, 'n, 'k, 'h) daemon_state option" where
  "daemon_run E [] s = Some s"
| "daemon_run E (ev # evs) s =
     (case daemon_step E ev s of Some (Done s') \<Rightarrow> daemon_run E evs s' | _ \<Rightarrow> None)"

lemma daemon_run_path: "daemon_run E evs s = Some s' \<Longrightarrow> daemon_path E s evs s'"
proof (induction evs arbitrary: s)
  case (Cons ev evs)
  then obtain s1 where "daemon_step E ev s = Some (Done s1)" "daemon_run E evs s1 = Some s'"
    by (auto split: option.splits outcome.splits)
  with Cons.IH [of s1] daemon_path_trans [of E s1 evs s' s "[ev]"] show ?case
    by (simp add: daemon_path_one)
qed (auto intro: path_refl)

subsection \<open>Every message is delivered once and in order\<close>

definition pushed :: "string \<Rightarrow> 'j event list \<Rightarrow> 'j list" where
  "pushed room evs = concat (map (\<lambda>e. case e of EvPush r m \<Rightarrow> (if r = room then [m] else []) | _ \<Rightarrow> []) evs)"

definition delivered :: "string \<Rightarrow> (nat \<times> 'j request \<times> 'j response) list \<Rightarrow> 'j list" where
  "delivered room log =
     concat (map (\<lambda>(tid, req, r).
       case (req, r) of
         (ReqRecv rm _, RespMessages _ ms) \<Rightarrow> (if rm = room then ms else [])
       | _ \<Rightarrow> []) log)"

lemma pushed_simps [simp]:
  "pushed room [] = []" "pushed room (xs @ ys) = pushed room xs @ pushed room ys"
  "pushed room [e] = (case e of EvPush r m \<Rightarrow> (if r = room then [m] else []) | _ \<Rightarrow> [])"
  by (simp_all add: pushed_def)

lemma set_pushed: "set (pushed room evs) = {m. EvPush room m \<in> set evs}"
proof (induction evs)
  case (Cons e evs)
  have "pushed room (e # evs) = pushed room [e] @ pushed room evs"
    by (simp add: pushed_def)
  with Cons show ?case by (cases e) auto
qed simp

lemma delivered_simps [simp]:
  "delivered room [] = []" "delivered room (xs @ ys) = delivered room xs @ delivered room ys"
  "delivered room [(tid, req, r)] =
     (case (req, r) of (ReqRecv rm _, RespMessages _ ms) \<Rightarrow> (if rm = room then ms else []) | _ \<Rightarrow> [])"
  by (simp_all add: delivered_def)

text \<open>The invariant: the log of a room's deliveries is the part of its messages before the
  cursor, the messages are the pushes, and the rooms of waiting tasks exist.\<close>

fun task_room :: "'k task \<Rightarrow> string" where
  "task_room (TakeNotify r) = r"
| "task_room (LoopTop r) = r"
| "task_room (Waiting r k) = r"

definition daemon_inv :: "'j event list \<Rightarrow> ('j, 'n, 'k, 'h) daemon_state \<Rightarrow> bool" where
  "daemon_inv evs s \<longleftrightarrow>
     (\<forall>room r. map_of (d_rooms s) room = Some r \<longrightarrow>
        rs_cursor r \<le> length (pushed room evs) \<and> rs_messages r = pushed room evs \<and>
        delivered room (d_log s) = take (rs_cursor r) (pushed room evs)) \<and>
     (\<forall>tid t. map_of (d_tasks s) tid = Some t \<longrightarrow> task_room t \<in> dom (map_of (d_rooms s)))"

lemma daemon_invD:
  assumes "daemon_inv evs s" and "map_of (d_rooms s) room = Some r"
  shows "room_ok r" and "rs_messages r = pushed room evs"
    and "delivered room (d_log s) = take (rs_cursor r) (rs_messages r)"
  using assms by (auto simp: daemon_inv_def room_ok_def)

lemma daemon_inv_task: "daemon_inv evs s \<Longrightarrow> map_of (d_tasks s) tid = Some t \<Longrightarrow> \<exists>r. map_of (d_rooms s) (task_room t) = Some r"
  by (auto simp: daemon_inv_def)

definition fresh_rooms :: "('j, 'n, 'h) rooms \<Rightarrow> bool" where
  "fresh_rooms rooms \<longleftrightarrow> (\<forall>name r. map_of rooms name = Some r \<longrightarrow> rs_messages r = [] \<and> rs_cursor r = 0)"

lemma fresh_daemon_new: "fresh_rooms (daemon_new E cfg)"
  by (auto simp: fresh_rooms_def daemon_new_lookup room_state_new_def)

lemma fresh_store_handle: "fresh_rooms rooms \<Longrightarrow> fresh_rooms (store_handle name h rooms)"
  by (auto simp: fresh_rooms_def store_handle_def split: if_splits)

lemma daemon_inv_start: "daemon_inv [] (daemon_start E cfg spawned)"
proof -
  have "fresh_rooms m \<Longrightarrow> fresh_rooms (fold (\<lambda>(name, h). store_handle name h) hs m)" for hs m
    by (induction hs arbitrary: m) (auto intro: fresh_store_handle)
  from this [OF fresh_daemon_new, of spawned E cfg] show ?thesis
    by (auto simp: daemon_inv_def daemon_start_def fresh_rooms_def)
qed

text \<open>A critical section that drains, seen by the invariant.\<close>

lemma inv_drained:
  assumes inv: "daemon_inv evs s" and r: "map_of (d_rooms s) room = Some r"
  shows "daemon_inv evs (s\<lparr>d_rooms := AList.update room (r\<lparr>rs_cursor := length (rs_messages r)\<rparr>) (d_rooms s),
           d_tasks := AList.delete tid (d_tasks s),
           d_log := d_log s @ [(tid, ReqRecv room b, RespMessages ok (pending r))]\<rparr>)"
proof -
  have "delivered room (d_log s) @ pending r = rs_messages r"
    using daemon_invD [OF inv r] by (simp add: pending_def)
  with inv r show ?thesis
    by (auto simp: daemon_inv_def split: if_splits)
qed

lemma inv_reply:
  assumes "daemon_inv evs s" and "\<And>room. delivered room [(tid, req, r)] = []"
  shows "daemon_inv evs (s\<lparr>d_tasks := AList.delete tid (d_tasks s), d_log := d_log s @ [(tid, req, r)]\<rparr>)"
  using assms by (auto simp: daemon_inv_def simp del: delivered_simps(3))

lemma inv_handle:
  assumes "daemon_inv evs s" and "map_of (d_rooms s) room = Some r"
  shows "daemon_inv evs (s\<lparr>d_rooms := AList.update room (r\<lparr>rs_handle := h\<rparr>) (d_rooms s)\<rparr>)"
  using assms by (auto simp: daemon_inv_def)

lemma inv_task:
  assumes "daemon_inv evs s" and "task_room t \<in> dom (map_of (d_rooms s))"
  shows "daemon_inv evs (s\<lparr>d_tasks := AList.update tid t (d_tasks s)\<rparr>)"
  using assms by (auto simp: daemon_inv_def)

lemma inv_drained_nothing:
  assumes "daemon_inv evs s" and "map_of (d_rooms s) room = Some r" and "pending r = []" and "task_room t = room"
  shows "daemon_inv evs (s\<lparr>d_rooms := AList.update room (r\<lparr>rs_cursor := length (rs_messages r)\<rparr>) (d_rooms s),
           d_tasks := AList.update tid t (d_tasks s)\<rparr>)"
  using assms by (auto simp: daemon_inv_def pending_def split: if_splits)

lemma inv_push:
  assumes "daemon_inv evs s" and "map_of (d_rooms s) room = Some r"
  shows "daemon_inv (evs @ [EvPush room m]) (s\<lparr>d_rooms := AList.update room (room_push E r m) (d_rooms s)\<rparr>)"
  using assms by (auto simp: daemon_inv_def room_push_def intro: le_SucI split: if_splits)

lemma inv_no_push: "daemon_inv evs s \<Longrightarrow> (\<forall>r m. e \<noteq> EvPush r m) \<Longrightarrow> daemon_inv (evs @ [e]) s"
  by (cases e) (simp_all add: daemon_inv_def)

lemma delivered_not_recv:
  "(\<forall>rm b. req \<noteq> ReqRecv rm b) \<or> (\<forall>ok ms. r \<noteq> RespMessages ok ms) \<Longrightarrow> delivered room [(tid, req, r)] = []"
  by (cases req; cases r) auto

text \<open>The two critical sections that drain, and the answers of the others.\<close>

lemma dispatch_recv_inv:
  assumes inv: "daemon_inv evs s"
  shows "\<exists>s'. settle tid (ReqRecv room b) TakeNotify (dispatch E (ReqRecv room b) (d_rooms s)) s = Done s' \<and> daemon_inv evs s'"
proof (cases "map_of (d_rooms s) room")
  case None
  then show ?thesis
    using inv_reply [OF inv, of tid "ReqRecv room b" "response_error (room_not_found room)"]
    by (simp add: response_defs)
next
  case (Some r)
  note drained = inv_drained [OF inv Some, of tid b True]
  have "room_ok r" by (rule daemon_invD(1) [OF inv Some])
  show ?thesis
  proof (cases "\<not> b \<or> pending r \<noteq> []")
    case True
    with Some drained \<open>room_ok r\<close> show ?thesis by (simp add: drain_ok response_defs)
  next
    case False
    with Some inv_drained_nothing [OF inv Some, of "TakeNotify room" tid] \<open>room_ok r\<close> show ?thesis
      by (simp add: drain_ok)
  qed
qed

lemma dispatch_woken_inv:
  assumes inv: "daemon_inv evs s"
  shows "\<exists>s'. settle tid (ReqRecv room True) LoopTop (dispatch_woken room (d_rooms s)) s = Done s' \<and> daemon_inv evs s'"
proof (cases "map_of (d_rooms s) room")
  case None
  then show ?thesis
    using inv_reply [OF inv, of tid "ReqRecv room True" "response_error (room_not_found room)"]
    by (simp add: response_defs dispatch_woken_def)
next
  case (Some r)
  note drained = inv_drained [OF inv Some, of tid True True]
  have "room_ok r" by (rule daemon_invD(1) [OF inv Some])
  show ?thesis
  proof (cases "pending r = []")
    case False
    with Some drained \<open>room_ok r\<close> show ?thesis by (simp add: drain_ok response_defs dispatch_woken_def)
  next
    case True
    with Some inv_drained_nothing [OF inv Some, of "LoopTop room" tid] \<open>room_ok r\<close> show ?thesis
      by (simp add: drain_ok dispatch_woken_def)
  qed
qed

lemma dispatch_other_inv:
  assumes inv: "daemon_inv evs s" and req: "\<forall>rm b. req \<noteq> ReqRecv rm b"
  shows "\<exists>s'. settle tid req TakeNotify (dispatch E req (d_rooms s)) s = Done s' \<and> daemon_inv evs s'"
proof -
  have reply: "daemon_inv evs s1 \<Longrightarrow> daemon_inv evs (s1\<lparr>d_tasks := AList.delete tid (d_tasks s1), d_log := d_log s1 @ [(tid, req, r)]\<rparr>)" for s1 r
    by (rule inv_reply) (simp_all add: delivered_not_recv req del: delivered_simps(3))
  show ?thesis
  proof (cases req)
    case (ReqSend room payload)
    show ?thesis
    proof (cases "map_of (d_rooms s) room")
      case None
      with ReqSend reply [OF inv] show ?thesis by simp
    next
      case (Some r)
      show ?thesis
      proof (cases "rs_handle r")
        case None
        with Some ReqSend reply [OF inv] show ?thesis by simp
      next
        case (Some h)
        with \<open>map_of (d_rooms s) room = Some r\<close> ReqSend reply [OF inv_handle [OF inv \<open>map_of (d_rooms s) room = Some r\<close>]]
        show ?thesis by simp
      qed
    qed
  qed (use req reply [OF inv] in \<open>auto split: option.splits\<close>)
qed

lemma daemon_step_inv:
  assumes inv: "daemon_inv evs s" and step: "daemon_step E ev s = Some out"
  shows "\<exists>s'. out = Done s' \<and> daemon_inv (evs @ [ev]) s'"
proof (cases ev)
  case (EvPush room m)
  with step inv show ?thesis
    by (auto simp: forward_push_def inv_push split: option.splits)
next
  case (EvRequest tid req)
  with step have out: "out = settle tid req TakeNotify (dispatch E req (d_rooms s)) s"
    by (auto split: option.splits)
  show ?thesis
  proof (cases "\<exists>room b. req = ReqRecv room b")
    case True
    with dispatch_recv_inv [OF inv] out EvRequest show ?thesis
      by (fastforce intro: inv_no_push)
  next
    case False
    with dispatch_other_inv [OF inv, of req tid E] out EvRequest show ?thesis
      by (auto intro: inv_no_push)
  qed
next
  case (EvTakeNotify tid)
  with step inv obtain room where task: "map_of (d_tasks s) tid = Some (TakeNotify room)"
    by (auto split: option.splits task.splits)
  obtain r where "map_of (d_rooms s) room = Some r"
    using daemon_inv_task [OF inv task] by auto
  with step EvTakeNotify task inv_no_push [OF inv_task [OF inv, of "LoopTop room"]] show ?thesis by auto
next
  case (EvWait tid)
  with step show ?thesis
    by (auto split: option.splits task.splits intro!: inv_no_push inv_task inv)
next
  case (EvWake tid)
  with step obtain room where "out = settle tid (ReqRecv room True) LoopTop (dispatch_woken room (d_rooms s)) s"
    by (auto split: option.splits task.splits if_splits)
  with dispatch_woken_inv [OF inv, of tid room] EvWake show ?thesis
    by (auto intro: inv_no_push)
qed

lemma daemon_path_inv: "daemon_path E s evs' s' \<Longrightarrow> daemon_inv evs s \<Longrightarrow> daemon_inv (evs @ evs') s'"
  by (induction rule: daemon_path.induct) (auto simp flip: append_assoc dest: daemon_step_inv)

text \<open>C2: however connections and connectors interleave, no step panics, and the messages that
  receive requests on a room were answered with, in the order of the answers, followed by the
  messages still pending, are the messages the connector pushed, each once and in order.\<close>

theorem daemon_exactly_once:
  assumes "daemon_path E (daemon_start E cfg spawned) evs s"
  shows "(\<forall>room r. map_of (d_rooms s) room = Some r \<longrightarrow> delivered room (d_log s) @ pending r = pushed room evs) \<and>
    (\<forall>ev. daemon_step E ev s \<noteq> Some Panic)"
proof -
  have inv: "daemon_inv evs s"
    using daemon_path_inv [OF assms daemon_inv_start] by simp
  then show ?thesis
    by (auto dest: daemon_step_inv) (auto simp: daemon_inv_def pending_def)
qed

definition demo_env :: "(json, nat, nat, json list) daemon_env" where
  "demo_env = \<lparr>de_json = value_json, de_notify = count_notify, de_tx_send = (\<lambda>h p. h @ [p])\<rparr>"

definition demo_config :: "json config" where
  "demo_config = \<lparr>cfg_room = [\<lparr>rc_name = ''ops'', rc_connector = ''irc'', rc_options = JNull\<rparr>]\<rparr>"

definition demo_final :: "(json, nat, nat, json list) daemon_state" where
  "demo_final = \<lparr>d_rooms = [(''ops'', \<lparr>rs_config = \<lparr>rc_name = ''ops'', rc_connector = ''irc'', rc_options = JNull\<rparr>,
       rs_messages = [JInt 1, JInt 2], rs_cursor = 1, rs_notify = 2, rs_handle = Some []\<rparr>)],
     d_tasks = [], d_log = [(7, ReqRecv ''ops'' False, RespMessages True [JInt 1])]\<rparr>"

lemma demo_path:
  "daemon_path demo_env (daemon_start demo_env demo_config [(''ops'', [])])
     [EvPush ''ops'' (JInt 1), EvRequest 7 (ReqRecv ''ops'' False), EvPush ''ops'' (JInt 2)] demo_final"
  by (rule daemon_run_path)
    (simp add: demo_env_def demo_config_def demo_final_def daemon_start_def daemon_new_def store_handle_def
        map_modify_def room_state_new_def forward_push_def room_push_def count_notify_def drain_pending_def response_defs)

theorem daemon_exactly_once_witness:
  "delivered ''ops'' (d_log demo_final) @ [JInt 2] = [JInt 1, JInt 2]"
proof -
  have "pending (snd (hd (d_rooms demo_final))) = [JInt 2]"
    by (simp add: demo_final_def pending_def)
  then show ?thesis
    using daemon_exactly_once [OF demo_path] by (simp add: demo_final_def)
qed

subsection \<open>Waiting and waking\<close>

lemma dispatch_keeps_notify:
  "dispatch E req rooms = Done (d, rooms') \<Longrightarrow>
     map_option rs_notify (map_of rooms' room) = map_option rs_notify (map_of rooms room)"
  by (cases req) (auto simp: drain_pending_def split: option.splits if_splits)

lemma woken_keeps_notify:
  "dispatch_woken rm rooms = Done (d, rooms') \<Longrightarrow>
     map_option rs_notify (map_of rooms' room) = map_option rs_notify (map_of rooms room)"
  by (auto simp: dispatch_woken_def drain_pending_def split: option.splits if_splits)

lemma settle_Done:
  assumes "settle tid req wait out s = Done s'"
  shows "\<exists>d. out = Done (d, d_rooms s')" and "tid' \<noteq> tid \<Longrightarrow> map_of (d_tasks s') tid' = map_of (d_tasks s) tid'"
  using assms by (induction tid req wait out s rule: settle.induct) auto

text \<open>One step of anything but the waiting task itself: the task keeps waiting for its waiter and
  the room's \<^verbatim>\<open>Notify\<close> has been called once for a push to the room, else not at all.\<close>

lemma waiting_step:
  assumes step: "daemon_step E ev s = Some (Done s')"
    and task: "map_of (d_tasks s) tid = Some (Waiting room k)"
    and r: "map_of (d_rooms s) room = Some r" and ev: "ev \<noteq> EvWake tid"
  shows "map_of (d_tasks s') tid = Some (Waiting room k) \<and>
    (\<exists>r'. map_of (d_rooms s') room = Some r' \<and>
      rs_notify r' = (n_notify_waiters (de_notify E) ^^ length (pushed room [ev])) (rs_notify r))"
proof -
  have keep: "map_option rs_notify (map_of (d_rooms s1) room) = map_option rs_notify (map_of (d_rooms s) room) \<Longrightarrow>
      \<exists>r'. map_of (d_rooms s1) room = Some r' \<and> rs_notify r' = rs_notify r" for s1 :: "('a, 'b, 'c, 'd) daemon_state"
    using r by auto
  show ?thesis
  proof (cases ev)
    case (EvPush rm m)
    with step task r show ?thesis
      by (auto simp: forward_push_def room_push_def split: option.splits)
  next
    case (EvRequest t req)
    with step have "settle t req TakeNotify (dispatch E req (d_rooms s)) s = Done s'" and t: "t \<noteq> tid"
      using task by (auto split: option.splits)
    with settle_Done [OF this(1)] keep [of s'] task EvRequest show ?thesis
      by (auto dest!: dispatch_keeps_notify [where room = room])
  next
    case (EvTakeNotify t)
    with step task r show ?thesis by (auto split: option.splits task.splits)
  next
    case (EvWait t)
    with step task r show ?thesis by (auto split: option.splits task.splits)
  next
    case (EvWake t)
    with step ev obtain rm where "settle t (ReqRecv rm True) LoopTop (dispatch_woken rm (d_rooms s)) s = Done s'" and "t \<noteq> tid"
      by (auto split: option.splits task.splits if_splits)
    with settle_Done [OF this(1)] keep [of s'] task EvWake show ?thesis
      by (auto dest!: woken_keeps_notify [where room = room])
  qed
qed

lemma waiting_path:
  assumes "daemon_path E s evs s'" and "map_of (d_tasks s) tid = Some (Waiting room k)"
    and "map_of (d_rooms s) room = Some r" and "EvWake tid \<notin> set evs"
  shows "map_of (d_tasks s') tid = Some (Waiting room k) \<and>
    (\<exists>r'. map_of (d_rooms s') room = Some r' \<and>
      rs_notify r' = (n_notify_waiters (de_notify E) ^^ length (pushed room evs)) (rs_notify r))"
  using assms
proof (induction rule: daemon_path.induct)
  case (path_step s evs s' ev s'')
  then obtain r' where r': "map_of (d_tasks s') tid = Some (Waiting room k)" "map_of (d_rooms s') room = Some r'"
      "rs_notify r' = (n_notify_waiters (de_notify E) ^^ length (pushed room evs)) (rs_notify r)"
    by auto
  have "ev \<noteq> EvWake tid" using path_step.prems by auto
  from waiting_step [OF path_step.hyps(2) r'(1,2) this] r'(3) show ?case
    by (auto simp: funpow_add add.commute [of "length (pushed room evs)"] simp del: pushed_simps(3))
qed auto

lemma waiting_wake_iff:
  assumes N: "tokio_notify (de_notify E)" and path: "daemon_path E s evs s'"
    and task: "map_of (d_tasks s) tid = Some (Waiting room (n_notified (de_notify E) (rs_notify r)))"
    and r: "map_of (d_rooms s) room = Some r" and ev: "EvWake tid \<notin> set evs"
  shows "daemon_step E (EvWake tid) s' \<noteq> None \<longleftrightarrow> pushed room evs \<noteq> []"
proof -
  obtain r' where "map_of (d_tasks s') tid = Some (Waiting room (n_notified (de_notify E) (rs_notify r)))"
      "map_of (d_rooms s') room = Some r'"
      "rs_notify r' = (n_notify_waiters (de_notify E) ^^ length (pushed room evs)) (rs_notify r)"
    using waiting_path [OF path task r ev] by blast
  then show ?thesis
    by (simp add: tokio_notify.ready_iff [OF N])
qed

text \<open>C12: a blocking receive that has registered its waiter can go on exactly when a message has
  been pushed to its room since then; what other requests do in between does not matter, and
  neither do the messages that were pushed before.\<close>

theorem daemon_wakeup:
  assumes "tokio_notify (de_notify E)" and "daemon_step E (EvWait tid) s = Some (Done s1)"
    and "map_of (d_tasks s) tid = Some (LoopTop room)"
    and "daemon_path E s1 evs s2" and "EvWake tid \<notin> set evs"
  shows "daemon_step E (EvWake tid) s2 \<noteq> None \<longleftrightarrow> (\<exists>m. EvPush room m \<in> set evs)"
proof -
  from assms(2,3) obtain r where r: "map_of (d_rooms s) room = Some r"
      and s1: "s1 = s\<lparr>d_tasks := AList.update tid (Waiting room (n_notified (de_notify E) (rs_notify r))) (d_tasks s)\<rparr>"
    by (cases "map_of (d_rooms s) room") simp_all
  have "map_of (d_tasks s1) tid = Some (Waiting room (n_notified (de_notify E) (rs_notify r)))"
      "map_of (d_rooms s1) room = Some r"
    using r by (simp_all add: s1)
  from waiting_wake_iff [OF assms(1,4) this assms(5)]
  have "daemon_step E (EvWake tid) s2 \<noteq> None \<longleftrightarrow> pushed room evs \<noteq> []" .
  moreover have "pushed room evs \<noteq> [] \<longleftrightarrow> (\<exists>m. EvPush room m \<in> set evs)"
    using set_pushed [of room evs] by (metis empty_iff list.set(1) list.set_intros(1) mem_Collect_eq neq_Nil_conv)
  ultimately show ?thesis by simp
qed

text \<open>A blocking receive on the room \<^verbatim>\<open>ops\<close>, up to its waiter, then a push.\<close>

abbreviation demo_blocked :: "json event list" where
  "demo_blocked \<equiv> [EvRequest 7 (ReqRecv ''ops'' True), EvTakeNotify 7]"

abbreviation demo_looptop :: "(json, nat, nat, json list) daemon_state" where
  "demo_looptop \<equiv> \<lparr>d_rooms = [(''ops'', \<lparr>rs_config = \<lparr>rc_name = ''ops'', rc_connector = ''irc'', rc_options = JNull\<rparr>,
       rs_messages = [], rs_cursor = 0, rs_notify = 0, rs_handle = Some []\<rparr>)],
     d_tasks = [(7, LoopTop ''ops'')], d_log = []\<rparr>"

lemmas demo_defs =
  demo_env_def demo_config_def daemon_start_def daemon_new_def store_handle_def map_modify_def
  room_state_new_def forward_push_def room_push_def count_notify_def drain_pending_def response_defs

theorem daemon_wakeup_witness:
  "\<exists>s1 s2. daemon_step demo_env (EvWait 7) demo_looptop = Some (Done s1) \<and>
     daemon_path demo_env s1 [EvPush ''ops'' (JInt 3)] s2 \<and> daemon_step demo_env (EvWake 7) s2 \<noteq> None"
proof -
  have N: "tokio_notify (de_notify demo_env)"
    by (simp add: demo_env_def cn.tokio_notify_axioms)
  obtain s1 s2 where s: "daemon_step demo_env (EvWait 7) demo_looptop = Some (Done s1)"
      "daemon_run demo_env [EvPush ''ops'' (JInt 3)] s1 = Some s2"
    by (simp add: demo_defs)
  have "daemon_step demo_env (EvWake 7) s2 \<noteq> None \<longleftrightarrow> (\<exists>m. EvPush ''ops'' m \<in> set [EvPush ''ops'' (JInt 3)])"
    by (rule daemon_wakeup [OF N s(1) _ daemon_run_path [OF s(2)]]) simp_all
  with s daemon_run_path show ?thesis by fastforce
qed

text \<open>C13: a wakeup can be lost. From every reachable state in which a room has nothing pending and
  a connection is idle, a blocking receive of that connection that releases the mutex just
  before a push and creates its waiter just after it ends up waiting although the message is
  pending, and it stays so, unanswered, until something else is pushed to the room. The comment in
  the source says that taking the \<^verbatim>\<open>Notify\<close> first prevents this.\<close>

theorem daemon_lost_wakeup:
  assumes N: "tokio_notify (de_notify E)" and path: "daemon_path E (daemon_start E cfg spawned) evs s"
    and r: "map_of (d_rooms s) room = Some r" and empty: "pending r = []" and idle: "map_of (d_tasks s) tid = None"
  shows "\<exists>s' r'. daemon_path E s
      [EvRequest tid (ReqRecv room True), EvPush room m, EvTakeNotify tid, EvWait tid] s' \<and>
    map_of (d_rooms s') room = Some r' \<and> pending r' = [m] \<and> d_log s' = d_log s \<and>
    (\<forall>evs' s''. daemon_path E s' evs' s'' \<and> (\<forall>m'. EvPush room m' \<notin> set evs') \<and> EvWake tid \<notin> set evs' \<longrightarrow>
       map_of (d_tasks s'') tid \<noteq> None \<and> daemon_step E (EvWake tid) s'' = None)"
proof -
  have "room_ok r"
    using daemon_invD(1) [OF daemon_path_inv [OF path daemon_inv_start] r] .
  then have len: "rs_cursor r = length (rs_messages r)"
    using empty by (simp add: pending_def room_ok_def)
  define r2 where "r2 = room_push E r m"
  define n where "n = n_notified (de_notify E) (rs_notify r2)"
  define s1 where "s1 = s\<lparr>d_rooms := AList.update room r (d_rooms s), d_tasks := AList.update tid (TakeNotify room) (d_tasks s)\<rparr>"
  define s2 where "s2 = s1\<lparr>d_rooms := AList.update room r2 (d_rooms s1)\<rparr>"
  define s3 where "s3 = s2\<lparr>d_tasks := AList.update tid (LoopTop room) (d_tasks s2)\<rparr>"
  define s4 where "s4 = s3\<lparr>d_tasks := AList.update tid (Waiting room n) (d_tasks s3)\<rparr>"
  have same: "r\<lparr>rs_cursor := length (rs_messages r)\<rparr> = r"
    using len by (cases r) simp
  have "daemon_step E (EvRequest tid (ReqRecv room True)) s = Some (Done s1)"
    using r idle \<open>room_ok r\<close> empty by (simp add: s1_def drain_ok same)
  moreover have "daemon_step E (EvPush room m) s1 = Some (Done s2)"
    by (simp add: s2_def s1_def r2_def forward_push_def)
  moreover have "daemon_step E (EvTakeNotify tid) s2 = Some (Done s3)"
    by (simp add: s3_def s2_def s1_def)
  moreover have wait: "daemon_step E (EvWait tid) s3 = Some (Done s4)"
    by (simp add: s4_def s3_def s2_def s1_def n_def)
  ultimately have "daemon_run E [EvRequest tid (ReqRecv room True), EvPush room m, EvTakeNotify tid, EvWait tid] s = Some s4"
    by (simp only: daemon_run.simps option.case outcome.case)
  note run = daemon_run_path [OF this]
  have top: "map_of (d_tasks s3) tid = Some (LoopTop room)" by (simp add: s3_def)
  have here: "map_of (d_rooms s4) room = Some r2" "pending r2 = [m]" "d_log s4 = d_log s"
    "map_of (d_tasks s4) tid = Some (Waiting room n)"
    using len by (simp_all add: s4_def s3_def s2_def s1_def r2_def room_push_def pending_def)
  have "map_of (d_tasks s'') tid \<noteq> None \<and> daemon_step E (EvWake tid) s'' = None"
    if "daemon_path E s4 evs' s''" "\<forall>m'. EvPush room m' \<notin> set evs'" "EvWake tid \<notin> set evs'" for evs' s''
    using waiting_wake_iff [OF N that(1) _ here(1) that(3)] waiting_path [OF that(1) here(4,1) that(3)] here(4) that(2)
      set_pushed [of room evs'] by (auto simp: n_def)
  with run here show ?thesis by blast
qed

theorem daemon_lost_wakeup_witness:
  "\<exists>s' r'. daemon_path demo_env (daemon_start demo_env demo_config [(''ops'', [])])
      [EvRequest 7 (ReqRecv ''ops'' True), EvPush ''ops'' (JInt 3), EvTakeNotify 7, EvWait 7] s' \<and>
    map_of (d_rooms s') ''ops'' = Some r' \<and> pending r' = [JInt 3] \<and> daemon_step demo_env (EvWake 7) s' = None"
proof -
  let ?s = "daemon_start demo_env demo_config [(''ops'', [])]"
  obtain r where r: "map_of (d_rooms ?s) ''ops'' = Some r" "pending r = []"
    by (simp add: demo_defs pending_def)
  have N: "tokio_notify (de_notify demo_env)"
    by (simp add: demo_env_def cn.tokio_notify_axioms)
  have idle: "map_of (d_tasks ?s) 7 = None" by (simp add: daemon_start_def)
  show ?thesis
    using daemon_lost_wakeup [OF N path_refl r idle, of "JInt 3"] path_refl by fastforce
qed

end
