(* ===== verification/Room_System.thy ===== *)
theory Room_System
  imports Room_Select Daemon_Tasks
begin

section \<open>A room of the daemon from end to end\<close>

text \<open>
  The parts of \<^verbatim>\<open>daemon.rs\<close> and \<^verbatim>\<open>room.rs\<close> that \<open>Daemon_Tasks\<close> and \<open>Room_Select\<close> model one by one, put
  together for one room as \<^verbatim>\<open>Daemon::run\<close> and \<^verbatim>\<open>spawn_room\<close> do: the room task and the daemon are
  joined by two unbounded channels, one for the values the task pushes, which a task of its own
  forwards into the room's log, and one for the intents that send requests leave. The steps are
  the turns of the room task, the forwarding of one value, and every step of the daemon's
  connections and of its other rooms; a path is any interleaving of them. The other rooms are
  arbitrary pushes.

  A channel for intents is the list of all that was sent; what its receiver has taken is
  \<open>sy_given\<close>, a prefix. What is sent after the task has ended stays behind that prefix for ever,
  as the sender, whose result the daemon ignores, would have dropped it.
\<close>

record ('t, 'i, 'j, 'n, 'k) system =
  sy_daemon :: "('j, 'n, 'k, 'j list) daemon_state"
  sy_task :: "('t, 'i, 'j) room_task"
  sy_channel :: "'j list"
  sy_given :: "'j list"

datatype 'j system_event = SyRecv | SyDrop nat | SyIntent | SyForward | SyDaemon "'j event"

definition channel_send :: "'j list \<Rightarrow> 'j \<Rightarrow> 'j list" where
  "channel_send h p = h @ [p]"

text \<open>Spawning pushes the first snapshot before the task starts.\<close>

definition system_start ::
  "('j, 'n, 'k, 'j list) daemon_env \<Rightarrow> 'j config \<Rightarrow> (string \<times> 'j list) list \<Rightarrow> ('t, 'j) connection \<Rightarrow> 'j \<Rightarrow> 'i list
    \<Rightarrow> ('t, 'i, 'j, 'n, 'k) system" where
  "system_start E cfg spawned c first ins =
     \<lparr>sy_daemon = daemon_start E cfg spawned, sy_task = room_task_start c first ins, sy_channel = [first], sy_given = []\<rparr>"

text \<open>What the task pushed in a turn goes into the channel.\<close>

definition after_turn :: "('t, 'i, 'j) room_task \<Rightarrow> ('t, 'i, 'j, 'n, 'k) system \<Rightarrow> ('t, 'i, 'j, 'n, 'k) system" where
  "after_turn s' sy =
     sy\<lparr>sy_task := s', sy_channel := sy_channel sy @ drop (length (rt_pushed (sy_task sy))) (rt_pushed s')\<rparr>"

definition daemon_moves ::
  "('j, 'n, 'k, 'j list) daemon_env \<Rightarrow> 'j event \<Rightarrow> ('t, 'i, 'j, 'n, 'k) system \<Rightarrow> ('t, 'i, 'j, 'n, 'k) system option" where
  "daemon_moves E ev sy =
     (case daemon_step E ev (sy_daemon sy) of
        Some (Done d) \<Rightarrow> Some (sy\<lparr>sy_daemon := d\<rparr>)
      | _ \<Rightarrow> None)"

fun pushes_to :: "string \<Rightarrow> 'j event \<Rightarrow> bool" where
  "pushes_to room (EvPush rm m) \<longleftrightarrow> rm = room"
| "pushes_to room _ \<longleftrightarrow> False"

fun system_step ::
  "('j, 'n, 'k, 'j list) daemon_env \<Rightarrow> ('t, 'i, 'te, 'b, 'we, 'cj, 'o, 'j, 's, 'q) room_env
    \<Rightarrow> ('t \<Rightarrow> 'i list \<Rightarrow> ('t \<times> 'i list) list) \<Rightarrow> string \<Rightarrow> 'j system_event
    \<Rightarrow> ('t, 'i, 'j, 'n, 'k) system \<Rightarrow> ('t, 'i, 'j, 'n, 'k) system option" where
  "system_step E R points room SyRecv sy =
     map_option (\<lambda>s'. after_turn s' sy) (select_step R points (Sel SelRecv) (sy_task sy))"
| "system_step E R points room (SyDrop n) sy =
     map_option (\<lambda>s'. after_turn s' sy) (select_step R points (Drop n) (sy_task sy))"
| "system_step E R points room SyIntent sy =
     (case Option.bind (map_of (d_rooms (sy_daemon sy)) room) rs_handle of
        None \<Rightarrow> None
      | Some h \<Rightarrow>
          (case drop (length (sy_given sy)) h of
             [] \<Rightarrow> None
           | intent # _ \<Rightarrow>
               map_option (\<lambda>s'. after_turn s' (sy\<lparr>sy_given := sy_given sy @ [intent]\<rparr>))
                 (select_step R points (Sel (SelIntent intent)) (sy_task sy))))"
| "system_step E R points room SyForward sy =
     (case sy_channel sy of
        [] \<Rightarrow> None
      | m # ms \<Rightarrow> map_option (\<lambda>sy'. sy'\<lparr>sy_channel := ms\<rparr>) (daemon_moves E (EvPush room m) sy))"
| "system_step E R points room (SyDaemon ev) sy =
     (if pushes_to room ev then None else daemon_moves E ev sy)"

inductive system_path for E R points room where
  system_refl: "system_path E R points room sy [] sy"
| system_snoc: "system_path E R points room sy evs sy' \<Longrightarrow> system_step E R points room ev sy' = Some sy'' \<Longrightarrow>
    system_path E R points room sy (evs @ [ev]) sy''"

lemma system_path_one: "system_step E R points room ev sy = Some sy' \<Longrightarrow> system_path E R points room sy [ev] sy'"
  using system_snoc [OF system_refl, of E R points room ev sy sy'] by simp

lemma system_path_trans:
  "system_path E R points room s2 evs' s3 \<Longrightarrow> system_path E R points room s1 evs s2 \<Longrightarrow>
     system_path E R points room s1 (evs @ evs') s3"
  by (induction rule: system_path.induct) (auto simp flip: append_assoc intro: system_path.intros)

text \<open>To run concrete interleavings.\<close>

fun system_run where
  "system_run E R points room [] sy = Some sy"
| "system_run E R points room (ev # evs) sy =
     (case system_step E R points room ev sy of
        None \<Rightarrow> None
      | Some sy' \<Rightarrow> system_run E R points room evs sy')"

lemma system_run_path: "system_run E R points room evs sy = Some sy' \<Longrightarrow> system_path E R points room sy evs sy'"
proof (induction evs arbitrary: sy)
  case (Cons ev evs)
  then obtain s1 where "system_step E R points room ev sy = Some s1" "system_run E R points room evs s1 = Some sy'"
    by (auto split: option.splits)
  with Cons.IH [of s1] system_path_trans [of E R points room s1 evs sy' sy "[ev]"] show ?case
    by (simp add: system_path_one)
qed (auto intro: system_refl)

subsection \<open>The intents that the daemon accepted\<close>

definition posted :: "string \<Rightarrow> (nat \<times> 'j request \<times> 'j response) list \<Rightarrow> 'j list" where
  "posted room log =
     concat (map (\<lambda>(tid, req, r).
       case req of ReqSend rm p \<Rightarrow> (if rm = room \<and> r = response_sent then [p] else []) | _ \<Rightarrow> []) log)"

lemma posted_simps [simp]:
  "posted room [] = []" "posted room (xs @ ys) = posted room xs @ posted room ys"
  "posted room [(tid, req, r)] =
     (case req of ReqSend rm p \<Rightarrow> (if rm = room \<and> r = response_sent then [p] else []) | _ \<Rightarrow> [])"
  by (simp_all add: posted_def)

definition handle_holds :: "string \<Rightarrow> ('j, 'n, 'k, 'j list) daemon_state \<Rightarrow> bool" where
  "handle_holds room s \<longleftrightarrow> (\<exists>r. map_of (d_rooms s) room = Some r \<and> rs_handle r = Some (posted room (d_log s)))"

lemma drain_handle: "drain_pending r = Done (ms, r') \<Longrightarrow> rs_handle r' = rs_handle r"
  by (auto simp: drain_pending_def split: if_splits)

lemma recv_handle:
  assumes "(case map_of rooms rm of None \<Rightarrow> Done (Reply e, rooms)
      | Some s \<Rightarrow> bind_outcome (drain_pending s) (\<lambda>(msgs, s'). Done (g msgs, AList.update rm s' rooms))) = Done (d, rooms')"
    and "map_of rooms room = Some r"
  shows "\<exists>r'. map_of rooms' room = Some r' \<and> rs_handle r' = rs_handle r"
proof (cases "map_of rooms rm")
  case None
  with assms show ?thesis by simp
next
  case (Some s)
  with assms(1) obtain ms s' where "drain_pending s = Done (ms, s')" "rooms' = AList.update rm s' rooms"
    by (cases "drain_pending s") auto
  with Some assms(2) drain_handle [of s ms s'] show ?thesis by (cases "rm = room") auto
qed

lemma dispatch_handle:
  assumes "dispatch E req rooms = Done (d, rooms')" and "map_of rooms room = Some r" and "rs_handle r = Some h"
  shows "\<exists>r'. map_of rooms' room = Some r' \<and>
     rs_handle r' = Some (case req of ReqSend rm p \<Rightarrow> (if rm = room then de_tx_send E h p else h) | _ \<Rightarrow> h) \<and>
     (\<forall>p. req = ReqSend room p \<longrightarrow> d = Reply response_sent)"
proof (cases req)
  case (ReqRecv rm b)
  with recv_handle [OF assms(1) [unfolded ReqRecv dispatch.simps] assms(2)] assms(3) show ?thesis by simp
next
  case (ReqSend rm p)
  with assms show ?thesis by (auto split: option.splits)
qed (use assms in \<open>auto split: option.splits\<close>)

lemma woken_handle:
  assumes "dispatch_woken rm rooms = Done (d, rooms')" and "map_of rooms room = Some r"
  shows "\<exists>r'. map_of rooms' room = Some r' \<and> rs_handle r' = rs_handle r"
  by (rule recv_handle [OF assms(1) [unfolded dispatch_woken_def] assms(2)])

lemma settle_log:
  assumes "settle tid req wait (Done (d, rooms')) s = Done s'"
  shows "d_rooms s' = rooms' \<and> (case d of Reply r \<Rightarrow> d_log s' = d_log s @ [(tid, req, r)] | MustWait rm \<Rightarrow> d_log s' = d_log s)"
  using assms by (cases d) auto

lemma handle_holds_step:
  assumes tx: "de_tx_send E = channel_send" and holds: "handle_holds room s"
    and step: "daemon_step E ev s = Some (Done s')"
  shows "handle_holds room s'"
proof -
  from holds obtain r where r: "map_of (d_rooms s) room = Some r" "rs_handle r = Some (posted room (d_log s))"
    by (auto simp: handle_holds_def)
  show ?thesis
  proof (cases ev)
    case (EvPush rm m)
    with step r show ?thesis
      by (auto simp: handle_holds_def forward_push_def room_push_def split: option.splits)
  next
    case (EvRequest tid req)
    with step obtain d rooms' where d: "dispatch E req (d_rooms s) = Done (d, rooms')"
        "settle tid req TakeNotify (Done (d, rooms')) s = Done s'"
      by (cases "dispatch E req (d_rooms s)") (auto split: option.splits)
    from dispatch_handle [OF d(1) r] settle_log [OF d(2)] tx show ?thesis
      by (cases d; cases req) (auto simp: handle_holds_def channel_send_def)
  next
    case (EvWake tid)
    with step obtain rm d rooms' where d: "dispatch_woken rm (d_rooms s) = Done (d, rooms')"
        "settle tid (ReqRecv rm True) LoopTop (Done (d, rooms')) s = Done s'"
      by (auto split: option.splits task.splits if_splits) (metis settle.simps(1) outcome.exhaust outcome.distinct(1) surj_pair)
    from woken_handle [OF d(1) r(1)] settle_log [OF d(2)] r(2) show ?thesis
      by (cases d) (auto simp: handle_holds_def)
  qed (use step r in \<open>auto simp: handle_holds_def split: option.splits task.splits\<close>)
qed

subsection \<open>Nothing is lost between the room's service and its clients\<close>

lemma select_step_pushes:
  assumes "select_step R points x s = Some s'"
  shows "\<exists>vs. rt_pushed s' = rt_pushed s @ vs"
proof (cases x)
  case (Drop n)
  with assms show ?thesis by (auto simp: Let_def split: if_splits)
next
  case (Sel y)
  with assms room_step_pushes [of R y s s'] show ?thesis by auto
qed

definition system_inv ::
  "('j, 'n, 'k, 'j list) daemon_env \<Rightarrow> string \<Rightarrow> ('j, 'n, 'k, 'j list) daemon_state \<Rightarrow> ('t, 'i, 'j, 'n, 'k) system \<Rightarrow> bool" where
  "system_inv E room d sy \<longleftrightarrow>
     (\<exists>devs. daemon_path E d devs (sy_daemon sy) \<and> pushed room devs @ sy_channel sy = rt_pushed (sy_task sy)) \<and>
     handle_holds room (sy_daemon sy) \<and>
     (\<exists>queued. posted room (d_log (sy_daemon sy)) = sy_given sy @ queued)"

lemma system_inv_turn:
  assumes "system_inv E room d sy" and "select_step R points x (sy_task sy) = Some s'"
  shows "system_inv E room d (after_turn s' sy)"
proof -
  obtain vs where "rt_pushed s' = rt_pushed (sy_task sy) @ vs"
    using select_step_pushes [OF assms(2)] by blast
  with assms(1) show ?thesis
    by (auto simp: system_inv_def after_turn_def)
qed

lemma posted_step:
  "daemon_step E ev s = Some (Done s') \<Longrightarrow> \<exists>ps. posted room (d_log s') = posted room (d_log s) @ ps"
proof -
  have settled: "settle tid req wait out s = Done s' \<Longrightarrow> \<exists>l. d_log s' = d_log s @ l" for tid req wait out
    by (induction tid req wait out s rule: settle.induct) auto
  assume "daemon_step E ev s = Some (Done s')"
  then have "\<exists>l. d_log s' = d_log s @ l"
    by (cases ev) (auto split: option.splits task.splits if_splits intro: settled)
  then show ?thesis by auto
qed

lemma system_inv_daemon:
  assumes tx: "de_tx_send E = channel_send" and inv: "system_inv E room d sy" and step: "daemon_moves E ev sy = Some sy'"
    and ch: "pushed room [ev] @ ch = sy_channel sy"
  shows "system_inv E room d (sy'\<lparr>sy_channel := ch\<rparr>)"
proof -
  from step obtain s' where s': "daemon_step E ev (sy_daemon sy) = Some (Done s')" "sy' = sy\<lparr>sy_daemon := s'\<rparr>"
    by (auto simp: daemon_moves_def split: option.splits outcome.splits)
  from inv obtain devs queued where inv':
    "daemon_path E d devs (sy_daemon sy)" "pushed room devs @ sy_channel sy = rt_pushed (sy_task sy)"
    "handle_holds room (sy_daemon sy)" "posted room (d_log (sy_daemon sy)) = sy_given sy @ queued"
    by (auto simp: system_inv_def)
  obtain ps where "posted room (d_log s') = posted room (d_log (sy_daemon sy)) @ ps"
    using posted_step [OF s'(1)] by blast
  then have queued: "posted room (d_log s') = sy_given sy @ (queued @ ps)"
    by (simp add: inv'(4))
  have "daemon_path E d (devs @ [ev]) s'"
    by (rule path_step [OF inv'(1) s'(1)])
  moreover have "pushed room (devs @ [ev]) @ ch = rt_pushed (sy_task sy)"
    using inv'(2) ch by (simp del: pushed_simps(3))
  ultimately show ?thesis
    using handle_holds_step [OF tx inv'(3) s'(1)] queued unfolding system_inv_def s'(2) by auto
qed

lemma system_inv_step:
  assumes tx: "de_tx_send E = channel_send" and inv: "system_inv E room d sy"
    and step: "system_step E R points room ev sy = Some sy'"
  shows "system_inv E room d sy'"
proof (cases ev)
  case SyRecv
  with step inv show ?thesis by (auto intro: system_inv_turn simp del: select_step.simps)
next
  case (SyDrop n)
  with step inv show ?thesis by (auto intro: system_inv_turn simp del: select_step.simps)
next
  case SyIntent
  with step obtain h i rest s' where h: "Option.bind (map_of (d_rooms (sy_daemon sy)) room) rs_handle = Some h"
      "drop (length (sy_given sy)) h = i # rest"
      "select_step R points (Sel (SelIntent i)) (sy_task sy) = Some s'"
      "sy' = after_turn s' (sy\<lparr>sy_given := sy_given sy @ [i]\<rparr>)"
    by (auto split: option.splits list.splits simp del: select_step.simps)
  from inv h(1) have "h = posted room (d_log (sy_daemon sy))"
    by (auto simp: system_inv_def handle_holds_def)
  with inv h(2) have "system_inv E room d (sy\<lparr>sy_given := sy_given sy @ [i]\<rparr>)"
    by (auto simp: system_inv_def)
  with system_inv_turn [of E room d "sy\<lparr>sy_given := sy_given sy @ [i]\<rparr>" R points "Sel (SelIntent i)" s'] h(3,4)
  show ?thesis by simp
next
  case SyForward
  with step obtain m ms sy1 where "sy_channel sy = m # ms" "daemon_moves E (EvPush room m) sy = Some sy1"
      "sy' = sy1\<lparr>sy_channel := ms\<rparr>"
    by (auto split: list.splits)
  with system_inv_daemon [OF tx inv, of "EvPush room m" sy1 ms] show ?thesis by simp
next
  case (SyDaemon e)
  with step have move: "daemon_moves E e sy = Some sy'" and e: "\<not> pushes_to room e"
    by (auto split: if_splits)
  have "pushed room [e] = []" using e by (cases e) auto
  with system_inv_daemon [OF tx inv move, of "sy_channel sy"] move show ?thesis
    by (auto simp: daemon_moves_def split: option.splits outcome.splits)
qed

lemma system_inv_path:
  "system_path E R points room sy evs sy' \<Longrightarrow> de_tx_send E = channel_send \<Longrightarrow> system_inv E room d sy \<Longrightarrow> system_inv E room d sy'"
  by (induction rule: system_path.induct) (auto dest: system_inv_step)

lemma system_inv_start:
  assumes "map_of (d_rooms (daemon_start E cfg spawned)) room = Some r" and "rs_handle r = Some []"
  shows "system_inv E room (daemon_start E cfg spawned) (system_start E cfg spawned c first ins)"
proof -
  have "d_log (daemon_start E cfg spawned) = []"
    by (simp add: daemon_start_def)
  with assms have "handle_holds room (daemon_start E cfg spawned)"
    by (simp add: handle_holds_def)
  moreover have "daemon_path E (daemon_start E cfg spawned) [] (daemon_start E cfg spawned) \<and> pushed room [] @ [first] = [first]"
    by (simp add: path_refl)
  ultimately show ?thesis
    unfolding system_inv_def system_start_def room_task_start_def by auto
qed

lemma system_inv_room:
  assumes "system_inv E room (daemon_start E cfg spawned) sy"
  shows "\<exists>r. map_of (d_rooms (sy_daemon sy)) room = Some r \<and> room_ok r \<and>
    delivered room (d_log (sy_daemon sy)) @ pending r @ sy_channel sy = rt_pushed (sy_task sy) \<and>
    rs_handle r = Some (posted room (d_log (sy_daemon sy)))"
proof -
  from assms obtain devs r where
    p: "daemon_path E (daemon_start E cfg spawned) devs (sy_daemon sy)"
      "pushed room devs @ sy_channel sy = rt_pushed (sy_task sy)"
    and r: "map_of (d_rooms (sy_daemon sy)) room = Some r" "rs_handle r = Some (posted room (d_log (sy_daemon sy)))"
    by (auto simp: system_inv_def handle_holds_def)
  have inv: "daemon_inv devs (sy_daemon sy)"
    using daemon_path_inv [OF p(1) daemon_inv_start] by simp
  note d = daemon_invD [OF inv r(1)]
  have "delivered room (d_log (sy_daemon sy)) @ pending r = pushed room devs"
    using d by (simp add: pending_def)
  with p(2) have "delivered room (d_log (sy_daemon sy)) @ pending r @ sy_channel sy = rt_pushed (sy_task sy)"
    by (metis append_assoc)
  with r d(1) show ?thesis by blast
qed

text \<open>C3: for a room whose connector was spawned, under every interleaving of its task (receives, dropped
  receives, intents), of the forwarding task and of the daemon's connections, no step of the daemon
  panics, and what the clients' receive requests on the room were answered with, in the order of
  the answers, then the pending messages, then what is still in the channel, is what the room task
  has pushed, first snapshot included, each once and in order; and the intents that the task was
  given, in order, followed by those still queued are the payloads of the send requests that were
  answered with success.\<close>

theorem system_end_to_end:
  assumes "de_tx_send E = channel_send"
    and "map_of (d_rooms (daemon_start E cfg spawned)) room = Some r0" and "rs_handle r0 = Some []"
    and "system_path E R points room (system_start E cfg spawned c first ins) evs sy"
  shows "(\<exists>r. map_of (d_rooms (sy_daemon sy)) room = Some r \<and>
       delivered room (d_log (sy_daemon sy)) @ pending r @ sy_channel sy = rt_pushed (sy_task sy) \<and>
       rs_handle r = Some (posted room (d_log (sy_daemon sy)))) \<and>
    (\<exists>queued. sy_given sy @ queued = posted room (d_log (sy_daemon sy))) \<and>
    (\<forall>ev. daemon_step E ev (sy_daemon sy) \<noteq> Some Panic)"
proof -
  let ?d = "daemon_start E cfg spawned"
  have inv: "system_inv E room ?d sy"
    by (rule system_inv_path [OF assms(4,1) system_inv_start [OF assms(2,3)]])
  then obtain devs where "daemon_path E ?d devs (sy_daemon sy)"
    by (auto simp: system_inv_def)
  from daemon_path_inv [OF this daemon_inv_start] have "\<forall>ev. daemon_step E ev (sy_daemon sy) \<noteq> Some Panic"
    by (auto dest: daemon_step_inv)
  moreover have "\<exists>queued. sy_given sy @ queued = posted room (d_log (sy_daemon sy))"
    using inv by (auto simp: system_inv_def)
  ultimately show ?thesis
    using system_inv_room [OF inv] by blast
qed

subsection \<open>A client can always catch up\<close>

lemma forward_one:
  assumes "map_of (d_rooms (sy_daemon sy)) room = Some r" and "sy_channel sy = m # ms"
  obtains sy' r' where "system_step E R points room SyForward sy = Some sy'" "sy_channel sy' = ms"
    "sy_task sy' = sy_task sy" "d_log (sy_daemon sy') = d_log (sy_daemon sy)" "d_tasks (sy_daemon sy') = d_tasks (sy_daemon sy)"
    "map_of (d_rooms (sy_daemon sy')) room = Some r'"
  using assms that by (auto simp: daemon_moves_def forward_push_def)

lemma forward_all:
  "map_of (d_rooms (sy_daemon sy)) room = Some r \<Longrightarrow>
     \<exists>sy' r'. system_path E R points room sy (replicate (length (sy_channel sy)) SyForward) sy' \<and> sy_channel sy' = [] \<and>
       sy_task sy' = sy_task sy \<and> d_log (sy_daemon sy') = d_log (sy_daemon sy) \<and>
       d_tasks (sy_daemon sy') = d_tasks (sy_daemon sy) \<and> map_of (d_rooms (sy_daemon sy')) room = Some r'"
proof (induction "sy_channel sy" arbitrary: sy r)
  case Nil
  then have "system_path E R points room sy (replicate (length (sy_channel sy)) SyForward) sy"
    by (metis list.size(3) replicate_0 system_refl)
  with Nil show ?case by (intro exI [of _ sy] exI [of _ r]) simp
next
  case (Cons m ms)
  from forward_one [OF Cons.prems Cons.hyps(2) [symmetric], of E R points] obtain s1 r1 where
    s1: "system_step E R points room SyForward sy = Some s1" "sy_channel s1 = ms"
      "sy_task s1 = sy_task sy" "d_log (sy_daemon s1) = d_log (sy_daemon sy)" "d_tasks (sy_daemon s1) = d_tasks (sy_daemon sy)"
      "map_of (d_rooms (sy_daemon s1)) room = Some r1" .
  from Cons.hyps(1) [OF s1(2) [symmetric] s1(6)] obtain sy' r' where
    rest: "system_path E R points room s1 (replicate (length ms) SyForward) sy'" "sy_channel sy' = []"
      "sy_task sy' = sy_task s1" "d_log (sy_daemon sy') = d_log (sy_daemon s1)"
      "d_tasks (sy_daemon sy') = d_tasks (sy_daemon s1)" "map_of (d_rooms (sy_daemon sy')) room = Some r'"
    using s1(2) by blast
  from system_path_trans [OF rest(1) system_path_one [OF s1(1)]]
  have "system_path E R points room sy (replicate (length (sy_channel sy)) SyForward) sy'"
    by (simp add: Cons.hyps(2) [symmetric])
  with rest s1 show ?case by (intro exI [of _ sy'] exI [of _ r']) simp
qed

text \<open>C14: from every state that such a room reaches, when a connection has no request in progress and
  the forwarding task has moved what is in the channel, one receive request of that connection is
  answered at once, and with its answer the room's clients have together been given everything that
  the room task has pushed so far, whether or not the task still runs.\<close>

theorem system_catches_up:
  assumes "de_tx_send E = channel_send"
    and "map_of (d_rooms (daemon_start E cfg spawned)) room = Some r0" and "rs_handle r0 = Some []"
    and "system_path E R points room (system_start E cfg spawned c first ins) evs sy"
    and "map_of (d_tasks (sy_daemon sy)) tid = None"
  shows "\<exists>sy' ms. system_path E R points room sy
      (replicate (length (sy_channel sy)) SyForward @ [SyDaemon (EvRequest tid (ReqRecv room blocking))]) sy' \<and>
    (ms \<noteq> [] \<or> \<not> blocking \<longrightarrow> d_log (sy_daemon sy') = d_log (sy_daemon sy) @ [(tid, ReqRecv room blocking, response_messages ms)]) \<and>
    delivered room (d_log (sy_daemon sy)) @ ms = rt_pushed (sy_task sy) \<and> sy_channel sy' = [] \<and> sy_task sy' = sy_task sy"
proof -
  note inv = system_inv_path [OF assms(4,1) system_inv_start [OF assms(2,3)]]
  from system_inv_room [OF inv] obtain r where "map_of (d_rooms (sy_daemon sy)) room = Some r" by blast
  from forward_all [OF this, of E R points] obtain s1 r1 where
    s1: "system_path E R points room sy (replicate (length (sy_channel sy)) SyForward) s1" "sy_channel s1 = []"
      "sy_task s1 = sy_task sy" "d_log (sy_daemon s1) = d_log (sy_daemon sy)" "d_tasks (sy_daemon s1) = d_tasks (sy_daemon sy)"
      "map_of (d_rooms (sy_daemon s1)) room = Some r1" by blast
  note inv1 = system_inv_path [OF s1(1) assms(1) inv]
  from system_inv_room [OF inv1] s1(2,3,4,6)
  have r1: "room_ok r1" "delivered room (d_log (sy_daemon sy)) @ pending r1 = rt_pushed (sy_task sy)"
    by auto
  have idle: "map_of (d_tasks (sy_daemon s1)) tid = None"
    using assms(5) s1(5) by simp
  obtain d where d: "daemon_step E (EvRequest tid (ReqRecv room blocking)) (sy_daemon s1) = Some (Done d)"
      "pending r1 \<noteq> [] \<or> \<not> blocking \<longrightarrow>
         d_log d = d_log (sy_daemon sy) @ [(tid, ReqRecv room blocking, response_messages (pending r1))]"
    using idle s1(4,6) r1(1) by (cases "pending r1 \<noteq> [] \<or> \<not> blocking") (auto simp: drain_ok)
  have "system_step E R points room (SyDaemon (EvRequest tid (ReqRecv room blocking))) s1 = Some (s1\<lparr>sy_daemon := d\<rparr>)"
    using d(1) by (simp add: daemon_moves_def)
  from system_path_trans [OF system_path_one [OF this] s1(1)] d(2) r1(2) s1(2,3) show ?thesis
    by (intro exI [of _ "s1\<lparr>sy_daemon := d\<rparr>"] exI [of _ "pending r1"]) simp
qed

text \<open>A room behind a web socket: it pushes its first snapshot and one more, the first is forwarded, a
  client sends an intent and receives, and the task takes the intent.\<close>

definition relay_env :: "(json, nat, nat, json list) daemon_env" where
  "relay_env = \<lparr>de_json = value_json, de_notify = count_notify, de_tx_send = channel_send\<rparr>"

abbreviation relay_start :: "(unit, unit ws_item, json, nat, nat) system" where
  "relay_start \<equiv> system_start relay_env demo_config [(''ops'', [])] (established () demo_manifest) JNull [WsText [1]]"

abbreviation relay_points :: "unit \<Rightarrow> unit ws_item list \<Rightarrow> (unit \<times> unit ws_item list) list" where
  "relay_points \<equiv> \<lambda>t ins. [(t, ins)]"

definition relay_events :: "json system_event list" where
  "relay_events =
     [SyDrop 0, SyRecv, SyForward, SyDaemon (EvRequest 1 (ReqSend ''ops'' (JInt 7))),
      SyDaemon (EvRequest 2 (ReqRecv ''ops'' False)), SyIntent]"

lemma relay_run:
  "map_option (\<lambda>sy. (sy_channel sy, sy_given sy, rt_pushed (sy_task sy), d_tasks (sy_daemon sy), d_log (sy_daemon sy)))
     (system_run relay_env demo_room_env relay_points ''ops'' relay_events relay_start) =
   Some ([JInt 42], [JInt 7], [JNull, JInt 42], [],
     [(1, ReqSend ''ops'' (JInt 7), RespSent True), (2, ReqRecv ''ops'' False, RespMessages True [JNull])])"
  by code_simp

lemma relay_room:
  obtains r where "map_of (d_rooms (daemon_start relay_env demo_config [(''ops'', [])])) ''ops'' = Some r" "rs_handle r = Some []"
  by (simp add: daemon_start_def daemon_new_def demo_config_def store_handle_def map_modify_def room_state_new_def)

lemma relay_tx: "de_tx_send relay_env = channel_send"
  by (simp add: relay_env_def)

theorem system_end_to_end_witness:
  "\<exists>sy. system_path relay_env demo_room_env relay_points ''ops'' relay_start relay_events sy \<and>
     sy_channel sy = [JInt 42] \<and>
     (\<exists>r. map_of (d_rooms (sy_daemon sy)) ''ops'' = Some r \<and> pending r = [] \<and> rs_handle r = Some [JInt 7])"
proof -
  obtain sy where run: "system_run relay_env demo_room_env relay_points ''ops'' relay_events relay_start = Some sy"
      and sy: "sy_channel sy = [JInt 42]" "rt_pushed (sy_task sy) = [JNull, JInt 42]"
      "d_log (sy_daemon sy) = [(1, ReqSend ''ops'' (JInt 7), RespSent True), (2, ReqRecv ''ops'' False, RespMessages True [JNull])]"
    using relay_run by auto
  obtain r0 where r0: "map_of (d_rooms (daemon_start relay_env demo_config [(''ops'', [])])) ''ops'' = Some r0" "rs_handle r0 = Some []"
    by (rule relay_room)
  from system_end_to_end [OF relay_tx r0 system_run_path [OF run]] obtain r where
    "map_of (d_rooms (sy_daemon sy)) ''ops'' = Some r"
    "delivered ''ops'' (d_log (sy_daemon sy)) @ pending r @ sy_channel sy = rt_pushed (sy_task sy)"
    "rs_handle r = Some (posted ''ops'' (d_log (sy_daemon sy)))" by blast
  with sy system_run_path [OF run] show ?thesis
    by (intro exI [of _ sy]) (simp add: response_defs delivered_def posted_def)
qed

theorem system_catches_up_witness:
  "\<exists>sy evs sy'. system_path relay_env demo_room_env relay_points ''ops'' relay_start relay_events sy \<and>
     system_path relay_env demo_room_env relay_points ''ops'' sy evs sy' \<and>
     d_log (sy_daemon sy') = d_log (sy_daemon sy) @ [(3, ReqRecv ''ops'' False, RespMessages True [JInt 42])]"
proof -
  obtain sy where run: "system_run relay_env demo_room_env relay_points ''ops'' relay_events relay_start = Some sy"
      and sy: "rt_pushed (sy_task sy) = [JNull, JInt 42]" "d_tasks (sy_daemon sy) = []"
      "d_log (sy_daemon sy) = [(1, ReqSend ''ops'' (JInt 7), RespSent True), (2, ReqRecv ''ops'' False, RespMessages True [JNull])]"
    using relay_run by auto
  obtain r0 where r0: "map_of (d_rooms (daemon_start relay_env demo_config [(''ops'', [])])) ''ops'' = Some r0" "rs_handle r0 = Some []"
    by (rule relay_room)
  have "map_of (d_tasks (sy_daemon sy)) 3 = None" using sy by simp
  from system_catches_up [OF relay_tx r0 system_run_path [OF run] this, of False] obtain sy' ms where
    path: "system_path relay_env demo_room_env relay_points ''ops'' sy
      (replicate (length (sy_channel sy)) SyForward @ [SyDaemon (EvRequest 3 (ReqRecv ''ops'' False))]) sy'"
    and log: "d_log (sy_daemon sy') = d_log (sy_daemon sy) @ [(3, ReqRecv ''ops'' False, response_messages ms)]"
    and "delivered ''ops'' (d_log (sy_daemon sy)) @ ms = rt_pushed (sy_task sy)" by blast
  with sy have "ms = [JInt 42]" by (simp add: delivered_def)
  with log path system_run_path [OF run] show ?thesis
    by (intro exI conjI) (auto simp: response_defs)
qed

end
