(* ===== verification/Irc.thy ===== *)
theory Irc
  imports Client
begin

section \<open>The IRC connector\<close>

text \<open>
  \<^verbatim>\<open>crates/connectors/interconnect-connector-irc/src\<close>: types, registration, the transport. The
  inputs are what the line reader yields, a line with the clock at its arrival; the writer is
  the list of strings written so far and a parameter \<open>wr\<close> that says whether the next write
  succeeds. Sequence numbers are 64-bit words.
\<close>

record irc_message =
  irc_nick :: string
  irc_text :: string
  irc_timestamp :: nat

record irc_snapshot =
  irc_snap_channel :: string
  irc_snap_server :: string
  irc_snap_messages :: "irc_message list"

datatype irc_intent = IrcSendMessage string

datatype ('io, 'cj) irc_error = IrcIo 'io | IrcJson 'cj | IrcProtocol string | IrcClosed

datatype 'io irc_item = IrcLine string nat | IrcEof | IrcReadErr 'io

record irc_transport =
  irc_writer :: "string list"
  irc_channel :: string
  irc_server :: string
  irc_messages :: "irc_message list"
  irc_seq :: u64

fun irc_intent_fields :: "'j json_ops \<Rightarrow> irc_intent \<Rightarrow> (string \<times> 'j) list" where
  "irc_intent_fields J (IrcSendMessage text) = tagged J ''send_message'' [(''text'', j_str J text)]"

definition irc_max_messages :: nat where
  "irc_max_messages = 50"

definition irc_current_snapshot :: "irc_transport \<Rightarrow> irc_snapshot" where
  "irc_current_snapshot t =
     \<lparr>irc_snap_channel = irc_channel t, irc_snap_server = irc_server t, irc_snap_messages = irc_messages t\<rparr>"

definition irc_push_message :: "irc_transport \<Rightarrow> irc_message \<Rightarrow> irc_transport" where
  "irc_push_message t m = t\<lparr>irc_messages := push_bounded irc_max_messages (irc_messages t) m\<rparr>"

abbreviation crlf :: string where
  "crlf \<equiv> [CHR 0x0D, CHR 0x0A]"

definition irc_write :: "(string list \<Rightarrow> string \<Rightarrow> 'io + unit) \<Rightarrow> string list \<Rightarrow> string \<Rightarrow> ('io + unit) \<times> string list" where
  "irc_write wr w s = (case wr w s of Inl e \<Rightarrow> (Inl e, w) | Inr u \<Rightarrow> (Inr u, w @ [s]))"

definition irc_send_raw ::
  "(string list \<Rightarrow> string \<Rightarrow> 'io + unit) \<Rightarrow> irc_transport \<Rightarrow> string \<Rightarrow> ('io + unit) \<times> irc_transport" where
  "irc_send_raw wr t line =
     (case irc_write wr (irc_writer t) (line @ crlf) of (r, w) \<Rightarrow> (r, t\<lparr>irc_writer := w\<rparr>))"

definition parse_nick :: "string \<Rightarrow> string" where
  "parse_nick prefix = (case split_once (CHR ''!'') prefix of None \<Rightarrow> prefix | Some (a, _) \<Rightarrow> a)"

text \<open>\<^verbatim>\<open>splitn(2, " :")\<close>.\<close>

fun split_trailing :: "string \<Rightarrow> string \<times> string option" where
  "split_trailing (x # y # s) =
     (if x = CHR '' '' \<and> y = CHR '':'' then ([], Some s)
      else (case split_trailing (y # s) of (a, b) \<Rightarrow> (x # a, b)))"
| "split_trailing s = (s, None)"

text \<open>The two pieces of \<^verbatim>\<open>splitn(2, ' ')\<close>, the second one empty when it is missing.\<close>

definition split_word :: "string \<Rightarrow> string \<times> string" where
  "split_word s = (case split_once (CHR '' '') s of None \<Rightarrow> (s, []) | Some p \<Rightarrow> p)"

datatype irc_line = IrcPing string | IrcPrivmsg string string | IrcOther

definition irc_classify :: "string \<Rightarrow> string \<Rightarrow> irc_line" where
  "irc_classify channel line =
     (case strip_prefix ''PING '' line of
        Some rest \<Rightarrow> IrcPing rest
      | None \<Rightarrow>
          (let (prefix, rest) =
             (case strip_prefix '':'' line of
                Some stripped \<Rightarrow> (case split_word stripped of (pfx, r) \<Rightarrow> (Some pfx, r))
              | None \<Rightarrow> (None, line));
             (command, params) = split_word rest
           in if command = ''PRIVMSG'' then
                (let (target, text) = split_trailing params in
                 if \<not> eq_ignore_case (trim target) channel then IrcOther
                 else IrcPrivmsg (case prefix of None \<Rightarrow> [] | Some p \<Rightarrow> parse_nick p)
                        (case text of None \<Rightarrow> [] | Some x \<Rightarrow> x))
              else IrcOther))"

definition irc_send ::
  "(string list \<Rightarrow> string \<Rightarrow> 'io + unit) \<Rightarrow> ('b \<Rightarrow> 'cj + irc_intent client_wire) \<Rightarrow> irc_transport \<Rightarrow> 'b
    \<Rightarrow> (('io, 'cj) irc_error + unit) \<times> irc_transport" where
  "irc_send wr dec t data =
     (case dec data of
        Inl e \<Rightarrow> (Inl (IrcJson e), t)
      | Inr (Intent (IrcSendMessage text)) \<Rightarrow>
          (case irc_send_raw wr t (''PRIVMSG '' @ irc_channel t @ '' :'' @ text) of
             (Inl e, t') \<Rightarrow> (Inl (IrcIo e), t')
           | (Inr u, t') \<Rightarrow> (Inr u, t'))
      | Inr _ \<Rightarrow> (Inr (), t))"

text \<open>One turn of the receive loop, and the loop.\<close>

fun irc_turn ::
  "(string list \<Rightarrow> string \<Rightarrow> 'io + unit) \<Rightarrow> (('j, irc_snapshot) server_wire \<Rightarrow> 'cj + 'b)
    \<Rightarrow> irc_transport \<Rightarrow> 'io irc_item \<Rightarrow> (('io, 'cj) irc_error, 'b, irc_transport) turn" where
  "irc_turn wr enc t IrcEof = Return Closed t"
| "irc_turn wr enc t (IrcReadErr e) = Return (Failed (IrcIo e)) t"
| "irc_turn wr enc t (IrcLine line now) =
     (case irc_classify (irc_channel t) (trim_end (CHR 0x0D) line) of
        IrcPing rest \<Rightarrow>
          (case irc_send_raw wr t (''PONG '' @ rest) of
             (Inl e, t') \<Rightarrow> Return (Failed (IrcIo e)) t'
           | (Inr _, t') \<Rightarrow> Continue t')
      | IrcOther \<Rightarrow> Continue t
      | IrcPrivmsg nick text \<Rightarrow>
          (let t' = irc_push_message t \<lparr>irc_nick = nick, irc_text = text, irc_timestamp = now\<rparr>
           in Return (emit enc IrcJson (Snapshot (irc_seq t') (irc_current_snapshot t')))
                (t'\<lparr>irc_seq := irc_seq t' + 1\<rparr>)))"

definition irc_recv ::
  "(string list \<Rightarrow> string \<Rightarrow> 'io + unit) \<Rightarrow> (('j, irc_snapshot) server_wire \<Rightarrow> 'cj + 'b)
    \<Rightarrow> irc_transport \<Rightarrow> 'io irc_item list
    \<Rightarrow> (('io, 'cj) irc_error, 'b) polled \<times> irc_transport \<times> 'io irc_item list" where
  "irc_recv wr enc = recv_loop (irc_turn wr enc)"

lemmas irc_defs =
  irc_push_message_def irc_current_snapshot_def irc_send_raw_def irc_write_def irc_max_messages_def

subsection \<open>Connecting\<close>

text \<open>Registration waits for the numeric 001 in the second word of a line.\<close>

definition irc_welcome :: "string \<Rightarrow> bool" where
  "irc_welcome line \<longleftrightarrow>
     (case split_once (CHR '' '') line of
        None \<Rightarrow> False
      | Some (_, rest) \<Rightarrow> fst (split_word rest) = ''001'')"

fun irc_register ::
  "(string list \<Rightarrow> string \<Rightarrow> 'io + unit) \<Rightarrow> string list \<Rightarrow> 'io irc_item list
    \<Rightarrow> (('io, 'cj) irc_error, unit) polled \<times> string list \<times> 'io irc_item list" where
  "irc_register wr w [] = (Pending, w, [])"
| "irc_register wr w (IrcEof # ins) = (Failed (IrcProtocol ''connection closed before welcome''), w, ins)"
| "irc_register wr w (IrcReadErr e # ins) = (Failed (IrcIo e), w, ins)"
| "irc_register wr w (IrcLine line now # ins) =
     (let l = trim_end (CHR 0x0D) line in
      case strip_prefix ''PING '' l of
        Some rest \<Rightarrow>
          (case irc_write wr w (''PONG '' @ rest @ crlf) of
             (Inl e, w') \<Rightarrow> (Failed (IrcIo e), w', ins)
           | (Inr _, w') \<Rightarrow> irc_register wr w' ins)
      | None \<Rightarrow> if irc_welcome l then (Frame (), w, ins) else irc_register wr w ins)"

definition irc_manifest :: "'j json_ops \<Rightarrow> string \<Rightarrow> string \<Rightarrow> 'j manifest" where
  "irc_manifest J server channel =
     \<lparr>m_identity = identity_local (''irc:'' @ server @ channel), m_name = channel, m_substrate = None,
      m_metadata = j_obj J [(''type'', j_str J ''irc''), (''server'', j_str J server), (''channel'', j_str J channel)]\<rparr>"

definition irc_connect ::
  "'j json_ops \<Rightarrow> (string \<Rightarrow> nat \<Rightarrow> 'io + unit) \<Rightarrow> (string list \<Rightarrow> string \<Rightarrow> 'io + unit)
    \<Rightarrow> string \<Rightarrow> nat \<Rightarrow> string \<Rightarrow> string \<Rightarrow> 'io irc_item list
    \<Rightarrow> (('io, 'cj) irc_error, (irc_transport, 'j) connection \<times> irc_snapshot) polled \<times> 'io irc_item list" where
  "irc_connect J tcp wr server port nick channel ins =
     (case tcp server port of
        Inl e \<Rightarrow> (Failed (IrcIo e), ins)
      | Inr _ \<Rightarrow>
          (case irc_write wr [] (''NICK '' @ nick @ crlf) of
             (Inl e, _) \<Rightarrow> (Failed (IrcIo e), ins)
           | (Inr _, w1) \<Rightarrow>
               (case irc_write wr w1 (''USER '' @ nick @ '' 0 * :Interconnect IRC Connector'' @ crlf) of
                  (Inl e, _) \<Rightarrow> (Failed (IrcIo e), ins)
                | (Inr _, w2) \<Rightarrow>
                    (case irc_register wr w2 ins of
                       (Frame _, w3, rest) \<Rightarrow>
                         (case irc_write wr w3 (''JOIN '' @ channel @ crlf) of
                            (Inl e, _) \<Rightarrow> (Failed (IrcIo e), rest)
                          | (Inr _, w4) \<Rightarrow>
                              (let t = \<lparr>irc_writer = w4, irc_channel = channel, irc_server = server,
                                        irc_messages = [], irc_seq = 0\<rparr>
                               in (Frame (established t (irc_manifest J server channel), irc_current_snapshot t), rest)))
                     | (Failed e, _, rest) \<Rightarrow> (Failed e, rest)
                     | (Closed, _, rest) \<Rightarrow> (Closed, rest)
                     | (Pending, _, rest) \<Rightarrow> (Pending, rest)))))"

subsection \<open>The contracts\<close>

text \<open>The message that a line adds to the room.\<close>

fun irc_accept :: "irc_transport \<Rightarrow> 'io irc_item \<Rightarrow> irc_message list" where
  "irc_accept t (IrcLine line now) =
     (case irc_classify (irc_channel t) (trim_end (CHR 0x0D) line) of
        IrcPrivmsg nick text \<Rightarrow> [\<lparr>irc_nick = nick, irc_text = text, irc_timestamp = now\<rparr>]
      | _ \<Rightarrow> [])"
| "irc_accept t _ = []"

lemma irc_send_raw_keeps:
  "irc_send_raw wr t l = (r, t') \<Longrightarrow>
     irc_channel t' = irc_channel t \<and> irc_messages t' = irc_messages t \<and> irc_seq t' = irc_seq t \<and> irc_server t' = irc_server t"
  by (auto simp: irc_send_raw_def split: prod.splits)

lemma irc_turn_channel: "irc_channel (turn_state (irc_turn wr enc t x)) = irc_channel t"
  by (cases x)
    (auto simp: Let_def irc_push_message_def dest: irc_send_raw_keeps split: irc_line.splits prod.splits sum.splits)

lemma irc_accept_channel: "irc_channel t' = irc_channel t \<Longrightarrow> irc_accept t' = irc_accept t"
proof (rule ext)
  fix x :: "'a irc_item"
  assume "irc_channel t' = irc_channel t"
  then show "irc_accept t' x = irc_accept t x" by (cases x) simp_all
qed

interpretation irc: turn_sequenced "irc_turn wr enc" enc irc_seq irc_current_snapshot
proof unfold_locales
  fix t x b t'
  show "irc_turn wr enc t x = Return (Frame b) t' \<Longrightarrow> enc (Snapshot (irc_seq t' - 1) (irc_current_snapshot t')) = Inr b"
    by (cases x) (auto simp: Let_def irc_current_snapshot_def split: irc_line.splits prod.splits sum.splits)
  show "irc_turn wr enc t x = Return (Frame b) t' \<Longrightarrow> irc_seq t' = irc_seq t + 1"
    by (cases x) (auto simp: Let_def irc_push_message_def split: irc_line.splits prod.splits sum.splits)
  show "irc_turn wr enc t x = Continue t' \<Longrightarrow> irc_seq t' = irc_seq t"
    by (cases x) (auto simp: Let_def dest: irc_send_raw_keeps split: irc_line.splits prod.splits sum.splits)
qed

interpretation irc_window: window_room irc_messages irc_push_message irc_max_messages
  by unfold_locales (simp add: irc_push_message_def)

lemma irc_turn_messages:
  "irc_messages (turn_state (irc_turn wr enc t x)) =
     fold (\<lambda>m b. push_bounded irc_max_messages b m) (irc_accept t x) (irc_messages t)"
proof (cases x)
  case (IrcLine line now)
  then show ?thesis
  proof (cases "irc_classify (irc_channel t) (trim_end (CHR 0x0D) line)")
    case (IrcPing p)
    obtain r t1 where raw: "irc_send_raw wr t (''PONG '' @ p) = (r, t1)"
      by (cases "irc_send_raw wr t (''PONG '' @ p)")
    with IrcLine IrcPing irc_send_raw_keeps [OF raw] show ?thesis by (cases r) simp_all
  qed (simp_all add: Let_def irc_push_message_def)
qed simp_all

interpretation irc_lossless: turn_lossless "irc_turn wr enc" irc_messages irc_accept irc_max_messages
  by unfold_locales (simp add: irc_turn_messages fold_push_bounded, rule irc_accept_channel, rule irc_turn_channel)

text \<open>A client that keeps receiving from an IRC room gets snapshots that are numbered
  consecutively from the transport's counter, and after any number of calls the room's history
  is the last fifty of the old messages and the channel's messages among the lines that were
  read, none lost, none invented, in the order of their arrival.\<close>

lemma irc_room_history:
  assumes "recv_run (irc_recv wr enc) n t ins = (bs, t', rest)" and "round_trips enc dec"
    and "length (irc_messages t) \<le> irc_max_messages"
  shows "(\<forall>i < length bs. \<exists>s. dec (bs ! i) = Inr (Snapshot (irc_seq t + of_nat i) s)) \<and>
    (\<exists>used. ins = used @ rest \<and>
       irc_messages t' = last_n irc_max_messages (irc_messages t @ concat (map (irc_accept t) used)))"
  using irc.run_numbers_decoded [OF assms(1) [unfolded irc_recv_def] assms(2)]
    irc_lossless.run_window [OF assms(1) [unfolded irc_recv_def] assms(3)] by blast

definition demo_irc :: irc_transport where
  "demo_irc = \<lparr>irc_writer = [], irc_channel = ''#r'', irc_server = ''s'', irc_messages = [], irc_seq = 5\<rparr>"

lemma irc_room_history_witness:
  "\<exists>bs t'. recv_run (irc_recv (\<lambda>_ _. Inr () :: unit + unit) (Inr :: (json, irc_snapshot) server_wire \<Rightarrow> unit + _)) 2 demo_irc
      [IrcLine ''PING x'' 8, IrcLine '':bob!u@h PRIVMSG #r :hi'' 9] = (bs, t', []) \<and>
     length bs = 1 \<and> (\<exists>s. bs ! 0 = Snapshot 5 s) \<and>
     irc_messages t' = [\<lparr>irc_nick = ''bob'', irc_text = ''hi'', irc_timestamp = 9\<rparr>]"
proof -
  obtain bs t' where run: "recv_run (irc_recv (\<lambda>_ _. Inr () :: unit + unit) (Inr :: (json, irc_snapshot) server_wire \<Rightarrow> unit + _)) 2 demo_irc
      [IrcLine ''PING x'' 8, IrcLine '':bob!u@h PRIVMSG #r :hi'' 9] = (bs, t', [])" and len: "length bs = 1"
      and m: "irc_messages t' = [\<lparr>irc_nick = ''bob'', irc_text = ''hi'', irc_timestamp = 9\<rparr>]"
    by (simp add: demo_irc_def irc_recv_def irc_defs numeral_2_eq_2 irc_classify_def strip_prefix_def starts_with_def
        trim_end_def split_word_def trim_def ascii_space_def eq_ignore_case_def parse_nick_def emit_def Let_def
        push_bounded_def)
  have rt: "round_trips (Inr :: (json, irc_snapshot) server_wire \<Rightarrow> unit + _) Inr"
    and cap: "length (irc_messages demo_irc) \<le> irc_max_messages"
    by (simp_all add: round_trips_def demo_irc_def)
  have "\<exists>s. bs ! 0 = Snapshot 5 s"
    using conjunct1 [OF irc_room_history [OF run rt cap]] len by (simp add: demo_irc_def)
  with run len m show ?thesis by blast
qed

subsection \<open>What other clients make of a message\<close>

lemma split_word_append: "CHR '' '' \<notin> set a \<Longrightarrow> split_word (a @ CHR '' '' # b) = (a, b)"
  by (simp add: split_word_def split_once_append)

lemma split_trailing_append:
  "CHR '' '' \<notin> set a \<Longrightarrow> split_trailing (a @ CHR '' '' # CHR '':'' # b) = (a, Some b)"
proof (induction a)
  case (Cons x a)
  then show ?case by (cases a) auto
qed simp

definition irc_word :: "string \<Rightarrow> bool" where
  "irc_word s \<longleftrightarrow> (\<forall>c \<in> set s. \<not> ascii_space c)"

lemma dropWhile_all_False: "\<forall>c \<in> set s. \<not> P c \<Longrightarrow> dropWhile P s = s"
  by (cases s) auto

lemma trim_word: "irc_word s \<Longrightarrow> trim s = s"
  by (simp add: irc_word_def trim_def dropWhile_all_False)

lemma irc_word_no_space: "irc_word s \<Longrightarrow> CHR '' '' \<notin> set s"
  by (auto simp: irc_word_def ascii_space_def)

text \<open>The line a server relays when the nick \<open>nick!host\<close> sends to the channel.\<close>

definition irc_relayed :: "string \<Rightarrow> string \<Rightarrow> string \<Rightarrow> string \<Rightarrow> string" where
  "irc_relayed nick host channel text = '':'' @ nick @ ''!'' @ host @ '' PRIVMSG '' @ channel @ '' :'' @ text"

lemma irc_classify_relayed:
  assumes "irc_word nick" "CHR ''!'' \<notin> set nick" "irc_word host" "irc_word chan" "eq_ignore_case chan channel"
  shows "irc_classify channel (irc_relayed nick host chan text) = IrcPrivmsg nick text"
proof -
  have pfx: "split_word (nick @ ''!'' @ host @ '' PRIVMSG '' @ chan @ '' :'' @ text) =
      (nick @ ''!'' @ host, ''PRIVMSG '' @ chan @ '' :'' @ text)"
    using assms split_word_append [of "nick @ ''!'' @ host"] by (auto dest!: irc_word_no_space)
  have cmd: "split_word (''PRIVMSG '' @ chan @ '' :'' @ text) = (''PRIVMSG'', chan @ '' :'' @ text)"
    using split_word_append [of "''PRIVMSG''"] by simp
  have "strip_prefix ''PING '' (irc_relayed nick host chan text) = None"
    by (simp add: irc_relayed_def strip_prefix_def starts_with_def)
  moreover have "strip_prefix '':'' (irc_relayed nick host chan text) =
      Some (nick @ ''!'' @ host @ '' PRIVMSG '' @ chan @ '' :'' @ text)"
    by (simp add: irc_relayed_def strip_prefix_Some)
  moreover have "split_trailing (chan @ '' :'' @ text) = (chan, Some text)"
    using split_trailing_append [of chan "text"] irc_word_no_space [OF assms(4)] by simp
  moreover have "parse_nick (nick @ ''!'' @ host) = nick"
    using split_once_append [of "CHR ''!''" nick host] assms(2) by (simp add: parse_nick_def)
  ultimately show ?thesis
    using pfx cmd assms by (simp add: irc_classify_def trim_word)
qed

lemma split_on_prefix:
  "c \<notin> set a \<Longrightarrow> split_on c (a @ s) = (a @ hd (split_on c s)) # tl (split_on c s)"
  by (induction a) (auto split: list.splits)

lemma split_on_suffix:
  "c \<notin> set b \<Longrightarrow> split_on c (s @ b) = butlast (split_on c s) @ [last (split_on c s) @ b]"
proof (induction s)
  case Nil
  then show ?case using split_on_prefix [of c b "[]"] by simp
next
  case (Cons x s)
  then show ?case by (cases "split_on c s") (auto split: list.splits)
qed

lemma trim_end_append [simp]: "trim_end c (s @ [c]) = trim_end c s"
  by (simp add: trim_end_def)

text \<open>The commands that a server reads from what was written to it: its lines, without their ends.\<close>

definition irc_commands :: "string \<Rightarrow> string list" where
  "irc_commands s = map (trim_end (CHR 0x0D)) (butlast (split_on (CHR 0x0A) s))"

lemma irc_commands_line:
  "irc_commands (s @ crlf) = map (trim_end (CHR 0x0D)) (split_on (CHR 0x0A) s)"
proof -
  have "split_on (CHR 0x0A) (s @ crlf) = split_on (CHR 0x0A) (s @ [CHR 0x0D]) @ [[]]"
    using split_on_join [of "CHR 0x0A" "s @ [CHR 0x0D]" "[]"] by simp
  also have "split_on (CHR 0x0A) (s @ [CHR 0x0D]) =
      butlast (split_on (CHR 0x0A) s) @ [last (split_on (CHR 0x0A) s) @ [CHR 0x0D]]"
    by (rule split_on_suffix) simp
  finally have "irc_commands (s @ crlf) =
      map (trim_end (CHR 0x0D)) (butlast (split_on (CHR 0x0A) s)) @ [trim_end (CHR 0x0D) (last (split_on (CHR 0x0A) s))]"
    by (simp add: irc_commands_def butlast_append)
  moreover have "map (trim_end (CHR 0x0D)) (split_on (CHR 0x0A) s) =
      map (trim_end (CHR 0x0D)) (butlast (split_on (CHR 0x0A) s) @ [last (split_on (CHR 0x0A) s)])"
    by (simp only: append_butlast_last_id [OF split_on_not_Nil])
  ultimately show ?thesis by (simp only: map_append list.map)
qed

lemma trim_end_relayed:
  "trim_end (CHR 0x0D) (irc_relayed nick host chan text) = irc_relayed nick host chan (trim_end (CHR 0x0D) text)"
proof -
  have "trim_end c (a @ [b] @ s) = a @ [b] @ trim_end c s" if "b \<noteq> c" for a s :: string and b c
    using that by (simp add: trim_end_def dropWhile_append)
  from this [of "CHR '':''" "CHR 0x0D" "'':'' @ nick @ ''!'' @ host @ '' PRIVMSG '' @ chan @ '' ''" "text"]
  show ?thesis by (simp add: irc_relayed_def)
qed

text \<open>C31: when an intent is decoded, the room writes exactly one string, and reports the writer's error
  when that fails. What the server reads of it are as many commands as the text has lines: the
  first is the PRIVMSG to the room's channel with the first line of the text, and every further
  line of the text is a command of its own, as the sender of the intent wrote it. A room on the
  same channel, its name compared without case, that reads the line with which the server
  relays a message, takes up one message, with the sender's nick and the text without the
  carriage returns at its end, as the newest of its history.\<close>

theorem irc_message_relay:
  assumes "dec data = Inr (Intent (IrcSendMessage text))" and "CHR 0x0A \<notin> set (irc_channel t)"
    and "irc_word nick" "CHR ''!'' \<notin> set nick" "irc_word host" "irc_word chan" "eq_ignore_case chan (irc_channel t')"
  shows "\<exists>written. irc_send wr dec t data =
      (case wr (irc_writer t) written of
         Inl e \<Rightarrow> (Inl (IrcIo e), t)
       | Inr u \<Rightarrow> (Inr (), t\<lparr>irc_writer := irc_writer t @ [written]\<rparr>)) \<and>
     irc_commands written = map (trim_end (CHR 0x0D))
       ((''PRIVMSG '' @ irc_channel t @ '' :'' @ hd (split_on (CHR 0x0A) text)) # tl (split_on (CHR 0x0A) text)) \<and>
     irc_messages (turn_state (irc_turn wr enc t' (IrcLine (irc_relayed nick host chan sent) now))) =
       push_bounded irc_max_messages (irc_messages t')
         \<lparr>irc_nick = nick, irc_text = trim_end (CHR 0x0D) sent, irc_timestamp = now\<rparr>"
proof (intro exI conjI)
  let ?line = "''PRIVMSG '' @ irc_channel t @ '' :'' @ text"
  show "irc_send wr dec t data =
      (case wr (irc_writer t) (?line @ crlf) of
         Inl e \<Rightarrow> (Inl (IrcIo e), t)
       | Inr u \<Rightarrow> (Inr (), t\<lparr>irc_writer := irc_writer t @ [?line @ crlf]\<rparr>))"
    using assms(1) by (simp add: irc_send_def irc_send_raw_def irc_write_def split: sum.split)
  have "split_on (CHR 0x0A) ?line =
      (''PRIVMSG '' @ irc_channel t @ '' :'' @ hd (split_on (CHR 0x0A) text)) # tl (split_on (CHR 0x0A) text)"
    using split_on_prefix [of "CHR 0x0A" "''PRIVMSG '' @ irc_channel t @ '' :''" "text"] assms(2) by simp
  then show "irc_commands (?line @ crlf) = map (trim_end (CHR 0x0D))
       ((''PRIVMSG '' @ irc_channel t @ '' :'' @ hd (split_on (CHR 0x0A) text)) # tl (split_on (CHR 0x0A) text))"
    by (simp only: irc_commands_line)
  show "irc_messages (turn_state (irc_turn wr enc t' (IrcLine (irc_relayed nick host chan sent) now))) =
       push_bounded irc_max_messages (irc_messages t')
         \<lparr>irc_nick = nick, irc_text = trim_end (CHR 0x0D) sent, irc_timestamp = now\<rparr>"
    using irc_classify_relayed [OF assms(3-7), of "trim_end (CHR 0x0D) sent"]
    unfolding irc_turn_messages by (simp add: trim_end_relayed)
qed

text \<open>A text with a line feed: the room quits.\<close>

theorem irc_message_relay_witness:
  "\<exists>written. irc_send (\<lambda>_ _. Inr () :: unit + unit) (\<lambda>_. Inr (Intent (IrcSendMessage (''hi'' @ [CHR 0x0A] @ ''QUIT'')))) demo_irc () =
      (Inr () :: (unit, unit) irc_error + unit, demo_irc\<lparr>irc_writer := [written]\<rparr>) \<and>
    irc_commands written = [''PRIVMSG #r :hi'', ''QUIT''] \<and>
    irc_messages (turn_state (irc_turn (\<lambda>_ _. Inr () :: unit + unit) (Inr :: (json, irc_snapshot) server_wire \<Rightarrow> unit + _) demo_irc
      (IrcLine (irc_relayed ''bob'' ''u@h'' ''#R'' (''hey'' @ [CHR 0x0D])) 3))) =
     [\<lparr>irc_nick = ''bob'', irc_text = ''hey'', irc_timestamp = 3\<rparr>]"
proof -
  have d: "(\<lambda>_. Inr (Intent (IrcSendMessage (''hi'' @ [CHR 0x0A] @ ''QUIT'')))) () =
      (Inr (Intent (IrcSendMessage (''hi'' @ [CHR 0x0A] @ ''QUIT''))) :: unit + _)" by simp
  have c: "CHR 0x0A \<notin> set (irc_channel demo_irc)"
    "irc_word ''bob''" "CHR ''!'' \<notin> set ''bob''" "irc_word ''u@h''" "irc_word ''#R''" "eq_ignore_case ''#R'' (irc_channel demo_irc)"
    by (simp_all add: irc_word_def ascii_space_def demo_irc_def) code_simp
  have w: "irc_writer demo_irc = []" "irc_messages demo_irc = []" "irc_channel demo_irc = ''#r''"
    by (simp_all add: demo_irc_def)
  obtain written where r: "irc_send (\<lambda>_ _. Inr () :: unit + unit) (\<lambda>_. Inr (Intent (IrcSendMessage (''hi'' @ [CHR 0x0A] @ ''QUIT'')))) demo_irc () =
      (Inr () :: (unit, unit) irc_error + unit, demo_irc\<lparr>irc_writer := [written]\<rparr>)"
    "irc_commands written = map (trim_end (CHR 0x0D))
       ((''PRIVMSG '' @ irc_channel demo_irc @ '' :'' @ hd (split_on (CHR 0x0A) (''hi'' @ [CHR 0x0A] @ ''QUIT''))) #
        tl (split_on (CHR 0x0A) (''hi'' @ [CHR 0x0A] @ ''QUIT'')))"
    "irc_messages (turn_state (irc_turn (\<lambda>_ _. Inr () :: unit + unit) (Inr :: (json, irc_snapshot) server_wire \<Rightarrow> unit + _) demo_irc
      (IrcLine (irc_relayed ''bob'' ''u@h'' ''#R'' (''hey'' @ [CHR 0x0D])) 3))) =
     push_bounded irc_max_messages (irc_messages demo_irc)
         \<lparr>irc_nick = ''bob'', irc_text = trim_end (CHR 0x0D) (''hey'' @ [CHR 0x0D]), irc_timestamp = 3\<rparr>"
    using irc_message_relay [of "\<lambda>_. Inr (Intent (IrcSendMessage (''hi'' @ [CHR 0x0A] @ ''QUIT'')))" "()", OF d c,
        of "\<lambda>_ _. Inr ()" Inr "''hey'' @ [CHR 0x0D]" 3] w by auto
  show ?thesis
    using r by (intro exI [of _ written]) (simp add: w trim_end_def push_bounded_def irc_max_messages_def)
qed

end
