(* ===== verification/Telegram.thy ===== *)
theory Telegram
  imports Client
begin

section \<open>The Telegram connector\<close>

text \<open>
  \<^verbatim>\<open>crates/connectors/interconnect-connector-telegram/src\<close>. The Bot API is the environment: an
  input of the receive loop is the outcome of one \<^verbatim>\<open>getUpdates\<close> call, an HTTP error or the
  reply; connecting takes the outcomes of its three calls. A reply carries a batch of updates,
  which one turn of the loop processes to its end. Update identifiers and the offset are \<^verbatim>\<open>i64\<close>: the
  addition of one to them wraps around, where a build with overflow checks panics. The field
  \<open>tg_http\<close>, the HTTP client of the transport, holds the requests that sending made through it, with
  their bodies as text; \<open>post\<close> says what the service answers after those.
\<close>

record tg_message =
  tg_message_id :: "32 word"
  tg_from :: string
  tg_text :: string
  tg_timestamp :: nat

record tg_snapshot =
  tg_snap_chat_id :: int
  tg_snap_title :: string
  tg_snap_messages :: "tg_message list"

datatype tg_intent = TgSendMessage string

datatype ('he, 'cj) tg_error = TgHttp 'he | TgJson 'cj | TgApi string | TgClosed

record tg_transport =
  tg_bot_token :: string
  tg_chat_id :: int
  tg_chat_title :: string
  tg_messages :: "tg_message list"
  tg_seq :: u64
  tg_offset :: int
  tg_http :: "(string \<times> string) list"

fun tg_intent_fields :: "'j json_ops \<Rightarrow> tg_intent \<Rightarrow> (string \<times> 'j) list" where
  "tg_intent_fields J (TgSendMessage text) = tagged J ''send_message'' [(''text'', j_str J text)]"

definition tg_max_messages :: nat where
  "tg_max_messages = 50"

definition tg_current_snapshot :: "tg_transport \<Rightarrow> tg_snapshot" where
  "tg_current_snapshot t =
     \<lparr>tg_snap_chat_id = tg_chat_id t, tg_snap_title = tg_chat_title t, tg_snap_messages = tg_messages t\<rparr>"

definition tg_push_message :: "tg_transport \<Rightarrow> tg_message \<Rightarrow> tg_transport" where
  "tg_push_message t m = t\<lparr>tg_messages := push_bounded tg_max_messages (tg_messages t) m\<rparr>"

definition tg_api_url :: "string \<Rightarrow> string \<Rightarrow> string" where
  "tg_api_url token api_method = ''https://api.telegram.org/bot'' @ token @ ''/'' @ api_method"

definition tg_sender_name :: "'j json_ops \<Rightarrow> 'j \<Rightarrow> string" where
  "tg_sender_name J msg =
     (let from_user = j_index J msg ''from'' in
      if from_user = j_null J then j_str_or J ''unknown'' (j_path J msg [''chat'', ''title''])
      else
        (let first_name = j_str_or J [] (j_index J from_user ''first_name'');
             last_name = j_str_or J [] (j_index J from_user ''last_name'')
         in if first_name = [] \<and> last_name = [] then j_str_or J ''unknown'' (j_index J from_user ''username'')
            else if last_name = [] then first_name
            else first_name @ '' '' @ last_name))"

text \<open>The message of an update that belongs to the chat and has a text; the two loops over updates
  share this part.\<close>

definition tg_update_message :: "'j json_ops \<Rightarrow> int \<Rightarrow> 'j \<Rightarrow> tg_message option" where
  "tg_update_message J chat_id update =
     (case j_get J update ''message'' of
        None \<Rightarrow> None
      | Some msg \<Rightarrow>
          if j_i64_or J 0 (j_path J msg [''chat'', ''id'']) \<noteq> chat_id then None
          else (case j_as_str J (j_index J msg ''text'') of
                  None \<Rightarrow> None
                | Some txt \<Rightarrow>
                    Some \<lparr>tg_message_id = word_of_int (j_i64_or J 0 (j_index J msg ''message_id'')),
                          tg_from = tg_sender_name J msg, tg_text = txt,
                          tg_timestamp = j_u64_or J 0 (j_index J msg ''date'')\<rparr>))"

subsection \<open>Sending\<close>

definition tg_api_error :: "'j json_ops \<Rightarrow> 'j \<Rightarrow> string" where
  "tg_api_error J resp = j_str_or J ''unknown error'' (j_index J resp ''description'')"

definition tg_send ::
  "'j json_ops \<Rightarrow> ((string \<times> string) list \<Rightarrow> string \<Rightarrow> 'j \<Rightarrow> 'he + 'j) \<Rightarrow> ('b \<Rightarrow> 'cj + tg_intent client_wire) \<Rightarrow> tg_transport \<Rightarrow> 'b
    \<Rightarrow> (('he, 'cj) tg_error + unit) \<times> tg_transport" where
  "tg_send J post dec t data =
     (case dec data of
        Inl e \<Rightarrow> (Inl (TgJson e), t)
      | Inr (Intent (TgSendMessage text)) \<Rightarrow>
          (let url = tg_api_url (tg_bot_token t) ''sendMessage'';
               body = j_obj J [(''chat_id'', j_int J (tg_chat_id t)), (''text'', j_str J text)];
               t1 = t\<lparr>tg_http := tg_http t @ [(url, j_text J body)]\<rparr>
           in case post (tg_http t) url body of
                Inl e \<Rightarrow> (Inl (TgHttp e), t1)
              | Inr resp \<Rightarrow> if \<not> j_ok J resp then (Inl (TgApi (tg_api_error J resp)), t1) else (Inr (), t1))
      | Inr _ \<Rightarrow> (Inr (), t))"

subsection \<open>Receiving\<close>

definition tg_update_id :: "'j json_ops \<Rightarrow> 'j \<Rightarrow> int" where
  "tg_update_id J u = j_i64_or J 0 (j_index J u ''update_id'')"

definition tg_advance :: "'j json_ops \<Rightarrow> tg_transport \<Rightarrow> 'j \<Rightarrow> tg_transport" where
  "tg_advance J t u = (if tg_update_id J u \<ge> tg_offset t then t\<lparr>tg_offset := wrap_i64 (tg_update_id J u + 1)\<rparr> else t)"

text \<open>The loop over a batch: every accepted message is pushed and encoded into a snapshot, only the
  last snapshot is kept; an encoding error leaves at once.\<close>

fun tg_batch ::
  "'j json_ops \<Rightarrow> (('j, tg_snapshot) server_wire \<Rightarrow> 'cj + 'b) \<Rightarrow> tg_transport \<Rightarrow> 'b option \<Rightarrow> 'j list
    \<Rightarrow> ('cj + 'b option) \<times> tg_transport" where
  "tg_batch J enc t emitted [] = (Inr emitted, t)"
| "tg_batch J enc t emitted (u # us) =
     (let t1 = tg_advance J t u in
      case tg_update_message J (tg_chat_id t1) u of
        None \<Rightarrow> tg_batch J enc t1 emitted us
      | Some m \<Rightarrow>
          (let t2 = tg_push_message t1 m;
               wire = Snapshot (tg_seq t2) (tg_current_snapshot t2);
               t3 = t2\<lparr>tg_seq := tg_seq t2 + 1\<rparr>
           in case enc wire of
                Inl e \<Rightarrow> (Inl e, t3)
              | Inr b \<Rightarrow> tg_batch J enc t3 (Some b) us))"

definition tg_poll_params :: "'j json_ops \<Rightarrow> tg_transport \<Rightarrow> 'j" where
  "tg_poll_params J t =
     j_obj J [(''offset'', j_int J (tg_offset t)), (''timeout'', j_int J 30),
       (''allowed_updates'', j_arr J [j_str J ''message''])]"

definition tg_turn ::
  "'j json_ops \<Rightarrow> (('j, tg_snapshot) server_wire \<Rightarrow> 'cj + 'b) \<Rightarrow> tg_transport \<Rightarrow> 'he + 'j
    \<Rightarrow> (('he, 'cj) tg_error, 'b, tg_transport) turn" where
  "tg_turn J enc t reply =
     (case reply of
        Inl e \<Rightarrow> Return (Failed (TgHttp e)) t
      | Inr resp \<Rightarrow>
          if \<not> j_ok J resp then Return (Failed (TgApi (tg_api_error J resp))) t
          else (case j_as_array J (j_index J resp ''result'') of
                  None \<Rightarrow> Continue t
                | Some updates \<Rightarrow>
                    if updates = [] then Continue t
                    else (case tg_batch J enc t None updates of
                            (Inl e, t') \<Rightarrow> Return (Failed (TgJson e)) t'
                          | (Inr (Some b), t') \<Rightarrow> Return (Frame b) t'
                          | (Inr None, t') \<Rightarrow> Continue t')))"

definition tg_recv where
  "tg_recv J enc = recv_loop (tg_turn J enc)"

subsection \<open>Connecting\<close>

definition tg_fetch_chat_title :: "'j json_ops \<Rightarrow> int \<Rightarrow> 'he + 'j \<Rightarrow> ('he, 'cj) tg_error + string" where
  "tg_fetch_chat_title J chat_id reply =
     (case reply of
        Inl e \<Rightarrow> Inl (TgHttp e)
      | Inr resp \<Rightarrow>
          if \<not> j_ok J resp then Inr (show_int chat_id)
          else (case j_as_str J (j_path J resp [''result'', ''title'']) of
                  Some title \<Rightarrow> Inr title
                | None \<Rightarrow> Inr (j_str_or J (show_int chat_id) (j_path J resp [''result'', ''first_name'']))))"

text \<open>The history loop stops as soon as it has fifty messages.\<close>

fun tg_collect :: "'j json_ops \<Rightarrow> int \<Rightarrow> tg_message list \<Rightarrow> 'j list \<Rightarrow> tg_message list" where
  "tg_collect J chat_id acc [] = acc"
| "tg_collect J chat_id acc (u # us) =
     (case tg_update_message J chat_id u of
        None \<Rightarrow> tg_collect J chat_id acc us
      | Some m \<Rightarrow>
          if length (acc @ [m]) \<ge> tg_max_messages then acc @ [m] else tg_collect J chat_id (acc @ [m]) us)"

definition tg_fetch_recent :: "'j json_ops \<Rightarrow> int \<Rightarrow> 'he + 'j \<Rightarrow> ('he, 'cj) tg_error + tg_message list" where
  "tg_fetch_recent J chat_id reply =
     (case reply of
        Inl e \<Rightarrow> Inl (TgHttp e)
      | Inr resp \<Rightarrow>
          if \<not> j_ok J resp then Inr []
          else (case j_as_array J (j_index J resp ''result'') of
                  None \<Rightarrow> Inr []
                | Some updates \<Rightarrow> Inr (tg_collect J chat_id [] updates)))"

definition tg_fetch_offset :: "'j json_ops \<Rightarrow> 'he + 'j \<Rightarrow> ('he, 'cj) tg_error + int" where
  "tg_fetch_offset J reply =
     (case reply of
        Inl e \<Rightarrow> Inl (TgHttp e)
      | Inr resp \<Rightarrow>
          if \<not> j_ok J resp then Inr 0
          else (case j_as_array J (j_index J resp ''result'') of
                  None \<Rightarrow> Inr 0
                | Some updates \<Rightarrow>
                    (let ids = List.map_filter (\<lambda>u. j_as_i64 J (j_index J u ''update_id'')) updates
                     in Inr (wrap_i64 ((if ids = [] then - 1 else foldr max ids (hd ids)) + 1)))))"

definition tg_manifest :: "'j json_ops \<Rightarrow> int \<Rightarrow> string \<Rightarrow> 'j manifest" where
  "tg_manifest J chat_id title =
     \<lparr>m_identity = identity_local (''telegram:'' @ show_int chat_id), m_name = title, m_substrate = None,
      m_metadata = j_obj J [(''type'', j_str J ''telegram''), (''chat_id'', j_int J chat_id)]\<rparr>"

definition tg_connect ::
  "'j json_ops \<Rightarrow> string \<Rightarrow> int \<Rightarrow> 'he + 'j \<Rightarrow> 'he + 'j \<Rightarrow> 'he + 'j
    \<Rightarrow> ('he, 'cj) tg_error + ((tg_transport, 'j) connection \<times> tg_snapshot)" where
  "tg_connect J token chat_id chat_reply recent_reply offset_reply =
     (case tg_fetch_chat_title J chat_id chat_reply of
        Inl e \<Rightarrow> Inl e
      | Inr title \<Rightarrow>
          (case tg_fetch_recent J chat_id recent_reply of
             Inl e \<Rightarrow> Inl e
           | Inr initial \<Rightarrow>
               (case tg_fetch_offset J offset_reply of
                  Inl e \<Rightarrow> Inl e
                | Inr off \<Rightarrow>
                    (let t = \<lparr>tg_bot_token = token, tg_chat_id = chat_id, tg_chat_title = title,
                              tg_messages = fold (\<lambda>m b. push_bounded tg_max_messages b m) initial [],
                              tg_seq = 0, tg_offset = off, tg_http = []\<rparr>
                     in Inr (established t (tg_manifest J chat_id title), tg_current_snapshot t)))))"

subsection \<open>The contracts\<close>

definition tg_updates :: "'j json_ops \<Rightarrow> 'he + 'j \<Rightarrow> 'j list" where
  "tg_updates J reply =
     (case reply of
        Inl _ \<Rightarrow> []
      | Inr resp \<Rightarrow>
          if j_ok J resp
          then (case j_as_array J (j_index J resp ''result'') of None \<Rightarrow> [] | Some us \<Rightarrow> us) else [])"

definition tg_accept :: "'j json_ops \<Rightarrow> tg_transport \<Rightarrow> 'he + 'j \<Rightarrow> tg_message list" where
  "tg_accept J t reply = List.map_filter (tg_update_message J (tg_chat_id t)) (tg_updates J reply)"

lemma tg_advance_keeps [simp]:
  "tg_chat_id (tg_advance J t u) = tg_chat_id t" "tg_messages (tg_advance J t u) = tg_messages t"
  "tg_seq (tg_advance J t u) = tg_seq t" "tg_current_snapshot (tg_advance J t u) = tg_current_snapshot t"
  by (simp_all add: tg_advance_def tg_current_snapshot_def)

lemma tg_push_keeps [simp]:
  "tg_chat_id (tg_push_message t m) = tg_chat_id t" "tg_seq (tg_push_message t m) = tg_seq t"
  "tg_offset (tg_push_message t m) = tg_offset t"
  "tg_messages (tg_push_message t m) = push_bounded tg_max_messages (tg_messages t) m"
  by (simp_all add: tg_push_message_def)

lemma tg_seq_keeps [simp]:
  "tg_current_snapshot (t\<lparr>tg_seq := s\<rparr>) = tg_current_snapshot t"
  by (simp add: tg_current_snapshot_def)

lemma tg_batch_chat: "tg_chat_id (snd (tg_batch J enc t e us)) = tg_chat_id t"
  by (induction J enc t e us rule: tg_batch.induct) (auto simp: Let_def split: option.splits sum.splits)

lemma tg_batch_emitted:
  "tg_batch J enc t e us = (Inr (Some b), t') \<Longrightarrow>
     (e = None \<or> (\<exists>b0. e = Some b0 \<and> enc (Snapshot (tg_seq t - 1) (tg_current_snapshot t)) = Inr b0)) \<Longrightarrow>
     enc (Snapshot (tg_seq t' - 1) (tg_current_snapshot t')) = Inr b"
  by (induction J enc t e us rule: tg_batch.induct)
    (auto simp: Let_def split: option.splits sum.splits)

lemma tg_batch_messages:
  "tg_messages (snd (tg_batch J (\<lambda>w. Inr (f w) :: 'cj + 'b) t e us)) =
     fold (\<lambda>m b. push_bounded tg_max_messages b m) (List.map_filter (tg_update_message J (tg_chat_id t)) us) (tg_messages t)"
  by (induction us arbitrary: t e) (auto simp: Let_def List.map_filter_simps split: option.splits)

lemma tg_batch_total: "\<exists>e' t'. tg_batch J (\<lambda>w. Inr (f w) :: 'cj + 'b) t e us = (Inr e', t')"
  by (induction us arbitrary: t e) (auto simp: Let_def split: option.splits)

lemma tg_turn_state:
  "turn_state (tg_turn J enc t reply) =
     (if tg_updates J reply = [] then t else snd (tg_batch J enc t None (tg_updates J reply)))"
  by (auto simp: tg_turn_def tg_updates_def split: sum.splits option.splits prod.splits)

interpretation tg: turn_snapshots "tg_turn J enc" enc tg_seq tg_current_snapshot
  by unfold_locales
    (auto simp: tg_turn_def split: sum.splits if_splits option.splits prod.splits dest: tg_batch_emitted)

interpretation tg_window: window_room tg_messages tg_push_message tg_max_messages
  by unfold_locales simp

interpretation tg_lossless: turn_lossless "tg_turn J (\<lambda>w. Inr (f w) :: 'cj + 'b)" tg_messages "tg_accept J" tg_max_messages
proof unfold_locales
  fix t reply
  show "length (tg_messages t) \<le> tg_max_messages \<Longrightarrow>
      tg_messages (turn_state (tg_turn J (\<lambda>w. Inr (f w) :: 'cj + 'b) t reply)) = last_n tg_max_messages (tg_messages t @ tg_accept J t reply)"
    by (simp add: tg_turn_state tg_batch_messages tg_accept_def fold_push_bounded last_n_all List.map_filter_simps)
  show "tg_accept J (turn_state (tg_turn J (\<lambda>w. Inr (f w) :: 'cj + 'b) t reply)) = tg_accept J t"
    by (simp add: fun_eq_iff tg_accept_def tg_turn_state tg_batch_chat)
qed

text \<open>An update whose identifier has a successor.\<close>

definition tg_counted :: "'j json_ops \<Rightarrow> 'j \<Rightarrow> bool" where
  "tg_counted J u \<longleftrightarrow> - (2 ^ 63) \<le> tg_update_id J u \<and> tg_update_id J u < 2 ^ 63 - 1"

lemma tg_advance_offset:
  "tg_counted J u \<Longrightarrow> tg_offset t \<le> tg_offset (tg_advance J t u) \<and> tg_update_id J u < tg_offset (tg_advance J t u)"
  using wrap_i64_id [of "tg_update_id J u + 1"] by (simp add: tg_advance_def tg_counted_def)

lemma tg_advance_overflow:
  "tg_update_id J u = 2 ^ 63 - 1 \<Longrightarrow> tg_offset t < 2 ^ 63 \<Longrightarrow> tg_offset (tg_advance J t u) = - (2 ^ 63)"
  by (simp add: tg_advance_def wrap_i64_def)

lemma tg_batch_offset:
  "\<forall>u \<in> set us. tg_counted J u \<Longrightarrow>
   tg_offset t \<le> tg_offset (snd (tg_batch J (\<lambda>w. Inr (f w) :: 'cj + 'b) t e us)) \<and>
   (\<forall>u \<in> set us. tg_update_id J u < tg_offset (snd (tg_batch J (\<lambda>w. Inr (f w) :: 'cj + 'b) t e us)))"
proof (induction us arbitrary: t e)
  case (Cons u us)
  have adv: "tg_offset t \<le> tg_offset (tg_advance J t u) \<and> tg_update_id J u < tg_offset (tg_advance J t u)"
    using tg_advance_offset [of J u t] Cons.prems by simp
  obtain t1 e1 where t1: "tg_batch J (\<lambda>w. Inr (f w) :: 'cj + 'b) t e (u # us) = tg_batch J (\<lambda>w. Inr (f w) :: 'cj + 'b) t1 e1 us"
      "tg_offset t1 = tg_offset (tg_advance J t u)"
    by (cases "tg_update_message J (tg_chat_id t) u") (auto simp: Let_def)
  from Cons.IH [of t1 e1] Cons.prems have
    ih: "tg_offset t1 \<le> tg_offset (snd (tg_batch J (\<lambda>w. Inr (f w) :: 'cj + 'b) t1 e1 us))"
      "\<forall>u \<in> set us. tg_update_id J u < tg_offset (snd (tg_batch J (\<lambda>w. Inr (f w) :: 'cj + 'b) t1 e1 us))"
    by simp_all
  show ?case unfolding t1(1) using ih adv t1(2) by auto
qed simp

lemma tg_turn_offset:
  "\<forall>u \<in> set (tg_updates J reply). tg_counted J u \<Longrightarrow>
   tg_offset t \<le> tg_offset (turn_state (tg_turn J (\<lambda>w. Inr (f w) :: 'cj + 'b) t reply)) \<and>
   (\<forall>u \<in> set (tg_updates J reply). tg_update_id J u < tg_offset (turn_state (tg_turn J (\<lambda>w. Inr (f w) :: 'cj + 'b) t reply)))"
  using tg_batch_offset [of "tg_updates J reply" J t f None] by (auto simp: tg_turn_state)

lemma tg_loop_offset:
  "recv_loop (tg_turn J (\<lambda>w. Inr (f w) :: 'cj + 'b)) t ins = (r, t', rest) \<Longrightarrow>
     \<forall>reply \<in> set ins. \<forall>u \<in> set (tg_updates J reply). tg_counted J u \<Longrightarrow>
     \<exists>used. ins = used @ rest \<and> tg_offset t \<le> tg_offset t' \<and>
       (\<forall>reply \<in> set used. \<forall>u \<in> set (tg_updates J reply). tg_update_id J u < tg_offset t')"
proof (induction ins arbitrary: t)
  case (Cons reply ins)
  have o: "tg_offset t \<le> tg_offset (turn_state (tg_turn J (\<lambda>w. Inr (f w) :: 'cj + 'b) t reply)) \<and>
      (\<forall>u \<in> set (tg_updates J reply). tg_update_id J u < tg_offset (turn_state (tg_turn J (\<lambda>w. Inr (f w) :: 'cj + 'b) t reply)))"
    using tg_turn_offset [of J reply t f] Cons.prems(2) by simp
  show ?case
  proof (cases "tg_turn J (\<lambda>w. Inr (f w) :: 'cj + 'b) t reply")
    case (Continue t1)
    with Cons.prems(1) have "recv_loop (tg_turn J (\<lambda>w. Inr (f w) :: 'cj + 'b)) t1 ins = (r, t', rest)" by simp
    from Cons.IH [OF this] Cons.prems(2) obtain used where used: "ins = used @ rest" "tg_offset t1 \<le> tg_offset t'"
      "\<forall>reply \<in> set used. \<forall>u \<in> set (tg_updates J reply). tg_update_id J u < tg_offset t'" by auto
    with o Continue have "\<forall>u \<in> set (tg_updates J reply). tg_update_id J u < tg_offset t'" "tg_offset t \<le> tg_offset t'"
      by fastforce+
    with used show ?thesis by (intro exI [of _ "reply # used"]) auto
  next
    case (Return r1 t1)
    with Cons.prems(1) o show ?thesis by (intro exI [of _ "[reply]"]) auto
  qed
qed simp

text \<open>C32: receiving from a Telegram chat, when the snapshots can be encoded, keeps in the history
  the last fifty of the old messages and the chat's text messages of every batch that was read;
  a frame that is returned carries the history as it is then, under the number before the
  transport's counter. As long as no identifier is the largest of its type, the polling offset
  never goes back and lies beyond every update that was read, so none is asked for again; an
  update with the largest one wraps the offset around to the smallest.\<close>

theorem tg_room_history:
  assumes "tg_recv J (\<lambda>w. Inr (f w) :: 'cj + 'b) t ins = (r, t', rest)" and "length (tg_messages t) \<le> tg_max_messages"
  shows "(\<exists>used. ins = used @ rest \<and>
      tg_messages t' = last_n tg_max_messages (tg_messages t @ concat (map (tg_accept J t) used)) \<and>
      ((\<forall>reply \<in> set ins. \<forall>u \<in> set (tg_updates J reply). tg_counted J u) \<longrightarrow>
         tg_offset t \<le> tg_offset t' \<and>
         (\<forall>reply \<in> set used. \<forall>u \<in> set (tg_updates J reply). tg_update_id J u < tg_offset t'))) \<and>
    (\<forall>b. r = Frame b \<longrightarrow> b = f (Snapshot (tg_seq t' - 1) (tg_current_snapshot t'))) \<and>
    (tg_update_id J u = 2 ^ 63 - 1 \<and> tg_offset t < 2 ^ 63 \<longrightarrow> tg_offset (tg_advance J t u) = - (2 ^ 63))"
proof -
  note run = assms(1) [unfolded tg_recv_def]
  have frame: "\<forall>b. r = Frame b \<longrightarrow> b = f (Snapshot (tg_seq t' - 1) (tg_current_snapshot t'))"
    using run tg.loop_frame [of J "\<lambda>w. Inr (f w)" t ins _ t' rest] by auto
  from tg_lossless.loop_window [OF run assms(2)] obtain used where
    used: "ins = used @ rest" "tg_messages t' = last_n tg_max_messages (tg_messages t @ concat (map (tg_accept J t) used))"
    by blast
  have "tg_offset t \<le> tg_offset t' \<and> (\<forall>reply \<in> set used. \<forall>u \<in> set (tg_updates J reply). tg_update_id J u < tg_offset t')"
    if "\<forall>reply \<in> set ins. \<forall>u \<in> set (tg_updates J reply). tg_counted J u"
    using tg_loop_offset [OF run that] used(1) by auto
  with used frame tg_advance_overflow show ?thesis by (intro conjI exI [of _ used]) auto
qed

lemma foldr_max_Max: "foldr max xs a = Max (insert a (set xs))" for a :: int
  by (induction xs) (simp_all add: insert_commute)

lemma tg_collect_take:
  "length acc < tg_max_messages \<Longrightarrow>
     tg_collect J chat_id acc us = take tg_max_messages (acc @ List.map_filter (tg_update_message J chat_id) us)"
proof (induction us arbitrary: acc)
  case (Cons u us)
  show ?case
  proof (cases "tg_update_message J chat_id u")
    case (Some m)
    show ?thesis
    proof (cases "tg_max_messages \<le> length (acc @ [m])")
      case True
      with Cons.prems have "tg_max_messages - length acc = 1" by simp
      with True Some show ?thesis by (simp add: List.map_filter_simps)
    qed (use Some Cons.IH [of "acc @ [m]"] in \<open>simp add: List.map_filter_simps\<close>)
  qed (use Cons in \<open>simp add: List.map_filter_simps\<close>)
qed (simp add: List.map_filter_simps)

lemma tg_ids:
  "\<forall>u \<in> set us. j_as_i64 J (j_index J u ''update_id'') \<noteq> None \<Longrightarrow>
     List.map_filter (\<lambda>u. j_as_i64 J (j_index J u ''update_id'')) us = map (tg_update_id J) us"
  by (induction us) (auto simp: List.map_filter_simps tg_update_id_def j_i64_or_def)

text \<open>The two history calls of connecting are separate polls without an offset. When the second
  one sees one more update than the first, with the highest id, it is neither looked at for the
  first snapshot nor asked for by the transport, which starts behind it: if it is a message to
  the chat, the room loses it. Moreover of more than fifty pending messages the first snapshot
  has the oldest fifty.\<close>

lemma tg_connect_gap:
  assumes J: "json_value J" and ids: "\<forall>u \<in> set (us @ [late]). j_as_i64 J (j_index J u ''update_id'') \<noteq> None"
    and late: "\<forall>u \<in> set us. tg_update_id J u < tg_update_id J late" and "tg_counted J late"
  shows "\<exists>c s. tg_connect J token chat_id (Inr chat)
        (Inr (j_obj J [(''ok'', j_bool J True), (''result'', j_arr J us)]))
        (Inr (j_obj J [(''ok'', j_bool J True), (''result'', j_arr J (us @ [late]))]))
      = (Inr (c, s) :: ('he, 'cj) tg_error + _) \<and>
    tg_snap_messages s = take tg_max_messages (List.map_filter (tg_update_message J chat_id) us) \<and>
    tg_offset (conn_transport c) = tg_update_id J late + 1"
proof -
  have ok: "j_ok J (j_obj J [(''ok'', j_bool J True), (''result'', j_arr J vs)])"
    "j_as_array J (j_index J (j_obj J [(''ok'', j_bool J True), (''result'', j_arr J vs)]) ''result'') = Some vs" for vs
    using J by (simp_all add: j_ok_def json_value.index_obj json_value.value_simps)
  let ?ids = "map (tg_update_id J) (us @ [late])"
  have "foldr max ?ids (hd ?ids) = Max (set ?ids)"
    by (cases us) (simp_all add: foldr_max_Max insert_absorb del: map_append)
  also have "Max (set ?ids) = tg_update_id J late"
    using late by (intro Max_eqI) (auto intro: less_imp_le)
  finally have off: "tg_fetch_offset J (Inr (j_obj J [(''ok'', j_bool J True), (''result'', j_arr J (us @ [late]))]))
      = (Inr (tg_update_id J late + 1) :: ('he, 'cj) tg_error + int)"
    using tg_ids [OF ids] wrap_i64_id [of "tg_update_id J late + 1"] assms(4)
    by (simp add: tg_fetch_offset_def ok Let_def tg_counted_def)
  have recent: "tg_fetch_recent J chat_id (Inr (j_obj J [(''ok'', j_bool J True), (''result'', j_arr J us)]))
      = (Inr (take tg_max_messages (List.map_filter (tg_update_message J chat_id) us)) :: ('he, 'cj) tg_error + _)"
    using tg_collect_take [of "[]" J chat_id us] by (simp add: tg_fetch_recent_def ok tg_max_messages_def)
  have "\<exists>title. tg_fetch_chat_title J chat_id (Inr chat :: 'he + _) = (Inr title :: ('he, 'cj) tg_error + _)"
    by (auto simp: tg_fetch_chat_title_def split: option.splits)
  then obtain title where "tg_fetch_chat_title J chat_id (Inr chat :: 'he + _) = (Inr title :: ('he, 'cj) tg_error + _)" ..
  with off recent show ?thesis
    by (simp add: tg_connect_def Let_def fold_push_bounded tg_current_snapshot_def established_def last_n_all)
qed

definition demo_update :: "int \<Rightarrow> int \<Rightarrow> string \<Rightarrow> json" where
  "demo_update i chat txt =
     JObj [(''update_id'', JInt i), (''message'', JObj [(''chat'', JObj [(''id'', JInt chat)]), (''text'', JStr txt)])]"

lemma tg_connect_gap_witness:
  "\<exists>c s. tg_connect value_json ''k'' 7 (Inr (JObj []))
        (Inr (JObj [(''ok'', JBool True), (''result'', JArr [demo_update 3 7 ''a''])]))
        (Inr (JObj [(''ok'', JBool True), (''result'', JArr ([demo_update 3 7 ''a''] @ [demo_update 4 7 ''b''])) ]))
      = (Inr (c, s) :: (unit, unit) tg_error + _) \<and>
    map tg_text (tg_snap_messages s) = [''a''] \<and> tg_offset (conn_transport c) = 5"
proof -
  have "\<forall>u \<in> set ([demo_update 3 7 ''a''] @ [demo_update 4 7 ''b'']). j_as_i64 value_json (j_index value_json u ''update_id'') \<noteq> None"
    "\<forall>u \<in> set [demo_update 3 7 ''a'']. tg_update_id value_json u < tg_update_id value_json (demo_update 4 7 ''b'')"
    "tg_counted value_json (demo_update 4 7 ''b'')"
    by (simp_all add: demo_update_def j_index_def tg_update_id_def j_i64_or_def tg_counted_def)
  from tg_connect_gap [OF value_json_laws this, of "''k''" 7 "JObj []"] obtain c s where
    "tg_connect value_json ''k'' 7 (Inr (JObj []))
        (Inr (JObj [(''ok'', JBool True), (''result'', JArr [demo_update 3 7 ''a''])]))
        (Inr (JObj [(''ok'', JBool True), (''result'', JArr ([demo_update 3 7 ''a''] @ [demo_update 4 7 ''b''])) ]))
      = (Inr (c, s) :: (unit, unit) tg_error + _)"
    "tg_snap_messages s = take tg_max_messages (List.map_filter (tg_update_message value_json 7) [demo_update 3 7 ''a''])"
    "tg_offset (conn_transport c) = tg_update_id value_json (demo_update 4 7 ''b'') + 1"
    by auto
  then show ?thesis
    by (intro exI [of _ c] exI [of _ s])
      (simp add: List.map_filter_simps demo_update_def j_index_def j_path_def tg_update_id_def j_i64_or_def
        tg_update_message_def tg_max_messages_def)
qed

theorem tg_room_history_witness:
  "\<exists>t'. tg_recv value_json (\<lambda>w. Inr w) \<lparr>tg_bot_token = [], tg_chat_id = 7, tg_chat_title = [], tg_messages = [], tg_seq = 0, tg_offset = 4, tg_http = []\<rparr>
      [Inr (JObj [(''ok'', JBool True), (''result'', JArr [demo_update 4 8 ''x''])]),
       Inr (JObj [(''ok'', JBool True), (''result'', JArr [demo_update 5 7 ''a'', demo_update 6 7 ''b''])])]
      = (Frame (Snapshot 1 (tg_current_snapshot t')) :: ((unit, unit) tg_error, (json, _) server_wire) polled, t', []) \<and>
     map tg_text (tg_messages t') = [''a'', ''b''] \<and> tg_offset t' = 7"
proof -
  define t0 where "t0 = \<lparr>tg_bot_token = [], tg_chat_id = 7, tg_chat_title = [], tg_messages = [], tg_seq = 0, tg_offset = 4, tg_http = []\<rparr>"
  define ins :: "(unit + json) list" where "ins = [Inr (JObj [(''ok'', JBool True), (''result'', JArr [demo_update 4 8 ''x''])]),
       Inr (JObj [(''ok'', JBool True), (''result'', JArr [demo_update 5 7 ''a'', demo_update 6 7 ''b''])])]"
  obtain b t' where run: "tg_recv value_json (\<lambda>w. Inr w) t0 ins = (Frame b :: ((unit, unit) tg_error, (json, _) server_wire) polled, t', [])"
    and t': "map tg_text (tg_messages t') = [''a'', ''b'']" "tg_offset t' = 7" "tg_seq t' = 2"
    by (simp add: tg_recv_def tg_turn_def t0_def ins_def j_ok_def j_index_def j_path_def demo_update_def Let_def
        tg_advance_def tg_update_id_def j_i64_or_def tg_update_message_def tg_push_message_def push_bounded_def tg_max_messages_def
        wrap_i64_def)
  have "length (tg_messages t0) \<le> tg_max_messages" by (simp add: t0_def)
  from tg_room_history [OF run this] have "b = Snapshot (tg_seq t' - 1) (tg_current_snapshot t')" by auto
  with run t' show ?thesis unfolding t0_def ins_def by auto
qed

end
