(* ===== verification/Zulip.thy ===== *)
theory Zulip
  imports Client
begin

section \<open>The Zulip connector\<close>

text \<open>
  \<^verbatim>\<open>crates/connectors/interconnect-connector-zulip/src\<close>. The inputs of the receive loop are the
  outcomes of the event polls, decoded into the response structures of the source; a response
  that is no JSON of that shape is an HTTP error of the client library. Event ids are integers. The field
  \<open>zu_http\<close>, the HTTP client of the transport, holds the requests that sending made through it.
\<close>

record zulip_message =
  zu_id :: nat
  zu_sender_email :: string
  zu_sender_name :: string
  zu_content :: string
  zu_timestamp :: nat

record zulip_snapshot =
  zu_snap_realm :: string
  zu_snap_stream :: string
  zu_snap_topic :: string
  zu_snap_messages :: "zulip_message list"

datatype zulip_intent = ZulipSendMessage string

datatype ('he, 'cj) zulip_error = ZulipHttp 'he | ZulipJson 'cj | ZulipApi string

record 'j zulip_api_message =
  za_id :: nat
  za_sender_email :: string
  za_sender_full_name :: string
  za_content :: string
  za_timestamp :: nat
  za_stream_name :: "'j option"
  za_subject :: "string option"

record 'j zulip_event =
  ze_id :: int
  ze_type :: string
  ze_message :: "'j zulip_api_message option"

record zulip_transport =
  zu_realm :: string
  zu_email :: string
  zu_api_key :: string
  zu_stream :: string
  zu_topic :: string
  zu_queue_id :: string
  zu_last_event_id :: int
  zu_messages :: "zulip_message list"
  zu_seq :: u64
  zu_http :: "(string \<times> (string \<times> string) list) list"

fun zulip_intent_fields :: "'j json_ops \<Rightarrow> zulip_intent \<Rightarrow> (string \<times> 'j) list" where
  "zulip_intent_fields J (ZulipSendMessage content) = tagged J ''send_message'' [(''content'', j_str J content)]"

definition zulip_max_messages :: nat where
  "zulip_max_messages = 50"

definition zulip_current_snapshot :: "zulip_transport \<Rightarrow> zulip_snapshot" where
  "zulip_current_snapshot t =
     \<lparr>zu_snap_realm = zu_realm t, zu_snap_stream = zu_stream t, zu_snap_topic = zu_topic t,
      zu_snap_messages = zu_messages t\<rparr>"

definition zulip_push_message :: "zulip_transport \<Rightarrow> zulip_message \<Rightarrow> zulip_transport" where
  "zulip_push_message t m = t\<lparr>zu_messages := push_bounded zulip_max_messages (zu_messages t) m\<rparr>"

definition zulip_message_matches :: "'j json_ops \<Rightarrow> zulip_transport \<Rightarrow> 'j zulip_api_message \<Rightarrow> bool" where
  "zulip_message_matches J t m \<longleftrightarrow>
     (case za_subject m of None \<Rightarrow> False | Some s \<Rightarrow> eq_ignore_case s (zu_topic t)) \<and>
     (case Option.bind (za_stream_name m) (j_as_str J) of None \<Rightarrow> False | Some s \<Rightarrow> eq_ignore_case s (zu_stream t))"

definition zulip_convert_message :: "'j zulip_api_message \<Rightarrow> zulip_message" where
  "zulip_convert_message m =
     \<lparr>zu_id = za_id m, zu_sender_email = za_sender_email m, zu_sender_name = za_sender_full_name m,
      zu_content = za_content m, zu_timestamp = za_timestamp m\<rparr>"

subsection \<open>Sending\<close>

definition zulip_send ::
  "((string \<times> (string \<times> string) list) list \<Rightarrow> string \<Rightarrow> (string \<times> string) list \<Rightarrow> 'he + unit)
    \<Rightarrow> ('b \<Rightarrow> 'cj + zulip_intent client_wire)
    \<Rightarrow> zulip_transport \<Rightarrow> 'b \<Rightarrow> (('he, 'cj) zulip_error + unit) \<times> zulip_transport" where
  "zulip_send post_form dec t data =
     (case dec data of
        Inl e \<Rightarrow> (Inl (ZulipJson e), t)
      | Inr (Intent (ZulipSendMessage content)) \<Rightarrow>
          (let url = zu_realm t @ ''/api/v1/messages'';
               form = [(''type'', ''stream''), (''to'', zu_stream t), (''topic'', zu_topic t), (''content'', content)];
               t1 = t\<lparr>zu_http := zu_http t @ [(url, form)]\<rparr>
           in case post_form (zu_http t) url form of
                Inl e \<Rightarrow> (Inl (ZulipHttp e), t1)
              | Inr u \<Rightarrow> (Inr u, t1))
      | Inr _ \<Rightarrow> (Inr (), t))"

subsection \<open>Receiving\<close>

fun zulip_events ::
  "'j json_ops \<Rightarrow> zulip_transport \<Rightarrow> zulip_message option \<Rightarrow> 'j zulip_event list
    \<Rightarrow> zulip_message option \<times> zulip_transport" where
  "zulip_events J t new_message [] = (new_message, t)"
| "zulip_events J t new_message (e # es) =
     (let t1 = (if ze_id e > zu_last_event_id t then t\<lparr>zu_last_event_id := ze_id e\<rparr> else t) in
      case ze_message e of
        Some m \<Rightarrow>
          if ze_type e = ''message'' \<and> zulip_message_matches J t1 m
          then zulip_events J t1 (Some (zulip_convert_message m)) es
          else zulip_events J t1 new_message es
      | None \<Rightarrow> zulip_events J t1 new_message es)"

definition zulip_poll_query :: "zulip_transport \<Rightarrow> (string \<times> string) list" where
  "zulip_poll_query t =
     [(''queue_id'', zu_queue_id t), (''last_event_id'', show_int (zu_last_event_id t)), (''dont_block'', ''false'')]"

definition zulip_turn ::
  "'j json_ops \<Rightarrow> (('k, zulip_snapshot) server_wire \<Rightarrow> 'cj + 'b) \<Rightarrow> zulip_transport \<Rightarrow> 'he + 'j zulip_event list
    \<Rightarrow> (('he, 'cj) zulip_error, 'b, zulip_transport) turn" where
  "zulip_turn J enc t reply =
     (case reply of
        Inl e \<Rightarrow> Return (Failed (ZulipHttp e)) t
      | Inr events \<Rightarrow>
          (case zulip_events J t None events of
             (None, t1) \<Rightarrow> Continue t1
           | (Some m, t1) \<Rightarrow>
               (let t2 = zulip_push_message t1 m
                in Return (emit enc ZulipJson (Snapshot (zu_seq t2) (zulip_current_snapshot t2)))
                     (t2\<lparr>zu_seq := zu_seq t2 + 1\<rparr>))))"

definition zulip_recv where
  "zulip_recv J enc = recv_loop (zulip_turn J enc)"

subsection \<open>Connecting\<close>

definition zulip_narrow :: "'j json_ops \<Rightarrow> string \<Rightarrow> string \<Rightarrow> 'j" where
  "zulip_narrow J stream topic =
     j_arr J [j_obj J [(''operator'', j_str J ''stream''), (''operand'', j_str J stream)],
              j_obj J [(''operator'', j_str J ''topic''), (''operand'', j_str J topic)]]"

definition zulip_register_event_queue :: "'he + string \<times> int \<Rightarrow> ('he, 'cj) zulip_error + string \<times> int" where
  "zulip_register_event_queue reply = (case reply of Inl e \<Rightarrow> Inl (ZulipHttp e) | Inr q \<Rightarrow> Inr q)"

definition zulip_fetch_initial_snapshot ::
  "zulip_transport \<Rightarrow> 'he + 'j zulip_api_message list \<Rightarrow> (('he, 'cj) zulip_error + zulip_snapshot) \<times> zulip_transport" where
  "zulip_fetch_initial_snapshot t reply =
     (case reply of
        Inl e \<Rightarrow> (Inl (ZulipHttp e), t)
      | Inr ms \<Rightarrow>
          (let t' = t\<lparr>zu_messages := zu_messages t @ map zulip_convert_message ms\<rparr>
           in (Inr (zulip_current_snapshot t'), t')))"

definition zulip_manifest :: "'j json_ops \<Rightarrow> string \<Rightarrow> string \<Rightarrow> string \<Rightarrow> 'j manifest" where
  "zulip_manifest J realm stream topic =
     \<lparr>m_identity = identity_local (''zulip:'' @ realm @ ''/'' @ stream @ ''/'' @ topic),
      m_name = stream @ '' > '' @ topic, m_substrate = None,
      m_metadata = j_obj J [(''type'', j_str J ''zulip''), (''realm'', j_str J realm),
        (''stream'', j_str J stream), (''topic'', j_str J topic)]\<rparr>"

definition zulip_connect ::
  "'j json_ops \<Rightarrow> string \<Rightarrow> string \<Rightarrow> string \<Rightarrow> string \<Rightarrow> string \<Rightarrow> 'he + string \<times> int
    \<Rightarrow> 'he + 'j zulip_api_message list
    \<Rightarrow> ('he, 'cj) zulip_error + (zulip_transport, 'j) connection \<times> zulip_snapshot" where
  "zulip_connect J realm email api_key stream topic register_reply messages_reply =
     (case zulip_register_event_queue register_reply of
        Inl e \<Rightarrow> Inl e
      | Inr (queue_id, last_event_id) \<Rightarrow>
          (case zulip_fetch_initial_snapshot
                  \<lparr>zu_realm = realm, zu_email = email, zu_api_key = api_key, zu_stream = stream, zu_topic = topic,
                   zu_queue_id = queue_id, zu_last_event_id = last_event_id, zu_messages = [], zu_seq = 0, zu_http = []\<rparr>
                  messages_reply of
             (Inl e, _) \<Rightarrow> Inl e
           | (Inr snapshot, t) \<Rightarrow> Inr (established t (zulip_manifest J realm stream topic), snapshot)))"

subsection \<open>The contracts\<close>

definition zulip_matching :: "'j json_ops \<Rightarrow> zulip_transport \<Rightarrow> 'j zulip_event list \<Rightarrow> zulip_message list" where
  "zulip_matching J t events =
     map zulip_convert_message
       (filter (zulip_message_matches J t)
         (List.map_filter (\<lambda>e. if ze_type e = ''message'' then ze_message e else None) events))"

definition zulip_accept :: "'j json_ops \<Rightarrow> zulip_transport \<Rightarrow> 'he + 'j zulip_event list \<Rightarrow> zulip_message list" where
  "zulip_accept J t reply =
     (case reply of Inl _ \<Rightarrow> [] | Inr events \<Rightarrow> last_n 1 (zulip_matching J t events))"

lemma matches_event_id [simp]:
  "zulip_message_matches J (t\<lparr>zu_last_event_id := i\<rparr>) = zulip_message_matches J t"
  by (rule ext) (simp add: zulip_message_matches_def split: option.splits)

lemma zulip_events_spec:
  "zulip_events J t new_message es = (m, t') \<Longrightarrow>
     t' = t\<lparr>zu_last_event_id := foldl max (zu_last_event_id t) (map ze_id es)\<rparr> \<and>
     m = (if zulip_matching J t es = [] then new_message else Some (last (zulip_matching J t es)))"
proof (induction es arbitrary: t new_message)
  case (Cons e es)
  let ?t = "if ze_id e > zu_last_event_id t then t\<lparr>zu_last_event_id := ze_id e\<rparr> else t"
  have ids: "foldl max (zu_last_event_id ?t) (map ze_id es) = foldl max (zu_last_event_id t) (map ze_id (e # es))"
    by (simp add: max_def)
  have mt: "zulip_matching J ?t = zulip_matching J t"
    by (simp add: fun_eq_iff zulip_matching_def)
  show ?case
  proof (cases "\<exists>m. ze_message e = Some m \<and> ze_type e = ''message'' \<and> zulip_message_matches J t m")
    case True
    then obtain m1 where m1: "ze_message e = Some m1" "ze_type e = ''message''" "zulip_message_matches J t m1" by blast
    then have "zulip_events J ?t (Some (zulip_convert_message m1)) es = (m, t')"
      using Cons.prems by (simp add: Let_def split: if_splits)
    moreover have "zulip_matching J t (e # es) = zulip_convert_message m1 # zulip_matching J t es"
      using m1 by (simp add: zulip_matching_def List.map_filter_simps)
    ultimately show ?thesis
      using Cons.IH [of ?t "Some (zulip_convert_message m1)"] ids mt by (auto split: if_splits)
  next
    case False
    then have "zulip_events J ?t new_message es = (m, t')"
      using Cons.prems by (auto simp: Let_def split: if_splits option.splits)
    moreover have "zulip_matching J t (e # es) = zulip_matching J t es"
      using False by (auto simp: zulip_matching_def List.map_filter_simps split: option.splits)
    ultimately show ?thesis
      using Cons.IH [of ?t new_message] ids mt by (auto split: if_splits)
  qed
qed (simp add: zulip_matching_def List.map_filter_simps)

lemma zulip_turn_state:
  "turn_state (zulip_turn J enc t reply) =
     (case reply of
        Inl _ \<Rightarrow> t
      | Inr es \<Rightarrow>
          (let t1 = t\<lparr>zu_last_event_id := foldl max (zu_last_event_id t) (map ze_id es)\<rparr> in
           if zulip_matching J t es = [] then t1
           else (zulip_push_message t1 (last (zulip_matching J t es)))\<lparr>zu_seq := zu_seq t + 1\<rparr>))"
proof (cases reply)
  case (Inr es)
  obtain m t' where "zulip_events J t None es = (m, t')" by (cases "zulip_events J t None es")
  from zulip_events_spec [OF this] this Inr show ?thesis
    by (auto simp: zulip_turn_def Let_def zulip_push_message_def split: if_splits)
qed (simp add: zulip_turn_def)

interpretation zulip: turn_sequenced "zulip_turn J enc" enc zu_seq zulip_current_snapshot
proof unfold_locales
  fix t x b t'
  assume "zulip_turn J enc t x = Return (Frame b) t'"
  then show "enc (Snapshot (zu_seq t' - 1) (zulip_current_snapshot t')) = Inr b" "zu_seq t' = zu_seq t + 1"
    by (auto simp: zulip_turn_def zulip_current_snapshot_def zulip_push_message_def Let_def
        dest!: zulip_events_spec split: sum.splits prod.splits option.splits)
next
  fix t x t'
  assume "zulip_turn J enc t x = Continue t'"
  then show "zu_seq t' = zu_seq t"
    by (auto simp: zulip_turn_def Let_def dest!: zulip_events_spec split: sum.splits prod.splits option.splits)
qed

interpretation zulip_window: window_room zu_messages zulip_push_message zulip_max_messages
  by unfold_locales (simp add: zulip_push_message_def)

lemma zulip_matching_cong:
  assumes "zu_topic t' = zu_topic t" and "zu_stream t' = zu_stream t"
  shows "zulip_matching J t' = zulip_matching J t"
proof -
  have "zulip_message_matches J t' = zulip_message_matches J t"
    unfolding zulip_message_matches_def assms ..
  then show ?thesis by (intro ext) (simp only: zulip_matching_def)
qed

lemma zulip_turn_accept: "zulip_accept J (turn_state (zulip_turn J enc t reply)) = zulip_accept J t"
proof -
  have "zulip_matching J (turn_state (zulip_turn J enc t reply)) = zulip_matching J t"
    by (rule zulip_matching_cong) (simp_all add: zulip_turn_state zulip_push_message_def Let_def split: sum.splits)
  then show ?thesis by (simp add: fun_eq_iff zulip_accept_def split: sum.splits)
qed

lemma zulip_turn_messages:
  assumes "length (zu_messages t) \<le> zulip_max_messages"
  shows "zu_messages (turn_state (zulip_turn J enc t reply)) =
      last_n zulip_max_messages (zu_messages t @ zulip_accept J t reply)"
proof -
  have "xs \<noteq> [] \<Longrightarrow> last_n (Suc 0) xs = [last xs]" for xs :: "zulip_message list"
    by (cases xs rule: rev_cases) (simp_all add: last_n_def)
  with assms show ?thesis
    by (auto simp: zulip_turn_state zulip_accept_def Let_def zulip_push_message_def push_bounded_last_n last_n_all
        split: sum.splits)
qed

interpretation zulip_lossless: turn_lossless "zulip_turn J enc" zu_messages "zulip_accept J" zulip_max_messages
  by unfold_locales (simp_all add: zulip_turn_messages zulip_turn_accept)

text \<open>C33: of every batch of events a Zulip room keeps at most one message: its history is the last
  fifty of the old messages and the last matching message of each batch that was read, while
  the event id it polls from moves beyond every event of the batch. So when a batch holds more
  than one message for the room, all but the last are neither in the history nor delivered
  again. The frames are numbered consecutively.\<close>

theorem zulip_batch_keeps_last:
  assumes "recv_run (zulip_recv J enc) n t (ins :: ('he + _) list) = (bs, t', rest)" and "round_trips enc dec"
    and "length (zu_messages t) \<le> zulip_max_messages"
    and "zulip_matching J t events = lost @ [kept]"
  shows "(\<forall>i < length bs. \<exists>s. dec (bs ! i) = Inr (Snapshot (zu_seq t + of_nat i) s)) \<and>
    (\<exists>used. ins = used @ rest \<and>
       zu_messages t' = last_n zulip_max_messages (zu_messages t @ concat (map (zulip_accept J t) used))) \<and>
    zulip_accept J t (Inr events) = [kept] \<and>
    (\<forall>e \<in> set events. ze_id e \<le> zu_last_event_id (turn_state (zulip_turn J enc t (Inr events :: 'he + _))))"
proof -
  have le_foldl: "a \<le> foldl max a (xs :: int list) \<and> (\<forall>x \<in> set xs. x \<le> foldl max a xs)" for a xs
  proof (induction xs arbitrary: a)
    case (Cons x xs)
    from Cons [of "max a x"] show ?case by auto
  qed simp
  have "zu_last_event_id (turn_state (zulip_turn J enc t (Inr events :: 'he + _))) = foldl max (zu_last_event_id t) (map ze_id events)"
    by (simp add: zulip_turn_state zulip_push_message_def Let_def)
  then have "\<forall>e \<in> set events. ze_id e \<le> zu_last_event_id (turn_state (zulip_turn J enc t (Inr events :: 'he + _)))"
    using le_foldl [where xs = "map ze_id events" and a = "zu_last_event_id t"] by simp
  moreover have "zulip_accept J t (Inr events) = [kept]"
    using assms(4) by (simp add: zulip_accept_def last_n_def)
  ultimately show ?thesis
    using zulip.run_numbers_decoded [OF assms(1) [unfolded zulip_recv_def] assms(2)]
      zulip_lossless.run_window [OF assms(1) [unfolded zulip_recv_def] assms(3)] by blast
qed

definition demo_zulip :: zulip_transport where
  "demo_zulip = \<lparr>zu_realm = ''r'', zu_email = [], zu_api_key = [], zu_stream = ''s'', zu_topic = ''t'',
     zu_queue_id = [], zu_last_event_id = 0, zu_messages = [], zu_seq = 0, zu_http = []\<rparr>"

definition demo_zulip_event :: "nat \<Rightarrow> json zulip_event" where
  "demo_zulip_event i = \<lparr>ze_id = int i, ze_type = ''message'', ze_message = Some \<lparr>za_id = i, za_sender_email = [],
     za_sender_full_name = [], za_content = [], za_timestamp = 0, za_stream_name = Some (JStr ''s''), za_subject = Some ''t''\<rparr>\<rparr>"

theorem zulip_batch_keeps_last_witness:
  "\<exists>bs t'. recv_run (zulip_recv value_json (Inr :: (json, zulip_snapshot) server_wire \<Rightarrow> unit + (json, zulip_snapshot) server_wire)) 1 demo_zulip
      [Inr [demo_zulip_event 1, demo_zulip_event 2] :: unit + json zulip_event list] = (bs, t', []) \<and>
     map zu_id (zu_messages t') = [2] \<and> length bs = 1"
proof -
  let ?recv = "zulip_recv value_json (Inr :: (json, zulip_snapshot) server_wire \<Rightarrow> unit + (json, zulip_snapshot) server_wire)"
  let ?ins = "[Inr [demo_zulip_event 1, demo_zulip_event 2] :: unit + json zulip_event list]"
  obtain bs t' where run: "recv_run ?recv 1 demo_zulip ?ins = (bs, t', [])" and len: "length bs = 1"
    by (simp add: zulip_recv_def zulip_turn_def demo_zulip_def demo_zulip_event_def Let_def zulip_message_matches_def
        zulip_convert_message_def zulip_push_message_def emit_def)
  have m: "zulip_matching value_json demo_zulip [demo_zulip_event 1, demo_zulip_event 2] =
      [zulip_convert_message (the (ze_message (demo_zulip_event 1)))] @ [zulip_convert_message (the (ze_message (demo_zulip_event 2)))]"
    by (simp add: zulip_matching_def demo_zulip_def demo_zulip_event_def zulip_message_matches_def List.map_filter_simps)
  have rt: "round_trips (Inr :: (json, zulip_snapshot) server_wire \<Rightarrow> unit + (json, zulip_snapshot) server_wire) Inr"
    and cap: "length (zu_messages demo_zulip) \<le> zulip_max_messages"
    by (simp_all add: round_trips_def demo_zulip_def)
  obtain used where "?ins = used @ []"
    and t': "zu_messages t' = last_n zulip_max_messages (zu_messages demo_zulip @ concat (map (zulip_accept value_json demo_zulip) used))"
    and k: "zulip_accept value_json demo_zulip (Inr [demo_zulip_event 1, demo_zulip_event 2] :: unit + json zulip_event list) =
        [zulip_convert_message (the (ze_message (demo_zulip_event 2)))]"
    using zulip_batch_keeps_last [OF run rt cap m] by blast
  then have "map zu_id (zu_messages t') = [2]"
    by (auto simp: demo_zulip_def demo_zulip_event_def zulip_max_messages_def last_n_def zulip_convert_message_def)
  with run len show ?thesis by (intro exI conjI)
qed

end
