(* ===== verification/Dates.thy ===== *)
theory Dates
  imports Prelude
begin

section \<open>The two date parsers\<close>

text \<open>
  Two connectors turn the timestamps of their services into Unix seconds, each with its own
  parser: \<^verbatim>\<open>parse_rfc3339\<close> in \<^verbatim>\<open>interconnect-connector-maillist/src/transport.rs\<close> and
  \<^verbatim>\<open>parse_iso8601\<close> in \<^verbatim>\<open>interconnect-connector-github/src/transport.rs\<close>. Slicing a string off a
  character boundary panics, and so does arithmetic that leaves its type (overflow checks on);
  both are the outcome \<open>Panic\<close>.
\<close>

subsection \<open>The RFC 3339 parser of the mailing list connector\<close>

text \<open>A string is a list of UTF-8 bytes; a boundary is not in front of a continuation byte.\<close>

definition char_boundary :: "string \<Rightarrow> nat \<Rightarrow> bool" where
  "char_boundary s i \<longleftrightarrow>
     (if i < length s then \<not> (128 \<le> (of_char (s ! i) :: nat) \<and> (of_char (s ! i) :: nat) \<le> 191) else i = length s)"

definition slice :: "string \<Rightarrow> nat \<Rightarrow> nat \<Rightarrow> string outcome" where
  "slice s a b =
     (if a \<le> b \<and> char_boundary s a \<and> char_boundary s b then Done (take (b - a) (drop a s)) else Panic)"

definition bind_parse :: "'a option outcome \<Rightarrow> ('a \<Rightarrow> 'b option outcome) \<Rightarrow> 'b option outcome" where
  "bind_parse m f = bind_outcome m (\<lambda>x. case x of None \<Rightarrow> Done None | Some v \<Rightarrow> f v)"

lemma bind_parse_simps [simp]:
  "bind_parse (Done (Some v)) f = f v" "bind_parse (Done None) f = Done None" "bind_parse Panic f = Panic"
  by (simp_all add: bind_parse_def)

definition slice_num :: "string \<Rightarrow> nat \<Rightarrow> nat \<Rightarrow> int option outcome" where
  "slice_num s a b = bind_outcome (slice s a b) (\<lambda>p. Done (parse_i64 p))"

definition is_leap :: "int \<Rightarrow> bool" where
  "is_leap y \<longleftrightarrow> y mod 4 = 0 \<and> y mod 100 \<noteq> 0 \<or> y mod 400 = 0"

definition days_in_month :: "int list" where
  "days_in_month = [31, 28, 31, 30, 31, 30, 31, 31, 30, 31, 30, 31]"

definition days_from_epoch :: "int \<Rightarrow> int \<Rightarrow> int \<Rightarrow> int option" where
  "days_from_epoch year month day =
     (if \<not> (1 \<le> month \<and> month \<le> 12) \<or> \<not> (1 \<le> day \<and> day \<le> 31) then None
      else
        (let by_year = (\<Sum>y\<leftarrow>[1970..year - 1]. if is_leap y then 366 else 365);
             by_month = (\<Sum>m\<leftarrow>[0..<nat (month - 1)]. days_in_month ! m + (if m = 1 \<and> is_leap year then 1 else 0))
         in Some (by_year + by_month + (day - 1))))"

definition skip_fraction :: "string \<Rightarrow> string" where
  "skip_fraction suffix =
     (case strip_prefix ''.'' suffix of
        Some rest \<Rightarrow> drop (1 + length (takeWhile (\<lambda>c. digit_val c \<noteq> None) rest)) suffix
      | None \<Rightarrow> suffix)"

definition utc_offset :: "string \<Rightarrow> int option outcome" where
  "utc_offset s =
     (if length s > 19 then
        bind_outcome (slice s 19 (length s)) (\<lambda>raw.
          (let suffix = skip_fraction raw in
           if suffix = ''Z'' \<or> suffix = [] then Done (Some 0)
           else if starts_with ''+'' suffix \<or> starts_with ''-'' suffix then
             (let sign = (if starts_with ''-'' suffix then - 1 else 1) in
              if length suffix \<ge> 6 then
                bind_parse (slice_num suffix 1 3) (\<lambda>oh.
                bind_parse (slice_num suffix 4 6) (\<lambda>om.
                Done (Some (sign * (oh * 3600 + om * 60)))))
              else Done (Some 0))
           else Done (Some 0)))
      else Done (Some 0))"

definition parse_rfc3339 :: "string \<Rightarrow> nat option outcome" where
  "parse_rfc3339 s =
     (if length s < 19 then Done None
      else
        bind_parse (slice_num s 0 4) (\<lambda>year.
        bind_parse (slice_num s 5 7) (\<lambda>month.
        bind_parse (slice_num s 8 10) (\<lambda>day.
        bind_parse (slice_num s 11 13) (\<lambda>hour.
        bind_parse (slice_num s 14 16) (\<lambda>mins.
        bind_parse (slice_num s 17 19) (\<lambda>sec.
        bind_parse (utc_offset s) (\<lambda>offset.
        (case days_from_epoch year month day of
           None \<Rightarrow> Done None
         | Some days \<Rightarrow>
             (let secs = days * 86400 + hour * 3600 + mins * 60 + sec - offset
              in if secs < 0 then Done None else Done (Some (nat secs))))))))))))"

definition parse_timestamp :: "string \<Rightarrow> nat outcome" where
  "parse_timestamp s =
     bind_outcome (parse_rfc3339 s) (\<lambda>r. Done (case r of None \<Rightarrow> 0 | Some n \<Rightarrow> n))"

subsection \<open>The ISO 8601 parser of the GitHub connector\<close>

definition chk_u64 :: "nat \<Rightarrow> nat outcome" where
  "chk_u64 n = (if n < 2 ^ 64 then Done n else Panic)"

definition chk_sub :: "nat \<Rightarrow> nat \<Rightarrow> nat outcome" where
  "chk_sub a b = (if b \<le> a then Done (a - b) else Panic)"

definition chk_i64 :: "int \<Rightarrow> int outcome" where
  "chk_i64 i = (if - (2 ^ 63) \<le> i \<and> i < 2 ^ 63 then Done i else Panic)"

text \<open>\<^verbatim>\<open>as i64\<close> on an unsigned value.\<close>

definition as_i64 :: "nat \<Rightarrow> int" where
  "as_i64 n = (if n < 2 ^ 63 then int n else int n - 2 ^ 64)"

text \<open>The day of the year that starts in March, and the day count.\<close>

definition day_of_year :: "nat \<Rightarrow> nat \<Rightarrow> nat outcome" where
  "day_of_year m day =
     bind_outcome (if m > 2 then Done (m - 3) else chk_u64 (m + 9)) (\<lambda>mp.
     bind_outcome (chk_u64 (153 * mp)) (\<lambda>a.
     bind_outcome (chk_u64 (a + 2)) (\<lambda>b.
     bind_outcome (chk_u64 (b div 5 + day)) (\<lambda>c.
     chk_sub c 1))))"

definition civil_days :: "nat \<Rightarrow> nat \<Rightarrow> int outcome" where
  "civil_days era doe =
     bind_outcome (chk_i64 (as_i64 era * 146097)) (\<lambda>e.
     bind_outcome (chk_i64 (e + as_i64 doe)) (\<lambda>d.
     chk_i64 (d - 719468)))"

definition days_since_epoch :: "nat \<Rightarrow> nat \<Rightarrow> nat \<Rightarrow> int outcome" where
  "days_since_epoch year month day =
     bind_outcome (if month \<le> 2 then chk_sub year 1 else Done year) (\<lambda>y.
       (let era = y div 400; yoe = y - era * 400 in
        bind_outcome (day_of_year month day) (\<lambda>doy.
        bind_outcome (chk_u64 (yoe * 365 + yoe div 4 - yoe div 100 + doy)) (\<lambda>doe.
        civil_days era doe))))"

definition parse_iso8601 :: "string \<Rightarrow> nat outcome" where
  "parse_iso8601 text =
     (let s = trim_end (CHR ''Z'') text in
      case splitn2 (CHR ''T'') s of
        [d, t] \<Rightarrow>
          (case (List.map_filter parse_u64 (split_on (CHR ''-'') d), List.map_filter parse_u64 (split_on (CHR '':'') t)) of
             ([year, month, day], [hour, mins, sec]) \<Rightarrow>
               bind_outcome (days_since_epoch year month day) (\<lambda>days.
                 if days < 0 then Done 0
                 else
                   bind_outcome (chk_u64 (nat days * 86400)) (\<lambda>a.
                   bind_outcome (chk_u64 (hour * 3600)) (\<lambda>b.
                   bind_outcome (chk_u64 (a + b)) (\<lambda>c.
                   bind_outcome (chk_u64 (mins * 60)) (\<lambda>m.
                   bind_outcome (chk_u64 (c + m)) (\<lambda>e.
                   chk_u64 (e + sec)))))))
           | _ \<Rightarrow> Done 0)
      | _ \<Rightarrow> Done 0)"

subsection \<open>Both count the same days\<close>

text \<open>The number of leap days up to and including a year, and its step.\<close>

definition leaps :: "int \<Rightarrow> int" where
  "leaps y = y div 4 - y div 100 + y div 400"

lemma div_step: "0 < k \<Longrightarrow> y div k - (y - 1) div k = (if y mod k = 0 then 1 else 0)" for y k :: int
proof -
  assume k: "0 < k"
  define q where "q = y div k"
  define r where "r = y mod k"
  have y: "y = q * k + r" "0 \<le> r" "r < k"
    using k by (simp_all add: q_def r_def)
  have "(y - 1) div k = (if r = 0 then q - 1 else q)"
  proof (cases "r = 0")
    case True
    then have y1: "y - 1 = (q - 1) * k + (k - 1)" using y by (simp add: algebra_simps)
    have "((q - 1) * k + (k - 1)) div k = q - 1" using k by simp
    with True show ?thesis unfolding y1 by (simp only: simp_thms if_True)
  next
    case False
    then have y1: "y - 1 = q * k + (r - 1)" using y by simp
    have "(q * k + (r - 1)) div k = q" using y False by simp
    with False show ?thesis unfolding y1 by (simp only: if_False)
  qed
  then show ?thesis by (simp add: q_def r_def)
qed

lemma leaps_step: "leaps y - leaps (y - 1) = (if is_leap y then 1 else 0)"
proof -
  have "y mod 400 = 0 \<Longrightarrow> y mod 100 = 0" "y mod 100 = 0 \<Longrightarrow> y mod 4 = 0"
    using dvd_trans [of 100 400 y] dvd_trans [of 4 100 y] by (simp_all add: mod_eq_0_iff_dvd)
  moreover have arith: "a - a' = (if A then 1 else 0) \<Longrightarrow> b - b' = (if B then 1 else 0) \<Longrightarrow> c - c' = (if C then 1 else 0) \<Longrightarrow>
      (C \<Longrightarrow> B) \<Longrightarrow> (B \<Longrightarrow> A) \<Longrightarrow> (a - b + c) - (a' - b' + c') = (if A \<and> \<not> B \<or> C then 1 else 0)"
    for a a' b b' c c' :: int and A B C
    by (cases A; cases B; cases C) auto
  ultimately show ?thesis
    unfolding leaps_def is_leap_def
    by (intro arith div_step) simp_all
qed

lemma year_days: "(\<Sum>y\<leftarrow>[1970..1970 + int n - 1]. if is_leap y then 366 else 365) =
    365 * int n + leaps (1969 + int n) - leaps 1969"
proof (induction n)
  case 0
  then show ?case by simp
next
  case (Suc n)
  have "[1970..1970 + int (Suc n) - 1] = [1970..1970 + int n - 1] @ [1970 + int n]"
    using upto_rec2 [of 1970 "1970 + int n"] by (simp add: add.commute)
  with Suc leaps_step [of "1970 + int n"] show ?case
    by (simp add: algebra_simps split: if_splits)
qed

lemma era_days: "(y div 400) * 146097 + (y mod 400) * 365 + (y mod 400) div 4 - (y mod 400) div 100 =
    365 * y + leaps y" for y :: int
proof -
  define e where "e = y div 400"
  define r where "r = y mod 400"
  have y: "y = e * 400 + r" by (simp add: e_def r_def)
  have d: "(e * 400 + r) div 4 = e * 100 + r div 4" "(e * 400 + r) div 100 = e * 4 + r div 100"
    by simp_all
  have l: "leaps y = (e * 100 + r div 4) - (e * 4 + r div 100) + e"
    unfolding leaps_def by (simp only: e_def [symmetric]) (simp only: y d)
  have "e * 146097 + r * 365 + r div 4 - r div 100 = 365 * (e * 400 + r) + leaps y"
    unfolding l by simp
  then show ?thesis by (simp only: e_def [symmetric] r_def [symmetric] y [symmetric])
qed

text \<open>The day of the year counted from March, for the months of the civil year.\<close>

definition march_doy :: "nat \<Rightarrow> nat \<Rightarrow> nat" where
  "march_doy m day = (153 * (if m > 2 then m - 3 else m + 9) + 2) div 5 + day - 1"

lemma day_of_year_ok:
  assumes "1 \<le> m" "m \<le> 12" "1 \<le> day" "day \<le> 31"
  shows "day_of_year m day = Done (march_doy m day)" and "march_doy m day < 400"
proof -
  have "(153 * (if m > 2 then m - 3 else m + 9) + 2) div 5 < 340"
    using assms by (auto simp: div_less_iff_less_mult)
  then show "march_doy m day < 400"
    using assms by (simp add: march_doy_def)
  show "day_of_year m day = Done (march_doy m day)"
    using assms by (auto simp: day_of_year_def chk_u64_def chk_sub_def march_doy_def)
qed

lemma civil_days_ok: "era < 30 \<Longrightarrow> doe < 200000 \<Longrightarrow> civil_days era doe = Done (int era * 146097 + int doe - 719468)"
  by (simp add: civil_days_def chk_i64_def as_i64_def)

lemma chk_u64_ok: "n < 200000 \<Longrightarrow> chk_u64 n = Done n"
  by (simp add: chk_u64_def)

lemma days_in_month_nonneg: "k < 12 \<Longrightarrow> 0 \<le> days_in_month ! k"
  by (auto simp: days_in_month_def nth_Cons' less_Suc_eq numeral_eq_Suc)

lemma days_since_epoch_ok:
  assumes "1 \<le> m" "m \<le> 12" "1 \<le> day" "day \<le> 31" "1 \<le> y" "y \<le> 9999"
  shows "days_since_epoch y m day =
    Done (let y' = (if m \<le> 2 then int y - 1 else int y) in 365 * y' + leaps y' + int (march_doy m day) - 719468)"
proof -
  define y1 where "y1 = (if m \<le> 2 then y - 1 else y)"
  have y1: "int y1 = (if m \<le> 2 then int y - 1 else int y)" "y1 \<le> 9999"
    using assms by (auto simp: y1_def)
  define r where "r = y1 mod 400"
  have r: "y1 - y1 div 400 * 400 = r" "r < 400"
    by (simp_all add: r_def minus_div_mult_eq_mod)
  have doe: "r * 365 + r div 4 - r div 100 + march_doy m day < 200000"
    using r(2) day_of_year_ok(2) [OF assms(1-4)] by linarith
  have e: "y1 div 400 < 30" using y1(2) by linarith
  have "int (r * 365 + r div 4 - r div 100 + march_doy m day) =
      int r * 365 + int r div 4 - int r div 100 + int (march_doy m day)"
    by (simp add: of_nat_diff zdiv_int)
  moreover have "int (y1 div 400) * 146097 + int r * 365 + int r div 4 - int r div 100 = 365 * int y1 + leaps (int y1)"
    using era_days [of "int y1"] by (simp add: r_def zdiv_int zmod_int)
  moreover have "days_since_epoch y m day =
      Done (int (y1 div 400) * 146097 + int (r * 365 + r div 4 - r div 100 + march_doy m day) - 719468)"
  proof -
    have "(if m \<le> 2 then chk_sub y 1 else Done y) = Done y1"
      using assms by (simp add: chk_sub_def y1_def)
    then show ?thesis
      by (simp only: days_since_epoch_def Let_def r(1) day_of_year_ok(1) [OF assms(1-4)] bind_outcome.simps
          chk_u64_ok [OF doe] civil_days_ok [OF e doe])
  qed
  ultimately show ?thesis
    using y1(1) by (simp add: Let_def)
qed

lemma month_days:
  assumes "1 \<le> m" "m \<le> 12" "1 \<le> day"
  shows "365 * (y - 1) + leaps (y - 1) +
      (\<Sum>k\<leftarrow>[0..<m - 1]. days_in_month ! k + (if k = 1 \<and> is_leap y then 1 else 0)) + (int day - 1) + 306 =
    365 * (if m \<le> 2 then y - 1 else y) + leaps (if m \<le> 2 then y - 1 else y) + int (march_doy m day)"
proof -
  have "m \<in> {1, 2, 3, 4, 5, 6, 7, 8, 9, 10, 11, 12}"
    using assms by (simp only: insert_iff empty_iff) presburger
  moreover have "[0..<2] = [0, 1 :: nat]" "[0..<3] = [0, 1, 2 :: nat]" "[0..<4] = [0, 1, 2, 3 :: nat]"
    "[0..<5] = [0, 1, 2, 3, 4 :: nat]" "[0..<6] = [0, 1, 2, 3, 4, 5 :: nat]" "[0..<7] = [0, 1, 2, 3, 4, 5, 6 :: nat]"
    "[0..<8] = [0, 1, 2, 3, 4, 5, 6, 7 :: nat]" "[0..<9] = [0, 1, 2, 3, 4, 5, 6, 7, 8 :: nat]"
    "[0..<10] = [0, 1, 2, 3, 4, 5, 6, 7, 8, 9 :: nat]" "[0..<11] = [0, 1, 2, 3, 4, 5, 6, 7, 8, 9, 10 :: nat]"
    by (simp_all add: upt_rec)
  ultimately show ?thesis
    using leaps_step [of y] assms(3)
    by (auto simp: days_in_month_def march_doy_def of_nat_diff split: if_splits)
qed

lemma days_agree:
  assumes "1 \<le> m" "m \<le> 12" "1 \<le> day" "day \<le> 31" "1970 \<le> y" "y \<le> 9999"
  shows "\<exists>d. days_from_epoch (int y) (int m) (int day) = Some d \<and> days_since_epoch y m day = Done d \<and> 0 \<le> d"
proof -
  have "nat (int m - 1) = m - 1" using assms by simp
  moreover have "leaps 1969 = 477" by (simp add: leaps_def)
  ultimately have "days_from_epoch (int y) (int m) (int day) =
      Some (365 * (int y - 1970) + leaps (int y - 1) - 477 +
        (\<Sum>k\<leftarrow>[0..<m - 1]. days_in_month ! k + (if k = 1 \<and> is_leap (int y) then 1 else 0)) + (int day - 1))"
    using assms year_days [of "y - 1970"] by (simp add: days_from_epoch_def Let_def of_nat_diff)
  moreover note days_since_epoch_ok [of m day y] month_days [of m day "int y"]
  moreover have "days_from_epoch (int y) (int m) (int day) = Some d \<Longrightarrow> 0 \<le> d" for d
    using assms
    by (auto simp: days_from_epoch_def Let_def intro!: add_nonneg_nonneg sum_list_nonneg days_in_month_nonneg)
  ultimately show ?thesis
    using assms by (simp add: Let_def split: if_splits)
qed

subsection \<open>Both read the same strings\<close>

definition utc_text :: "string \<Rightarrow> string \<Rightarrow> string \<Rightarrow> string \<Rightarrow> string \<Rightarrow> string \<Rightarrow> string" where
  "utc_text ys ms ds hs ns ss = ys @ ''-'' @ ms @ ''-'' @ ds @ ''T'' @ hs @ '':'' @ ns @ '':'' @ ss @ ''Z''"

text \<open>\<open>reads k ds v\<close>: \<open>ds\<close> is \<open>k\<close> decimal digits with the value \<open>v\<close>.\<close>

definition reads :: "nat \<Rightarrow> string \<Rightarrow> nat \<Rightarrow> bool" where
  "reads k ds v \<longleftrightarrow> length ds = k \<and> parse_digits 0 ds = Some v"

lemma digit_val_range: "digit_val c = Some d \<Longrightarrow> 48 \<le> (of_char c :: nat) \<and> (of_char c :: nat) \<le> 57 \<and> d < 10"
  by (auto simp: digit_val_def Let_def split: if_splits)

lemma parse_digits_bound: "parse_digits acc ds = Some v \<Longrightarrow> v < (acc + 1) * 10 ^ length ds"
proof (induction ds arbitrary: acc)
  case (Cons c ds)
  then obtain d where d: "digit_val c = Some d" "parse_digits (10 * acc + d) ds = Some v"
    by (auto split: option.splits)
  with Cons.IH have "v < (10 * acc + d + 1) * 10 ^ length ds" by blast
  also have "\<dots> \<le> (10 * acc + 10) * 10 ^ length ds"
    using digit_val_range [OF d(1)] by (intro mult_right_mono) auto
  finally show ?case by (simp add: algebra_simps)
qed simp

lemma parse_digits_all: "parse_digits acc ds = Some v \<Longrightarrow> c \<in> set ds \<Longrightarrow> digit_val c \<noteq> None"
  by (induction ds arbitrary: acc) (auto split: option.splits)

lemma reads_bound: "reads k ds v \<Longrightarrow> v < 10 ^ k"
  using parse_digits_bound [of 0 ds v] by (simp add: reads_def)

lemma reads_char: "reads k ds v \<Longrightarrow> c \<in> set ds \<Longrightarrow> 48 \<le> (of_char c :: nat) \<and> (of_char c :: nat) \<le> 57"
  using parse_digits_all digit_val_range by (fastforce simp: reads_def)

lemma reads_not_in: "reads k ds v \<Longrightarrow> \<not> (48 \<le> (of_char c :: nat) \<and> (of_char c :: nat) \<le> 57) \<Longrightarrow> c \<notin> set ds"
  using reads_char by blast

lemma reads_parse_u64: "reads k ds v \<Longrightarrow> 0 < k \<Longrightarrow> k \<le> 4 \<Longrightarrow> parse_u64 ds = Some v"
proof -
  assume r: "reads k ds v" "0 < k" "k \<le> 4"
  then have "v < 10 ^ k" using reads_bound by blast
  also have "(10 :: nat) ^ k \<le> 10 ^ 4" using r(3) by (intro power_increasing) auto
  finally have "v < 2 ^ 64" by simp
  moreover obtain c cs where ds: "ds = c # cs" using r by (cases ds) (auto simp: reads_def)
  moreover have "c \<noteq> CHR ''+''"
    using reads_char [OF r(1), of c] ds by (auto simp: of_char_def)
  ultimately show ?thesis using r(1) by (simp add: parse_unsigned_def reads_def)
qed

lemma reads_parse_i64: "reads k ds v \<Longrightarrow> 0 < k \<Longrightarrow> k \<le> 4 \<Longrightarrow> parse_i64 ds = Some (int v)"
proof -
  assume r: "reads k ds v" "0 < k" "k \<le> 4"
  then have "v < 10 ^ k" using reads_bound by blast
  also have "(10 :: nat) ^ k \<le> 10 ^ 4" using r(3) by (intro power_increasing) auto
  finally have "v < 10000" by simp
  moreover obtain c cs where ds: "ds = c # cs" using r by (cases ds) (auto simp: reads_def)
  moreover have "c \<noteq> CHR ''+'' \<and> c \<noteq> CHR ''-''"
    using reads_char [OF r(1), of c] ds by (auto simp: of_char_def)
  ultimately show ?thesis using r(1) by (simp add: parse_i64_def reads_def)
qed

lemma boundary_ascii: "\<forall>c \<in> set s. (of_char c :: nat) < 128 \<Longrightarrow> i \<le> length s \<Longrightarrow> char_boundary s i"
  by (auto simp: char_boundary_def dest!: nth_mem)

lemma slice_middle:
  "\<forall>c \<in> set (a @ b @ c'). (of_char c :: nat) < 128 \<Longrightarrow> i = length a \<Longrightarrow> j = length a + length b \<Longrightarrow>
     slice (a @ b @ c') i j = Done b"
  by (simp add: slice_def boundary_ascii)

text \<open>The twenty bytes of such a text, its fields and its last byte.\<close>

lemma utc_text_ascii:
  assumes "reads 4 ys y" "reads 2 ms m" "reads 2 ds d" "reads 2 hs h" "reads 2 ns n" "reads 2 ss s"
  shows "\<forall>c \<in> set (utc_text ys ms ds hs ns ss). (of_char c :: nat) < 128" and "length (utc_text ys ms ds hs ns ss) = 20"
proof -
  have "(of_char c :: nat) < 128" if "reads k xs v" "c \<in> set xs" for k xs v c
    using reads_char [OF that] by linarith
  with assms show "\<forall>c \<in> set (utc_text ys ms ds hs ns ss). (of_char c :: nat) < 128"
    by (auto simp: utc_text_def)
  show "length (utc_text ys ms ds hs ns ss) = 20"
    using assms by (simp add: utc_text_def reads_def)
qed

lemma utc_text_slices:
  assumes "reads 4 ys y" "reads 2 ms m" "reads 2 ds d" "reads 2 hs h" "reads 2 ns n" "reads 2 ss s"
  defines "T \<equiv> utc_text ys ms ds hs ns ss"
  shows "slice_num T 0 4 = Done (Some (int y))" "slice_num T 5 7 = Done (Some (int m))"
    "slice_num T 8 10 = Done (Some (int d))" "slice_num T 11 13 = Done (Some (int h))"
    "slice_num T 14 16 = Done (Some (int n))" "slice_num T 17 19 = Done (Some (int s))" "slice T 19 20 = Done ''Z''"
proof -
  note ascii = utc_text_ascii(1) [OF assms(1-6)]
  have len: "length ys = 4" "length ms = 2" "length ds = 2" "length hs = 2" "length ns = 2" "length ss = 2"
    using assms by (simp_all add: reads_def)
  have cut: "T = a @ b @ c \<Longrightarrow> i = length a \<Longrightarrow> j = length a + length b \<Longrightarrow> slice T i j = Done b" for a b c i j
    using slice_middle [of a b c i j] ascii by (simp add: T_def)
  have "slice T 0 4 = Done ys"
    by (rule cut [of "[]" _ "''-'' @ ms @ ''-'' @ ds @ ''T'' @ hs @ '':'' @ ns @ '':'' @ ss @ ''Z''"]) (simp_all add: T_def utc_text_def len)
  moreover have "slice T 5 7 = Done ms"
    by (rule cut [of "ys @ ''-''" _ "''-'' @ ds @ ''T'' @ hs @ '':'' @ ns @ '':'' @ ss @ ''Z''"]) (simp_all add: T_def utc_text_def len)
  moreover have "slice T 8 10 = Done ds"
    by (rule cut [of "ys @ ''-'' @ ms @ ''-''" _ "''T'' @ hs @ '':'' @ ns @ '':'' @ ss @ ''Z''"]) (simp_all add: T_def utc_text_def len)
  moreover have "slice T 11 13 = Done hs"
    by (rule cut [of "ys @ ''-'' @ ms @ ''-'' @ ds @ ''T''" _ "'':'' @ ns @ '':'' @ ss @ ''Z''"]) (simp_all add: T_def utc_text_def len)
  moreover have "slice T 14 16 = Done ns"
    by (rule cut [of "ys @ ''-'' @ ms @ ''-'' @ ds @ ''T'' @ hs @ '':''" _ "'':'' @ ss @ ''Z''"]) (simp_all add: T_def utc_text_def len)
  moreover have "slice T 17 19 = Done ss"
    by (rule cut [of "ys @ ''-'' @ ms @ ''-'' @ ds @ ''T'' @ hs @ '':'' @ ns @ '':''" _ "''Z''"]) (simp_all add: T_def utc_text_def len)
  moreover show "slice T 19 20 = Done ''Z''"
    by (rule cut [of "ys @ ''-'' @ ms @ ''-'' @ ds @ ''T'' @ hs @ '':'' @ ns @ '':'' @ ss" _ "[]"]) (simp_all add: T_def utc_text_def len)
  ultimately show "slice_num T 0 4 = Done (Some (int y))" "slice_num T 5 7 = Done (Some (int m))"
    "slice_num T 8 10 = Done (Some (int d))" "slice_num T 11 13 = Done (Some (int h))"
    "slice_num T 14 16 = Done (Some (int n))" "slice_num T 17 19 = Done (Some (int s))"
    using assms(1-6) by (simp_all add: slice_num_def reads_parse_i64)
qed

lemma rfc3339_utc:
  assumes "reads 4 ys y" "reads 2 ms m" "reads 2 ds d" "reads 2 hs h" "reads 2 ns n" "reads 2 ss s"
    and "days_from_epoch (int y) (int m) (int d) = Some days" "0 \<le> days"
  shows "parse_rfc3339 (utc_text ys ms ds hs ns ss) = Done (Some (nat days * 86400 + h * 3600 + n * 60 + s))"
proof -
  have "utc_offset (utc_text ys ms ds hs ns ss) = Done (Some 0)"
    using utc_text_slices(7) [OF assms(1-6)] utc_text_ascii(2) [OF assms(1-6)]
    by (simp add: utc_offset_def skip_fraction_def strip_prefix_def starts_with_def)
  moreover have "nat (days * 86400 + int h * 3600 + int n * 60 + int s) = nat days * 86400 + h * 3600 + n * 60 + s"
    using assms(8) by (simp add: nat_add_distrib nat_mult_distrib)
  ultimately show ?thesis
    using utc_text_slices(1-6) [OF assms(1-6)] utc_text_ascii(2) [OF assms(1-6)] assms(7,8)
    by (simp add: parse_rfc3339_def Let_def)
qed

lemma iso8601_utc:
  assumes "reads 4 ys y" "reads 2 ms m" "reads 2 ds d" "reads 2 hs h" "reads 2 ns n" "reads 2 ss s"
    and "days_since_epoch y m d = Done days" "0 \<le> days" "days < 10 ^ 8"
  shows "parse_iso8601 (utc_text ys ms ds hs ns ss) = Done (nat days * 86400 + h * 3600 + n * 60 + s)"
proof -
  have no: "CHR ''-'' \<notin> set xs" "CHR ''T'' \<notin> set xs" "CHR '':'' \<notin> set xs" "CHR ''Z'' \<notin> set xs" if "reads k xs v" for k xs v
    using reads_not_in [OF that] by (auto simp: of_char_def)
  have last: "rev ss \<noteq> [] \<and> hd (rev ss) \<noteq> CHR ''Z''"
    using assms(6) no(4) [OF assms(6)] by (cases ss rule: rev_cases) (auto simp: reads_def)
  then obtain z zs where z: "rev ss = z # zs" "z \<noteq> CHR ''Z''" by (cases "rev ss") auto
  have trim: "trim_end (CHR ''Z'') (utc_text ys ms ds hs ns ss) =
      (ys @ ''-'' @ ms @ ''-'' @ ds) @ CHR ''T'' # (hs @ '':'' @ ns @ '':'' @ ss)"
    using z by (simp add: trim_end_def utc_text_def)
  have "splitn2 (CHR ''T'') ((ys @ ''-'' @ ms @ ''-'' @ ds) @ CHR ''T'' # (hs @ '':'' @ ns @ '':'' @ ss)) =
      [ys @ ''-'' @ ms @ ''-'' @ ds, hs @ '':'' @ ns @ '':'' @ ss]"
    unfolding splitn2_def by (subst split_once_append) (use no assms in \<open>auto\<close>)
  moreover have "split_on (CHR ''-'') (ys @ ''-'' @ ms @ ''-'' @ ds) = [ys, ms, ds]"
    using no(1) [OF assms(1)] no(1) [OF assms(2)] no(1) [OF assms(3)] by (simp add: split_on_append split_on_no_sep)
  moreover have "split_on (CHR '':'') (hs @ '':'' @ ns @ '':'' @ ss) = [hs, ns, ss]"
    using no(3) [OF assms(4)] no(3) [OF assms(5)] no(3) [OF assms(6)] by (simp add: split_on_append split_on_no_sep)
  moreover have "parse_u64 ys = Some y" "parse_u64 ms = Some m" "parse_u64 ds = Some d"
      "parse_u64 hs = Some h" "parse_u64 ns = Some n" "parse_u64 ss = Some s"
    using reads_parse_u64 [OF assms(1)] reads_parse_u64 [OF assms(2)] reads_parse_u64 [OF assms(3)]
      reads_parse_u64 [OF assms(4)] reads_parse_u64 [OF assms(5)] reads_parse_u64 [OF assms(6)] by simp_all
  moreover have "h < 100" "n < 100" "s < 100" "nat days < 10 ^ 8"
    using reads_bound [OF assms(4)] reads_bound [OF assms(5)] reads_bound [OF assms(6)] assms(8,9) by simp_all
  ultimately show ?thesis
    using assms(7,8) by (simp add: parse_iso8601_def trim List.map_filter_simps chk_u64_def)
qed

lemma iso8601_example: "parse_iso8601 ''2024-01-15T10:30:00Z'' = Done 1705314600"
  by (simp add: parse_iso8601_def trim_end_def splitn2_def parse_unsigned_def digit_val_def List.map_filter_simps
      days_since_epoch_def Let_def day_of_year_def chk_u64_def chk_sub_def civil_days_ok)

text \<open>C23: on every UTC time stamp \<^verbatim>\<open>YYYY-MM-DDThh:mm:ssZ\<close> from the year 1970 on, with a month from 1
  to 12 and a day from 1 to 31, the two parsers agree: neither panics and both give the same
  number of seconds, one by adding up years and months, the other by the era formula. The
  ISO 8601 parser, documented to return 0 on failure, panics on the day 0 of March.\<close>

theorem date_parsers_agree:
  assumes "reads 4 ys y" "reads 2 ms m" "reads 2 ds d" "reads 2 hs h" "reads 2 ns n" "reads 2 ss s"
    and "1970 \<le> y" "1 \<le> m" "m \<le> 12" "1 \<le> d" "d \<le> 31"
  shows "(\<exists>t. parse_timestamp (utc_text ys ms ds hs ns ss) = Done t \<and> parse_iso8601 (utc_text ys ms ds hs ns ss) = Done t) \<and>
    parse_iso8601 ''2024-03-00T00:00:00Z'' = Panic"
proof
  have y: "y \<le> 9999" using reads_bound [OF assms(1)] by simp
  obtain days where days: "days_from_epoch (int y) (int m) (int d) = Some days" "days_since_epoch y m d = Done days" "0 \<le> days"
    using days_agree [of m d y] assms y by auto
  have "days < 10 ^ 8"
  proof -
    have leaps: "leaps z \<le> 2 * z" if "0 \<le> z" for z
      using that zdiv_mono2 [of z 1 4] zdiv_mono2 [of z 1 400] pos_imp_zdiv_nonneg_iff [of 100 z]
      by (simp add: leaps_def)
    define y' where "y' = (if m \<le> 2 then int y - 1 else int y)"
    have "0 \<le> y'" "y' \<le> 9999" using assms y by (simp_all add: y'_def)
    moreover have "days = 365 * y' + leaps y' + int (march_doy m d) - 719468"
      using days(2) days_since_epoch_ok [of m d y] assms y by (simp add: Let_def y'_def)
    moreover have "march_doy m d < 400" using day_of_year_ok(2) assms by blast
    ultimately show ?thesis
      using leaps [of y'] by simp
  qed
  with days iso8601_utc [OF assms(1-6)] rfc3339_utc [OF assms(1-6)]
  show "\<exists>t. parse_timestamp (utc_text ys ms ds hs ns ss) = Done t \<and> parse_iso8601 (utc_text ys ms ds hs ns ss) = Done t"
    by (simp add: parse_timestamp_def)
  show "parse_iso8601 ''2024-03-00T00:00:00Z'' = Panic"
    by (simp add: parse_iso8601_def trim_end_def splitn2_def parse_unsigned_def digit_val_def List.map_filter_simps
        days_since_epoch_def Let_def day_of_year_def chk_u64_def chk_sub_def)
qed

theorem date_parsers_agree_witness:
  "\<exists>t. parse_timestamp ''2024-01-15T10:30:00Z'' = Done t \<and> parse_iso8601 ''2024-01-15T10:30:00Z'' = Done t"
proof -
  have "reads 4 ''2024'' 2024" "reads 2 ''01'' 1" "reads 2 ''15'' 15" "reads 2 ''10'' 10" "reads 2 ''30'' 30" "reads 2 ''00'' 0"
    by (simp_all add: reads_def digit_val_def)
  from date_parsers_agree [OF this] show ?thesis by (simp add: utc_text_def)
qed

end
