(* ===== verification/Maillist.thy ===== *)
theory Maillist
  imports Client Dates
begin

unbundle bit_operations_syntax

section \<open>The mailing list connector\<close>

text \<open>
  \<^verbatim>\<open>crates/connectors/interconnect-connector-maillist/src\<close>: the Listmonk API with its basic
  authentication header, the polled list of campaigns, and sending a campaign. The inputs of the
  receive loop are the outcomes of the polls, decoded into the source's response structures. A
  panic in the date parser ends the task that polls, as an error does: it is the error value
  \<open>MailPanic\<close>. The field
  \<open>ml_http\<close>, the HTTP client of the transport, holds the requests that sending made through it.
\<close>

subsection \<open>Base 64\<close>

definition alphabet :: string where
  "alphabet = ''ABCDEFGHIJKLMNOPQRSTUVWXYZabcdefghijklmnopqrstuvwxyz0123456789+/''"

definition b64_digit :: "u32 \<Rightarrow> nat \<Rightarrow> char" where
  "b64_digit n k = alphabet ! unat (drop_bit k n AND 0x3f)"

definition b64_chunk :: "8 word list \<Rightarrow> string" where
  "b64_chunk chunk =
     (let b0 = ucast (chunk ! 0) :: u32;
          b1 = (if 1 < length chunk then ucast (chunk ! 1) else 0) :: u32;
          b2 = (if 2 < length chunk then ucast (chunk ! 2) else 0) :: u32;
          n = push_bit 16 b0 OR push_bit 8 b1 OR b2
      in [b64_digit n 18, b64_digit n 12,
          (if length chunk > 1 then b64_digit n 6 else CHR ''=''),
          (if length chunk > 2 then b64_digit n 0 else CHR ''='')])"

text \<open>\<^verbatim>\<open>chunks(3)\<close> and the encoder.\<close>

fun base64_encode :: "8 word list \<Rightarrow> string" where
  "base64_encode [] = []"
| "base64_encode (a # b # c # rest) = b64_chunk [a, b, c] @ base64_encode rest"
| "base64_encode [a, b] = b64_chunk [a, b]"
| "base64_encode [a] = b64_chunk [a]"

text \<open>The decoder of RFC 4648, as a server would read the header: four characters give three bytes,
  less one for every padding character.\<close>

fun index_in :: "char \<Rightarrow> string \<Rightarrow> nat option" where
  "index_in c [] = None"
| "index_in c (x # xs) = (if x = c then Some 0 else map_option Suc (index_in c xs))"

definition rfc_bytes :: "nat \<Rightarrow> nat \<Rightarrow> nat \<Rightarrow> nat \<Rightarrow> 8 word list" where
  "rfc_bytes i j k l =
     [word_of_nat (i * 4 + j div 16), word_of_nat (j mod 16 * 16 + k div 4), word_of_nat (k mod 4 * 64 + l)]"

fun base64_decode :: "string \<Rightarrow> 8 word list option" where
  "base64_decode [] = Some []"
| "base64_decode (c0 # c1 # c2 # c3 # rest) =
     (case (index_in c0 alphabet, index_in c1 alphabet) of
        (Some i, Some j) \<Rightarrow>
          if c2 = CHR ''='' \<and> c3 = CHR ''='' \<and> rest = [] then Some (take 1 (rfc_bytes i j 0 0))
          else (case index_in c2 alphabet of
                  None \<Rightarrow> None
                | Some k \<Rightarrow>
                    if c3 = CHR ''='' \<and> rest = [] then Some (take 2 (rfc_bytes i j k 0))
                    else (case index_in c3 alphabet of
                            None \<Rightarrow> None
                          | Some l \<Rightarrow> map_option ((@) (rfc_bytes i j k l)) (base64_decode rest)))
      | _ \<Rightarrow> None)"
| "base64_decode _ = None"

lemma length_alphabet: "length alphabet = 64"
  by (simp add: alphabet_def)

lemma index_alphabet: "i < 64 \<Longrightarrow> index_in (alphabet ! i) alphabet = Some i"
proof -
  have "\<forall>i \<in> set [0..<64]. index_in (alphabet ! i) alphabet = Some i"
    by (simp add: alphabet_def upt_rec [of _ 64])
  then show "i < 64 \<Longrightarrow> index_in (alphabet ! i) alphabet = Some i" by simp
qed

lemma alphabet_no_pad: "i < 64 \<Longrightarrow> alphabet ! i \<noteq> CHR ''=''"
  using index_alphabet [of i] by (auto simp: alphabet_def)

lemma digit_nat: "b64_digit n k = alphabet ! (unat n div 2 ^ k mod 64)"
proof -
  have "drop_bit k n AND 0x3f = take_bit 6 (drop_bit k n)"
    by (simp add: take_bit_eq_mask mask_eq_exp_minus_1)
  then have "unat (drop_bit k n AND 0x3f) = take_bit 6 (drop_bit k (take_bit 32 (unat n)))"
  proof -
    have "LENGTH(32) = 32" by simp
    then show ?thesis
      using \<open>drop_bit k n AND 0x3f = take_bit 6 (drop_bit k n)\<close> by (simp only: unsigned_take_bit_eq unsigned_drop_bit_eq)
  qed
  also have "take_bit 32 (unat n) = unat n"
    using unsigned_less [of n] by (simp add: take_bit_nat_eq_self_iff)
  finally show ?thesis
    by (simp add: b64_digit_def take_bit_eq_mod drop_bit_eq_div)
qed

lemma byte_less: "unat x < 256" for x :: "8 word"
  using unsigned_less [of x] by simp

lemma widened: "unat (ucast x :: u32) = unat x" for x :: "8 word"
  using byte_less [of x] by (simp add: unsigned_ucast_eq take_bit_nat_eq_self_iff)

lemma unat_shifted: "unat x * 2 ^ k < 2 ^ 32 \<Longrightarrow> unat (push_bit k (ucast x :: u32)) = unat x * 2 ^ k" for x :: "8 word"
  by (simp only: unsigned_push_bit_eq) (simp add: push_bit_eq_mult take_bit_nat_eq_self_iff widened)

lemma chunk_word:
  fixes x y z :: "8 word"
  shows "unat (push_bit 16 (ucast x :: u32) OR push_bit 8 (ucast y) OR ucast z) = unat x * 65536 + unat y * 256 + unat z"
proof -
  have bits: "\<not> bit (ucast w :: u32) i" if "8 \<le> i" for w :: "8 word" and i
    using that by (auto simp: bit_simps dest: bit_imp_le_length)
  have "push_bit 8 (ucast y :: u32) OR ucast z = push_bit 8 (ucast y) + ucast z"
    by (rule disjunctive_add [symmetric]) (use bits in \<open>auto simp: bit_push_bit_iff\<close>)
  moreover have "push_bit 16 (ucast x :: u32) OR (push_bit 8 (ucast y) OR ucast z) =
      push_bit 16 (ucast x) + (push_bit 8 (ucast y) OR ucast z)"
    by (rule disjunctive_add [symmetric]) (use bits in \<open>auto simp: bit_push_bit_iff bit_or_iff\<close>)
  ultimately have n: "push_bit 16 (ucast x :: u32) OR push_bit 8 (ucast y) OR ucast z =
      push_bit 16 (ucast x) + (push_bit 8 (ucast y) + ucast z)"
    by (simp only: or.assoc)
  have u: "unat (push_bit 16 (ucast x :: u32)) = unat x * 65536" "unat (push_bit 8 (ucast y :: u32)) = unat y * 256"
    using unat_shifted [of x 16] unat_shifted [of y 8] byte_less [of x] byte_less [of y] by simp_all
  have s1: "unat (push_bit 8 (ucast y :: u32) + ucast z) = unat y * 256 + unat z"
    using unat_add_lem [of "push_bit 8 (ucast y :: u32)" "ucast z"] byte_less [of y] byte_less [of z]
    by (simp add: u(2) widened)
  have "unat (push_bit 16 (ucast x :: u32) + (push_bit 8 (ucast y) + ucast z)) = unat x * 65536 + (unat y * 256 + unat z)"
    using unat_add_lem [of "push_bit 16 (ucast x :: u32)" "push_bit 8 (ucast y) + ucast z"]
      byte_less [of x] byte_less [of y] byte_less [of z]
    by (simp add: u(1) s1)
  then show ?thesis by (simp only: n add.assoc)
qed

definition b64_index :: "nat \<Rightarrow> nat \<Rightarrow> nat \<Rightarrow> nat \<Rightarrow> nat" where
  "b64_index x y z k = (x * 65536 + y * 256 + z) div 2 ^ k mod 64"

lemma b64_index_simps:
  assumes "x < 256" "y < 256" "z < 256"
  shows "b64_index x y z 18 = x div 4" "b64_index x y z 12 = x mod 4 * 16 + y div 16"
    "b64_index x y z 6 = y mod 16 * 4 + z div 64" "b64_index x y z 0 = z mod 64"
proof -
  have split: "w < b \<Longrightarrow> a = q * b + w \<Longrightarrow> a div b = q \<and> a mod b = w" for w b q a :: nat
    by simp
  define g h where "g = x div 4" and "h = x mod 4"
  define r s where "r = y div 16" and "s = y mod 16"
  define u v where "u = z div 64" and "v = z mod 64"
  have xyz: "x = 4 * g + h" "y = 16 * r + s" "z = 64 * u + v" "h < 4" "s < 16" "v < 64" "g < 64" "r < 16" "u < 4"
    using assms by (simp_all add: g_def h_def r_def s_def u_def v_def less_mult_imp_div_less)
  have pow: "(2 :: nat) ^ 18 = 262144" "(2 :: nat) ^ 12 = 4096" "(2 :: nat) ^ 6 = 64" "(2 :: nat) ^ 0 = 1"
    by simp_all
  have 18: "(x * 65536 + y * 256 + z) div 262144 = g"
    by (rule conjunct1 [OF split [of "h * 65536 + y * 256 + z"]]; use xyz assms in linarith)
  have "g mod 64 = g" using xyz by simp
  with 18 show "b64_index x y z 18 = x div 4" unfolding b64_index_def pow g_def by (simp only:)
  have 12: "(x * 65536 + y * 256 + z) div 4096 = g * 64 + (h * 16 + r)"
  proof (rule conjunct1 [OF split [of "s * 256 + z"]])
    show "s * 256 + z < 4096" using xyz(5) assms(3) by linarith
    show "x * 65536 + y * 256 + z = (g * 64 + (h * 16 + r)) * 4096 + (s * 256 + z)"
      by (simp add: xyz(1,2) algebra_simps)
  qed
  have "(g * 64 + (h * 16 + r)) mod 64 = h * 16 + r"
    by (rule conjunct2 [OF split [of "h * 16 + r" _ _ g]]; use xyz in linarith)
  with 12 show "b64_index x y z 12 = x mod 4 * 16 + y div 16" unfolding b64_index_def pow h_def r_def by (simp only:)
  have 6: "(x * 65536 + y * 256 + z) div 64 = (x * 16 + r) * 64 + (s * 4 + u)"
    by (rule conjunct1 [OF split [of v]]) (simp_all add: xyz(1,2,3,6) algebra_simps)
  have "((x * 16 + r) * 64 + (s * 4 + u)) mod 64 = s * 4 + u"
    by (rule conjunct2 [OF split [of "s * 4 + u" _ _ "x * 16 + r"]]; use xyz in linarith)
  with 6 show "b64_index x y z 6 = y mod 16 * 4 + z div 64" unfolding b64_index_def pow s_def u_def by (simp only:)
  have "(x * 65536 + y * 256 + z) mod 64 = v"
    by (rule conjunct2 [OF split [of v _ _ "x * 1024 + y * 4 + u"]]) (simp_all add: xyz(3,6) algebra_simps)
  then show "b64_index x y z 0 = z mod 64" unfolding b64_index_def pow v_def by (simp only: div_by_1)
qed

lemma chunk_indices:
  fixes x y z :: "8 word"
  assumes "n = push_bit 16 (ucast x :: u32) OR push_bit 8 (ucast y) OR ucast z"
  shows "b64_digit n k = alphabet ! b64_index (unat x) (unat y) (unat z) k"
  by (simp add: digit_nat assms chunk_word b64_index_def)

lemma index_bound: "b64_index x y z k < 64"
  by (simp add: b64_index_def)

lemma rfc_bytes_index:
  fixes x y z :: "8 word"
  shows "rfc_bytes (b64_index (unat x) (unat y) (unat z) 18) (b64_index (unat x) (unat y) (unat z) 12)
    (b64_index (unat x) (unat y) (unat z) 6) (b64_index (unat x) (unat y) (unat z) 0) = [x, y, z]"
proof -
  have d: "a div 4 * 4 + (a mod 4 * 16 + b div 16) div 16 = a" "(a mod 4 * 16 + b div 16) mod 16 = b div 16"
    if "b < 256" for a b :: nat
    using that by (simp_all add: less_mult_imp_div_less)
  have e: "b div 16 * 16 + (b mod 16 * 4 + c div 64) div 4 = b" "(b mod 16 * 4 + c div 64) mod 4 = c div 64"
    if "c < 256" for b c :: nat
    using that by (simp_all add: less_mult_imp_div_less)
  show ?thesis
    using d [of "unat y" "unat x"] e [of "unat z" "unat y"] byte_less [of x] byte_less [of y] byte_less [of z]
    by (simp add: rfc_bytes_def b64_index_simps)
qed

lemma b64_chunk3:
  "b64_chunk [x, y, z] = map (\<lambda>k. alphabet ! b64_index (unat x) (unat y) (unat z) k) [18, 12, 6, 0]"
  by (simp add: b64_chunk_def Let_def chunk_indices)

lemma b64_chunk2:
  "b64_chunk [x, y] = map (\<lambda>k. alphabet ! b64_index (unat x) (unat y) 0 k) [18, 12, 6] @ ''=''"
  using chunk_indices [where x = x and y = y and z = 0] by (simp add: b64_chunk_def Let_def)

lemma b64_chunk1:
  "b64_chunk [x] = map (\<lambda>k. alphabet ! b64_index (unat x) 0 0 k) [18, 12] @ ''==''"
  using chunk_indices [where x = x and y = 0 and z = 0] by (simp add: b64_chunk_def Let_def)

text \<open>C20: whatever the credentials are, a server that decodes the authentication header with the
  RFC 4648 decoder gets exactly their bytes back, and the encoding is padded: its length is the
  next multiple of four characters for every three bytes. The comment on the function promises
  an encoding without padding.\<close>

theorem base64_roundtrip:
  "base64_decode (base64_encode bs) = Some bs \<and> length (base64_encode bs) = 4 * ((length bs + 2) div 3)"
proof (induction bs rule: base64_encode.induct)
  case (2 a b c rest)
  have "(5 + length rest) div 3 = (2 + length rest) div 3 + 1"
    by presburger
  with 2 rfc_bytes_index [of a b c] show ?case
    by (simp add: b64_chunk3 index_alphabet index_bound alphabet_no_pad)
next
  case (4 a)
  have "b64_index (unat a) 0 0 6 = 0" "b64_index (unat a) 0 0 0 = 0"
    using b64_index_simps [of "unat a" 0 0] byte_less [of a] by simp_all
  with rfc_bytes_index [of a 0 0] show ?case
    by (simp add: b64_chunk1 index_alphabet index_bound)
next
  case (3 a b)
  have "b64_index (unat a) (unat b) 0 0 = 0"
    using b64_index_simps [of "unat a" "unat b" 0] byte_less [of a] byte_less [of b] by simp
  with rfc_bytes_index [of a b 0] show ?case
    by (simp add: b64_chunk2 index_alphabet index_bound alphabet_no_pad)
qed simp

subsection \<open>Types\<close>

record mail_message =
  ml_id :: u32
  ml_subject :: string
  ml_body :: string
  ml_sent_at :: nat

record mail_snapshot =
  ml_snap_list_id :: u32
  ml_snap_list_name :: string
  ml_snap_base_url :: string
  ml_snap_messages :: "mail_message list"

datatype mail_intent = MailSendMessage string string

datatype ('he, 'cj) mail_error = MailHttp 'he | MailJson 'cj | MailApi string | MailPanic

record campaign_record =
  cr_id :: u32
  cr_subject :: string
  cr_body :: string
  cr_send_at :: "string option"
  cr_created_at :: string

record mail_transport =
  ml_auth :: string
  ml_base_url :: string
  ml_list_id :: u32
  ml_list_name :: string
  ml_messages :: "mail_message list"
  ml_seq :: u64
  ml_http :: "(string \<times> string \<times> string) list"

fun mail_intent_fields :: "'j json_ops \<Rightarrow> mail_intent \<Rightarrow> (string \<times> 'j) list" where
  "mail_intent_fields J (MailSendMessage subject body) =
     tagged J ''send_message'' [(''subject'', j_str J subject), (''body'', j_str J body)]"

definition mail_max_messages :: nat where
  "mail_max_messages = 50"

definition mail_current_snapshot :: "mail_transport \<Rightarrow> mail_snapshot" where
  "mail_current_snapshot t =
     \<lparr>ml_snap_list_id = ml_list_id t, ml_snap_list_name = ml_list_name t, ml_snap_base_url = ml_base_url t,
      ml_snap_messages = ml_messages t\<rparr>"

subsection \<open>Fetching, receiving and sending\<close>

definition mail_campaign :: "campaign_record \<Rightarrow> mail_message outcome" where
  "mail_campaign r =
     bind_outcome (parse_timestamp (case cr_send_at r of Some s \<Rightarrow> s | None \<Rightarrow> cr_created_at r)) (\<lambda>at.
       Done \<lparr>ml_id = cr_id r, ml_subject = cr_subject r, ml_body = cr_body r, ml_sent_at = at\<rparr>)"

fun mail_campaigns :: "campaign_record list \<Rightarrow> mail_message list outcome" where
  "mail_campaigns [] = Done []"
| "mail_campaigns (r # rs) =
     bind_outcome (mail_campaign r) (\<lambda>m. bind_outcome (mail_campaigns rs) (\<lambda>ms. Done (m # ms)))"

text \<open>The query asks for one page of fifty; the result is sorted by time, stably.\<close>

definition mail_fetch_query :: "u32 \<Rightarrow> (string \<times> string) list" where
  "mail_fetch_query list_id =
     [(''page'', ''1''), (''per_page'', show_nat mail_max_messages), (''status'', ''sent''), (''list_id'', show_nat (unat list_id))]"

definition mail_fetch_messages :: "'he + campaign_record list \<Rightarrow> ('he, 'cj) mail_error + mail_message list" where
  "mail_fetch_messages reply =
     (case reply of
        Inl e \<Rightarrow> Inl (MailHttp e)
      | Inr rs \<Rightarrow>
          (case mail_campaigns rs of
             Panic \<Rightarrow> Inl MailPanic
           | Done ms \<Rightarrow> Inr (sort_key ml_sent_at ms)))"

definition mail_fetch_list_name :: "'he + string \<Rightarrow> ('he, 'cj) mail_error + string" where
  "mail_fetch_list_name reply = (case reply of Inl e \<Rightarrow> Inl (MailHttp e) | Inr name \<Rightarrow> Inr name)"

definition mail_turn ::
  "(('j, mail_snapshot) server_wire \<Rightarrow> 'cj + 'b) \<Rightarrow> mail_transport \<Rightarrow> 'he + campaign_record list
    \<Rightarrow> (('he, 'cj) mail_error, 'b, mail_transport) turn" where
  "mail_turn enc t reply =
     (case mail_fetch_messages reply of
        Inl e \<Rightarrow> Return (Failed e) t
      | Inr latest \<Rightarrow>
          if length latest > length (ml_messages t) then
            (let t1 = t\<lparr>ml_messages := latest\<rparr>
             in Return (emit enc MailJson (Snapshot (ml_seq t1) (mail_current_snapshot t1)))
                  (t1\<lparr>ml_seq := ml_seq t1 + 1\<rparr>))
          else Continue t)"

definition mail_recv where
  "mail_recv enc = recv_loop (mail_turn enc)"

definition mail_send ::
  "'j json_ops \<Rightarrow> ((string \<times> string \<times> string) list \<Rightarrow> string \<Rightarrow> 'j \<Rightarrow> 'he + u32)
    \<Rightarrow> ((string \<times> string \<times> string) list \<Rightarrow> string \<Rightarrow> 'j \<Rightarrow> 'he + unit) \<Rightarrow> ('b \<Rightarrow> 'cj + mail_intent client_wire)
    \<Rightarrow> mail_transport \<Rightarrow> 'b \<Rightarrow> (('he, 'cj) mail_error + unit) \<times> mail_transport" where
  "mail_send J post put dec t data =
     (case dec data of
        Inl e \<Rightarrow> (Inl (MailJson e), t)
      | Inr (Intent (MailSendMessage subject body)) \<Rightarrow>
          (let url = ml_base_url t @ ''/api/campaigns'';
               campaign =
                 j_obj J [(''name'', j_str J subject), (''subject'', j_str J subject),
                   (''lists'', j_arr J [j_int J (uint (ml_list_id t))]), (''type'', j_str J ''regular''),
                   (''content_type'', j_str J ''plain_text''), (''body'', j_str J body)];
               t1 = t\<lparr>ml_http := ml_http t @ [(''POST'', url, j_text J campaign)]\<rparr>
           in case post (ml_http t) url campaign of
                Inl e \<Rightarrow> (Inl (MailHttp e), t1)
              | Inr campaign_id \<Rightarrow>
                  (let status_url = url @ ''/'' @ show_nat (unat campaign_id) @ ''/status'';
                       status = j_obj J [(''status'', j_str J ''running'')];
                       t2 = t1\<lparr>ml_http := ml_http t1 @ [(''PUT'', status_url, j_text J status)]\<rparr>
                   in case put (ml_http t1) status_url status of
                        Inl e \<Rightarrow> (Inl (MailHttp e), t2)
                      | Inr u \<Rightarrow> (Inr u, t2)))
      | Inr _ \<Rightarrow> (Inr (), t))"

subsection \<open>Connecting\<close>

definition mail_credentials :: "(string \<Rightarrow> 8 word list) \<Rightarrow> string \<Rightarrow> string \<Rightarrow> string" where
  "mail_credentials utf8 username password = ''Basic '' @ base64_encode (utf8 (username @ '':'' @ password))"

definition mail_manifest :: "'j json_ops \<Rightarrow> string \<Rightarrow> u32 \<Rightarrow> string \<Rightarrow> 'j manifest" where
  "mail_manifest J base_url list_id list_name =
     \<lparr>m_identity = identity_local (''maillist:'' @ base_url @ ''/lists/'' @ show_nat (unat list_id)),
      m_name = list_name, m_substrate = None,
      m_metadata = j_obj J [(''type'', j_str J ''maillist''), (''list_id'', j_int J (uint list_id)),
        (''base_url'', j_str J base_url)]\<rparr>"

definition mail_connect ::
  "'j json_ops \<Rightarrow> (string \<Rightarrow> 8 word list) \<Rightarrow> string \<Rightarrow> string \<Rightarrow> string \<Rightarrow> u32 \<Rightarrow> 'he + string
    \<Rightarrow> 'he + campaign_record list \<Rightarrow> ('he, 'cj) mail_error + (mail_transport, 'j) connection \<times> mail_snapshot" where
  "mail_connect J utf8 base_url username password list_id list_reply campaigns_reply =
     (case mail_fetch_list_name list_reply of
        Inl e \<Rightarrow> Inl e
      | Inr list_name \<Rightarrow>
          (case mail_fetch_messages campaigns_reply of
             Inl e \<Rightarrow> Inl e
           | Inr ms \<Rightarrow>
               (let t = \<lparr>ml_auth = mail_credentials utf8 username password, ml_base_url = base_url,
                         ml_list_id = list_id, ml_list_name = list_name, ml_messages = ms, ml_seq = 0, ml_http = []\<rparr>
                in Inr (established t (mail_manifest J base_url list_id list_name), mail_current_snapshot t))))"

subsection \<open>What is received\<close>

interpretation mail: turn_sequenced "mail_turn enc" enc ml_seq mail_current_snapshot
  by unfold_locales
    (auto simp: mail_turn_def mail_current_snapshot_def Let_def split: sum.splits if_splits)

lemma mail_campaigns_length: "mail_campaigns rs = Done ms \<Longrightarrow> length ms = length rs"
  by (induction rs arbitrary: ms) auto

lemma mail_fetch_length: "mail_fetch_messages (Inr rs) = Inr ms \<Longrightarrow> length ms = length rs \<and> sorted (map ml_sent_at ms)"
  by (auto simp: mail_fetch_messages_def mail_campaigns_length split: outcome.splits)

text \<open>A frame means strictly more campaigns than before, sorted by time; fifty are the end.\<close>

lemma mail_loop_grows:
  fixes enc :: "('j, mail_snapshot) server_wire \<Rightarrow> 'cj + 'w" and ins :: "('he + campaign_record list) list"
  shows "recv_loop (mail_turn enc) t ins = (r, t', rest) \<Longrightarrow>
     ml_messages t' = ml_messages t \<or>
     length (ml_messages t) < length (ml_messages t') \<and> sorted (map ml_sent_at (ml_messages t'))"
proof (induction ins arbitrary: t)
  case (Cons reply ins)
  show ?case
  proof (cases reply)
    case (Inr rs)
    show ?thesis
    proof (cases "mail_fetch_messages reply :: ('he, 'cj) mail_error + _")
      case (Inr ms)
      with \<open>reply = Inr rs\<close> have "sorted (map ml_sent_at ms)"
        by (blast dest: mail_fetch_length)
      with \<open>mail_fetch_messages reply = Inr ms\<close> Cons show ?thesis
        by (auto simp: mail_turn_def Let_def split: if_splits)
    qed (use Cons in \<open>auto simp: mail_turn_def\<close>)
  qed (use Cons in \<open>auto simp: mail_turn_def mail_fetch_messages_def\<close>)
qed simp

text \<open>C34: a mailing list room only ever replaces its history by a strictly longer one, sorted by
  time. Since a poll asks for one page of fifty campaigns, a room that has fifty never produces
  a snapshot again, whatever is sent to the list: every successful poll leaves it as it is.\<close>

theorem mail_room_stalls:
  fixes enc :: "('j, mail_snapshot) server_wire \<Rightarrow> 'cj + 'w" and ins :: "('he + campaign_record list) list"
  assumes "mail_recv enc t ins = (r, t', rest)"
  shows "(ml_messages t' = ml_messages t \<or>
      length (ml_messages t) < length (ml_messages t') \<and> sorted (map ml_sent_at (ml_messages t'))) \<and>
    (mail_max_messages \<le> length (ml_messages t) \<and> (\<forall>rs. Inr rs \<in> set ins \<longrightarrow> length rs \<le> mail_max_messages) \<longrightarrow>
      t' = t \<and> (\<forall>b. r \<noteq> Frame b))"
proof (intro conjI impI)
  show "ml_messages t' = ml_messages t \<or>
      length (ml_messages t) < length (ml_messages t') \<and> sorted (map ml_sent_at (ml_messages t'))"
    by (rule mail_loop_grows) (use assms in \<open>simp add: mail_recv_def\<close>)
  assume full: "mail_max_messages \<le> length (ml_messages t) \<and> (\<forall>rs. Inr rs \<in> set ins \<longrightarrow> length rs \<le> mail_max_messages)"
  have "recv_loop (mail_turn enc) t ins = (r, t', rest) \<Longrightarrow> \<forall>rs. Inr rs \<in> set ins \<longrightarrow> length rs \<le> mail_max_messages \<Longrightarrow>
      t' = t \<and> (\<forall>b. r \<noteq> Frame b)" for ins :: "('he + campaign_record list) list"
  proof (induction ins)
    case (Cons reply ins)
    have "\<not> length (ml_messages t) < length ms" if "mail_fetch_messages reply = (Inr ms :: ('he, 'cj) mail_error + _)" for ms
      using that full Cons.prems(2) mail_fetch_length [of _ ms] by (cases reply) (fastforce simp: mail_fetch_messages_def)+
    with Cons show ?case
      by (auto simp: mail_turn_def split: sum.splits)
  qed simp
  with assms full show "t' = t" "\<forall>b. r \<noteq> Frame b" by (auto simp: mail_recv_def)
qed

theorem mail_room_stalls_witness:
  "\<exists>t' r rest. mail_recv (Inr :: (json, mail_snapshot) server_wire \<Rightarrow> unit + (json, mail_snapshot) server_wire)
      \<lparr>ml_auth = [], ml_base_url = [], ml_list_id = 1, ml_list_name = [],
       ml_messages = replicate 50 \<lparr>ml_id = 1, ml_subject = [], ml_body = [], ml_sent_at = 0\<rparr>, ml_seq = 0, ml_http = []\<rparr>
      [Inr (replicate 50 \<lparr>cr_id = 2, cr_subject = [], cr_body = [], cr_send_at = None, cr_created_at = []\<rparr>) :: unit + campaign_record list]
      = (r, t', rest) \<and> (\<forall>b. r \<noteq> Frame b)"
proof -
  let ?t = "\<lparr>ml_auth = [], ml_base_url = [], ml_list_id = 1, ml_list_name = [],
       ml_messages = replicate 50 \<lparr>ml_id = 1, ml_subject = [], ml_body = [], ml_sent_at = 0\<rparr>, ml_seq = 0, ml_http = []\<rparr>"
  let ?ins = "[Inr (replicate 50 \<lparr>cr_id = 2, cr_subject = [], cr_body = [], cr_send_at = None, cr_created_at = []\<rparr>) :: unit + campaign_record list]"
  obtain r t' rest where run: "mail_recv (Inr :: (json, mail_snapshot) server_wire \<Rightarrow> unit + (json, mail_snapshot) server_wire) ?t ?ins = (r, t', rest)"
    by (cases "mail_recv (Inr :: (json, mail_snapshot) server_wire \<Rightarrow> unit + (json, mail_snapshot) server_wire) ?t ?ins")
  have "mail_max_messages \<le> length (ml_messages ?t) \<and> (\<forall>rs. Inr rs \<in> set ?ins \<longrightarrow> length rs \<le> mail_max_messages)"
    by (simp add: mail_max_messages_def)
  with mail_room_stalls [OF run] have "\<forall>b. r \<noteq> Frame b" by blast
  with run show ?thesis by (intro exI conjI)
qed

end
