(* ===== verification/Github.thy ===== *)
theory Github
  imports Client Dates
begin

section \<open>The GitHub connector\<close>

text \<open>
  \<^verbatim>\<open>crates/connectors/interconnect-connector-github/src\<close>: an issue as a room. The inputs of the
  receive loop are the outcomes of the comment polls, decoded into the source's response
  structures; a panic of the date parser ends the task that polls and is the error value
  \<open>GithubPanic\<close>. Reaction counts are a map kept as an association list. The field
  \<open>gh_http\<close>, the HTTP client of the transport, holds the requests that sending made through it.
\<close>

record github_comment =
  gh_id :: nat
  gh_author :: string
  gh_body :: string
  gh_timestamp :: nat
  gh_reactions :: "(string \<times> nat) list"

record github_snapshot =
  gh_snap_owner :: string
  gh_snap_repo :: string
  gh_snap_issue_number :: nat
  gh_snap_title :: string
  gh_snap_state :: string
  gh_snap_comments :: "github_comment list"

datatype github_intent = GhAddComment string | GhReact nat string | GhCloseIssue

datatype ('he, 'cj) github_error = GithubHttp 'he | GithubJson 'cj | GithubApi string | GithubPanic

record api_reactions =
  plus_one :: "nat option"
  minus_one :: "nat option"
  laugh :: "nat option"
  confused :: "nat option"
  heart :: "nat option"
  hooray :: "nat option"
  rocket :: "nat option"
  eyes :: "nat option"

record api_comment =
  ac_id :: nat
  ac_login :: string
  ac_body :: string
  ac_created_at :: string
  ac_reactions :: "api_reactions option"

record github_transport =
  gh_token :: string
  gh_owner :: string
  gh_repo :: string
  gh_issue_number :: nat
  gh_issue_title :: string
  gh_issue_state :: string
  gh_last_updated_at :: string
  gh_comments :: "github_comment list"
  gh_seq :: u64
  gh_http :: "(string \<times> string \<times> string) list"

fun github_intent_fields :: "'j json_ops \<Rightarrow> github_intent \<Rightarrow> (string \<times> 'j) list" where
  "github_intent_fields J (GhAddComment body) = tagged J ''add_comment'' [(''body'', j_str J body)]"
| "github_intent_fields J (GhReact comment_id reaction) =
     tagged J ''react'' [(''comment_id'', j_int J (int comment_id)), (''reaction'', j_str J reaction)]"
| "github_intent_fields J GhCloseIssue = tagged J ''close_issue'' []"

subsection \<open>Comments\<close>

definition reactions_into_map :: "api_reactions \<Rightarrow> (string \<times> nat) list" where
  "reactions_into_map r =
     fold (\<lambda>(key, val) m. case val of Some count \<Rightarrow> (if count > 0 then AList.update key count m else m) | None \<Rightarrow> m)
       [(''+1'', plus_one r), (''-1'', minus_one r), (''laugh'', laugh r), (''confused'', confused r),
        (''heart'', heart r), (''hooray'', hooray r), (''rocket'', rocket r), (''eyes'', eyes r)] []"

definition convert_comment :: "api_comment \<Rightarrow> github_comment outcome" where
  "convert_comment a =
     bind_outcome (parse_iso8601 (ac_created_at a)) (\<lambda>at.
       Done \<lparr>gh_id = ac_id a, gh_author = ac_login a, gh_body = ac_body a, gh_timestamp = at,
             gh_reactions = (case ac_reactions a of None \<Rightarrow> [] | Some r \<Rightarrow> reactions_into_map r)\<rparr>)"

fun convert_comments :: "api_comment list \<Rightarrow> github_comment list outcome" where
  "convert_comments [] = Done []"
| "convert_comments (a # as) =
     bind_outcome (convert_comment a) (\<lambda>c. bind_outcome (convert_comments as) (\<lambda>cs. Done (c # cs)))"

definition github_fetch_comments :: "'he + api_comment list \<Rightarrow> ('he, 'cj) github_error + github_comment list" where
  "github_fetch_comments reply =
     (case reply of
        Inl e \<Rightarrow> Inl (GithubHttp e)
      | Inr as \<Rightarrow> (case convert_comments as of Panic \<Rightarrow> Inl GithubPanic | Done cs \<Rightarrow> Inr cs))"

definition github_current_snapshot :: "github_transport \<Rightarrow> github_snapshot" where
  "github_current_snapshot t =
     \<lparr>gh_snap_owner = gh_owner t, gh_snap_repo = gh_repo t, gh_snap_issue_number = gh_issue_number t,
      gh_snap_title = gh_issue_title t, gh_snap_state = gh_issue_state t, gh_snap_comments = gh_comments t\<rparr>"

subsection \<open>Receiving\<close>

definition max_timestamp :: "github_comment list \<Rightarrow> nat" where
  "max_timestamp cs = foldl max 0 (map gh_timestamp cs)"

definition github_turn ::
  "(('j, github_snapshot) server_wire \<Rightarrow> 'cj + 'b) \<Rightarrow> github_transport \<Rightarrow> 'he + api_comment list
    \<Rightarrow> (('he, 'cj) github_error, 'b, github_transport) turn" where
  "github_turn enc t reply =
     (case github_fetch_comments reply of
        Inl e \<Rightarrow> Return (Failed e) t
      | Inr new_comments \<Rightarrow>
          (let new_cursor = show_nat (max_timestamp new_comments);
               changed = (length new_comments \<noteq> length (gh_comments t) \<or> new_cursor \<noteq> gh_last_updated_at t)
           in if changed then
                (let t1 = t\<lparr>gh_comments := new_comments, gh_last_updated_at := new_cursor\<rparr>
                 in Return (emit enc GithubJson (Snapshot (gh_seq t1) (github_current_snapshot t1)))
                      (t1\<lparr>gh_seq := gh_seq t1 + 1\<rparr>))
              else Continue t))"

definition github_recv where
  "github_recv enc = recv_loop (github_turn enc)"

subsection \<open>Sending\<close>

definition github_issue_url :: "github_transport \<Rightarrow> string" where
  "github_issue_url t =
     ''https://api.github.com/repos/'' @ gh_owner t @ ''/'' @ gh_repo t @ ''/issues/'' @ show_nat (gh_issue_number t)"

definition github_reactions_url :: "github_transport \<Rightarrow> nat \<Rightarrow> string" where
  "github_reactions_url t comment_id =
     ''https://api.github.com/repos/'' @ gh_owner t @ ''/'' @ gh_repo t @ ''/issues/comments/'' @ show_nat comment_id @ ''/reactions''"

definition github_send ::
  "'j json_ops \<Rightarrow> ((string \<times> string \<times> string) list \<Rightarrow> string \<Rightarrow> 'j \<Rightarrow> 'he + unit)
    \<Rightarrow> ((string \<times> string \<times> string) list \<Rightarrow> string \<Rightarrow> 'j \<Rightarrow> 'he + 'j) \<Rightarrow> ('b \<Rightarrow> 'cj + github_intent client_wire)
    \<Rightarrow> github_transport \<Rightarrow> 'b \<Rightarrow> (('he, 'cj) github_error + unit) \<times> github_transport" where
  "github_send J post patch dec t data =
     (case dec data of
        Inl e \<Rightarrow> (Inl (GithubJson e), t)
      | Inr (Intent (GhAddComment body)) \<Rightarrow>
          (let url = github_issue_url t @ ''/comments''; req = j_obj J [(''body'', j_str J body)];
               t1 = t\<lparr>gh_http := gh_http t @ [(''POST'', url, j_text J req)]\<rparr>
           in case post (gh_http t) url req of
                Inl e \<Rightarrow> (Inl (GithubHttp e), t1)
              | Inr u \<Rightarrow> (Inr u, t1))
      | Inr (Intent (GhReact comment_id reaction)) \<Rightarrow>
          (let url = github_reactions_url t comment_id; req = j_obj J [(''content'', j_str J reaction)];
               t1 = t\<lparr>gh_http := gh_http t @ [(''POST'', url, j_text J req)]\<rparr>
           in case post (gh_http t) url req of
                Inl e \<Rightarrow> (Inl (GithubHttp e), t1)
              | Inr u \<Rightarrow> (Inr u, t1))
      | Inr (Intent GhCloseIssue) \<Rightarrow>
          (let url = github_issue_url t; req = j_obj J [(''state'', j_str J ''closed'')];
               t1 = t\<lparr>gh_http := gh_http t @ [(''PATCH'', url, j_text J req)]\<rparr>
           in case patch (gh_http t) url req of
                Inl e \<Rightarrow> (Inl (GithubHttp e), t1)
              | Inr resp \<Rightarrow>
                  (case j_as_str J (j_index J resp ''state'') of
                     Some state \<Rightarrow> (Inr (), t1\<lparr>gh_issue_state := state\<rparr>)
                   | None \<Rightarrow> (Inr (), t1)))
      | Inr _ \<Rightarrow> (Inr (), t))"

subsection \<open>Connecting\<close>

definition github_fetch_issue_info :: "'j json_ops \<Rightarrow> 'he + 'j \<Rightarrow> ('he, 'cj) github_error + string \<times> string" where
  "github_fetch_issue_info J reply =
     (case reply of
        Inl e \<Rightarrow> Inl (GithubHttp e)
      | Inr resp \<Rightarrow> Inr (j_str_or J [] (j_index J resp ''title''), j_str_or J ''open'' (j_index J resp ''state'')))"

definition github_manifest :: "'j json_ops \<Rightarrow> string \<Rightarrow> string \<Rightarrow> nat \<Rightarrow> string \<Rightarrow> 'j manifest" where
  "github_manifest J owner repo issue_number title =
     \<lparr>m_identity = identity_local (''github:'' @ owner @ ''/'' @ repo @ ''#'' @ show_nat issue_number),
      m_name = title, m_substrate = None,
      m_metadata = j_obj J [(''type'', j_str J ''github_issue''), (''owner'', j_str J owner),
        (''repo'', j_str J repo), (''issue_number'', j_int J (int issue_number))]\<rparr>"

definition github_connect ::
  "'j json_ops \<Rightarrow> string \<Rightarrow> string \<Rightarrow> string \<Rightarrow> nat \<Rightarrow> 'he + 'j \<Rightarrow> 'he + api_comment list
    \<Rightarrow> ('he, 'cj) github_error + (github_transport, 'j) connection \<times> github_snapshot" where
  "github_connect J token owner repo issue_number issue_reply comments_reply =
     (case github_fetch_issue_info J issue_reply of
        Inl e \<Rightarrow> Inl e
      | Inr (title, state) \<Rightarrow>
          (case github_fetch_comments comments_reply of
             Inl e \<Rightarrow> Inl e
           | Inr comments \<Rightarrow>
               (let t = \<lparr>gh_token = token, gh_owner = owner, gh_repo = repo, gh_issue_number = issue_number,
                         gh_issue_title = title, gh_issue_state = state,
                         gh_last_updated_at = show_nat (max_timestamp comments), gh_comments = comments, gh_seq = 0, gh_http = []\<rparr>
                in Inr (established t (github_manifest J owner repo issue_number title), github_current_snapshot t))))"

subsection \<open>What is received\<close>

interpretation github: turn_sequenced "github_turn enc" enc gh_seq github_current_snapshot
  by unfold_locales
    (auto simp: github_turn_def github_current_snapshot_def Let_def split: sum.splits if_splits)

text \<open>The cursor always belongs to the comments: it is set with them.\<close>

definition github_inv :: "github_transport \<Rightarrow> bool" where
  "github_inv t \<longleftrightarrow> gh_last_updated_at t = show_nat (max_timestamp (gh_comments t))"

lemma github_inv_connect:
  "github_connect J token owner repo n a b = Inr (c, s) \<Longrightarrow> github_inv (conn_transport c) \<and> s = github_current_snapshot (conn_transport c)"
  by (auto simp: github_connect_def github_inv_def established_def Let_def split: sum.splits)

lemma github_inv_turn: "github_inv t \<Longrightarrow> github_inv (turn_state (github_turn enc t reply))"
  by (auto simp: github_turn_def github_inv_def Let_def split: sum.splits)

lemma github_inv_recv: "github_recv enc t ins = (r, t', rest) \<Longrightarrow> github_inv t \<Longrightarrow> github_inv t'"
  using recv_loop_preserves [of "github_turn enc" t ins r t' rest github_inv]
  by (simp add: github_recv_def github_inv_turn)

text \<open>C35: after connecting and any number of calls, a poll makes a GitHub room produce a snapshot
  exactly when the number of comments or the latest creation time has changed. So a poll in
  which bodies or reactions differ, but no comment was created or deleted, is passed over, and
  the room keeps showing the old ones; the field that holds the cursor is documented as the
  latest update time.\<close>

theorem github_change_detection:
  fixes enc :: "('j, github_snapshot) server_wire \<Rightarrow> 'cj + 'b" and poll :: "'he + api_comment list"
  assumes "github_connect J token owner repo issue_number issue_reply comments_reply = Inr (c, s)"
    and "github_recv enc (conn_transport c) (ins :: ('he + api_comment list) list) = (r, t, rest)"
    and "github_fetch_comments poll = (Inr cs :: ('he, 'cj) github_error + _)"
  shows "(github_turn enc t poll = Continue t \<longleftrightarrow>
      length cs = length (gh_comments t) \<and> max_timestamp cs = max_timestamp (gh_comments t)) \<and>
    (github_turn enc t poll \<noteq> Continue t \<longrightarrow>
      gh_comments (turn_state (github_turn enc t poll)) = cs \<and> gh_seq (turn_state (github_turn enc t poll)) = gh_seq t + 1)"
proof -
  have "github_inv t"
    using github_inv_connect [OF assms(1)] github_inv_recv [OF assms(2)] by blast
  then show ?thesis
    using assms(3) by (auto simp: github_turn_def github_inv_def Let_def dest: show_nat_inj)
qed

definition demo_comment :: "string \<Rightarrow> api_comment" where
  "demo_comment body = \<lparr>ac_id = 1, ac_login = ''bob'', ac_body = body, ac_created_at = ''2024-01-15T10:30:00Z'', ac_reactions = None\<rparr>"

theorem github_change_detection_witness:
  "\<exists>c s cs. github_connect value_json [] [] [] 1 (Inr JNull) (Inr [demo_comment ''old'']) = (Inr (c, s) :: (unit, unit) github_error + _) \<and>
     github_fetch_comments (Inr [demo_comment ''new'']) = (Inr cs :: (unit, unit) github_error + _) \<and> map gh_body cs = [''new''] \<and>
     github_turn (Inr :: (json, github_snapshot) server_wire \<Rightarrow> unit + (json, github_snapshot) server_wire) (conn_transport c)
       (Inr [demo_comment ''new''] :: unit + api_comment list) = Continue (conn_transport c)"
proof -
  obtain at where at: "parse_iso8601 ''2024-01-15T10:30:00Z'' = Done at"
    using iso8601_example by blast
  obtain c s where c: "github_connect value_json [] [] [] 1 (Inr JNull) (Inr [demo_comment ''old'']) = (Inr (c, s) :: (unit, unit) github_error + _)"
      and m: "map gh_timestamp (gh_comments (conn_transport c)) = [at]"
    by (simp add: github_connect_def github_fetch_issue_info_def github_fetch_comments_def convert_comment_def demo_comment_def
        at established_def Let_def)
  obtain cs where cs: "github_fetch_comments (Inr [demo_comment ''new'']) = (Inr cs :: (unit, unit) github_error + _)"
      and body: "map gh_body cs = [''new'']" and t: "map gh_timestamp cs = [at]"
    by (simp add: github_fetch_comments_def convert_comment_def demo_comment_def at)
  have "github_recv (Inr :: (json, github_snapshot) server_wire \<Rightarrow> unit + (json, github_snapshot) server_wire) (conn_transport c)
      ([] :: (unit + api_comment list) list) = (Pending, conn_transport c, [])"
    by (simp add: github_recv_def)
  from github_change_detection [OF c this cs] m t have
    "github_turn (Inr :: (json, github_snapshot) server_wire \<Rightarrow> unit + (json, github_snapshot) server_wire) (conn_transport c)
       (Inr [demo_comment ''new''] :: unit + api_comment list) = Continue (conn_transport c)"
    by (metis length_map max_timestamp_def)
  with c cs body show ?thesis by (intro exI conjI)
qed

end
