(* ===== verification/Matrix.thy ===== *)
theory Matrix
  imports Client
begin

section \<open>The Matrix connector\<close>

text \<open>
  \<^verbatim>\<open>crates/connectors/interconnect-connector-matrix/src\<close>: long-poll syncs of one room, sending
  under transaction identifiers, percent encoding of path segments. The inputs of the receive
  loop are the outcomes of the syncs, an HTTP error of the client library or a JSON value;
  sending calls a function that stands for the HTTP request, and logs it in the field \<open>mx_http\<close>, the
  HTTP client of the transport.
\<close>

record mx_message =
  mx_event_id :: string
  mx_sender :: string
  mx_body :: string
  mx_timestamp :: nat

record mx_snapshot =
  mx_snap_room_id :: string
  mx_snap_room_name :: string
  mx_snap_messages :: "mx_message list"

datatype mx_intent = MxSendMessage string

datatype ('he, 'cj) mx_error = MxHttp 'he | MxJson 'cj | MxApi string

record mx_transport =
  mx_homeserver :: string
  mx_access_token :: string
  mx_room_id :: string
  mx_room_name :: string
  mx_since :: "string option"
  mx_messages :: "mx_message list"
  mx_seq :: u64
  mx_txn_counter :: u64
  mx_http :: "(string \<times> string) list"

fun mx_intent_fields :: "'j json_ops \<Rightarrow> mx_intent \<Rightarrow> (string \<times> 'j) list" where
  "mx_intent_fields J (MxSendMessage text) = tagged J ''send_message'' [(''text'', j_str J text)]"

definition mx_max_messages :: nat where
  "mx_max_messages = 50"

definition mx_current_snapshot :: "mx_transport \<Rightarrow> mx_snapshot" where
  "mx_current_snapshot t =
     \<lparr>mx_snap_room_id = mx_room_id t, mx_snap_room_name = mx_room_name t, mx_snap_messages = mx_messages t\<rparr>"

definition mx_push_message :: "mx_transport \<Rightarrow> mx_message \<Rightarrow> mx_transport" where
  "mx_push_message t m = t\<lparr>mx_messages := push_bounded mx_max_messages (mx_messages t) m\<rparr>"

definition mx_next_txn_id :: "mx_transport \<Rightarrow> string \<times> mx_transport" where
  "mx_next_txn_id t =
     (hex_padded 16 (unat (mx_txn_counter t)), t\<lparr>mx_txn_counter := mx_txn_counter t + 1\<rparr>)"

subsection \<open>Percent encoding\<close>

definition unreserved :: "char \<Rightarrow> bool" where
  "unreserved c \<longleftrightarrow>
     (let n = (of_char c :: nat) in
      65 \<le> n \<and> n \<le> 90 \<or> 97 \<le> n \<and> n \<le> 122 \<or> 48 \<le> n \<and> n \<le> 57 \<or>
      c = CHR ''-'' \<or> c = CHR ''_'' \<or> c = CHR ''.'' \<or> c = CHR ''~'')"

fun urlencoding_encode :: "string \<Rightarrow> string" where
  "urlencoding_encode [] = []"
| "urlencoding_encode (c # cs) =
     (if unreserved c then [c]
      else [CHR ''%'', digit_char ((of_char c :: nat) div 16), digit_char ((of_char c :: nat) mod 16)]) @
     urlencoding_encode cs"

subsection \<open>Syncing\<close>

definition mx_filter :: "'j json_ops \<Rightarrow> string \<Rightarrow> (string \<times> 'j) list \<Rightarrow> 'j" where
  "mx_filter J room_id limit =
     j_obj J
       [(''room'', j_obj J
          [(''rooms'', j_arr J [j_str J room_id]),
           (''timeline'', j_obj J ((''types'', j_arr J [j_str J ''m.room.message'']) # limit))]),
        (''presence'', j_obj J [(''types'', j_arr J [])]),
        (''account_data'', j_obj J [(''types'', j_arr J [])])]"

definition mx_sync_query :: "'j json_ops \<Rightarrow> mx_transport \<Rightarrow> (string \<times> string) list" where
  "mx_sync_query J t =
     [(''filter'', j_text J (mx_filter J (mx_room_id t) [])), (''timeout'', ''30000'')] @
     (case mx_since t of None \<Rightarrow> [] | Some since \<Rightarrow> [(''since'', since)])"

text \<open>The body of the loop over the events of a timeline; both syncs have it.\<close>

definition mx_event_message :: "'j json_ops \<Rightarrow> 'j \<Rightarrow> mx_message option" where
  "mx_event_message J ev =
     (if j_as_str J (j_index J ev ''type'') \<noteq> Some ''m.room.message'' then None
      else
        (let content = j_index J ev ''content'' in
         if j_as_str J (j_index J content ''msgtype'') \<noteq> Some ''m.text'' then None
         else Some \<lparr>mx_event_id = j_str_or J [] (j_index J ev ''event_id''),
                    mx_sender = j_str_or J [] (j_index J ev ''sender''),
                    mx_body = j_str_or J [] (j_index J content ''body''),
                    mx_timestamp = j_u64_or J 0 (j_index J ev ''origin_server_ts'')\<rparr>))"

definition mx_timeline :: "'j json_ops \<Rightarrow> string \<Rightarrow> 'j \<Rightarrow> mx_message list" where
  "mx_timeline J room_id resp =
     (case j_as_array J (j_path J resp [''rooms'', ''join'', room_id, ''timeline'', ''events'']) of
        None \<Rightarrow> []
      | Some events \<Rightarrow> List.map_filter (mx_event_message J) events)"

definition mx_sync_once ::
  "'j json_ops \<Rightarrow> mx_transport \<Rightarrow> 'he + 'j \<Rightarrow> (('he, 'cj) mx_error + mx_message list) \<times> mx_transport" where
  "mx_sync_once J t reply =
     (case reply of
        Inl e \<Rightarrow> (Inl (MxHttp e), t)
      | Inr resp \<Rightarrow>
          (case j_as_str J (j_index J resp ''next_batch'') of
             None \<Rightarrow> (Inl (MxApi ''missing next_batch in sync response''), t)
           | Some next_batch \<Rightarrow> (Inr (mx_timeline J (mx_room_id t) resp), t\<lparr>mx_since := Some next_batch\<rparr>)))"

definition mx_turn ::
  "'j json_ops \<Rightarrow> (('j, mx_snapshot) server_wire \<Rightarrow> 'cj + 'b) \<Rightarrow> mx_transport \<Rightarrow> 'he + 'j
    \<Rightarrow> (('he, 'cj) mx_error, 'b, mx_transport) turn" where
  "mx_turn J enc t reply =
     (case mx_sync_once J t reply of
        (Inl e, t1) \<Rightarrow> Return (Failed e) t1
      | (Inr new_messages, t1) \<Rightarrow>
          if new_messages = [] then Continue t1
          else
            (let t2 = fold (\<lambda>m u. mx_push_message u m) new_messages t1
             in Return (emit enc MxJson (Snapshot (mx_seq t2) (mx_current_snapshot t2)))
                  (t2\<lparr>mx_seq := mx_seq t2 + 1\<rparr>)))"

definition mx_recv ::
  "'j json_ops \<Rightarrow> (('j, mx_snapshot) server_wire \<Rightarrow> 'cj + 'b) \<Rightarrow> mx_transport \<Rightarrow> ('he + 'j) list
    \<Rightarrow> (('he, 'cj) mx_error, 'b) polled \<times> mx_transport \<times> ('he + 'j) list" where
  "mx_recv J enc = recv_loop (mx_turn J enc)"

subsection \<open>Sending\<close>

definition mx_send_url :: "mx_transport \<Rightarrow> string \<Rightarrow> string" where
  "mx_send_url t txn_id =
     mx_homeserver t @ ''/_matrix/client/v3/rooms/'' @ urlencoding_encode (mx_room_id t) @
     ''/send/m.room.message/'' @ txn_id"

definition mx_send ::
  "'j json_ops \<Rightarrow> ((string \<times> string) list \<Rightarrow> string \<Rightarrow> string \<Rightarrow> 'j \<Rightarrow> 'he + 'j) \<Rightarrow> ('b \<Rightarrow> 'cj + mx_intent client_wire)
    \<Rightarrow> mx_transport \<Rightarrow> 'b \<Rightarrow> (('he, 'cj) mx_error + unit) \<times> mx_transport" where
  "mx_send J put dec t data =
     (case dec data of
        Inl e \<Rightarrow> (Inl (MxJson e), t)
      | Inr (Intent (MxSendMessage text)) \<Rightarrow>
          (case mx_next_txn_id t of
             (txn_id, t1) \<Rightarrow>
               (let url = mx_send_url t1 txn_id;
                    body = j_obj J [(''msgtype'', j_str J ''m.text''), (''body'', j_str J text)];
                    t2 = t1\<lparr>mx_http := mx_http t1 @ [(url, j_text J body)]\<rparr>
                in case put (mx_http t1) (mx_access_token t1) url body of
                     Inl e \<Rightarrow> (Inl (MxHttp e), t2)
                   | Inr resp \<Rightarrow>
                       if j_get J resp ''event_id'' = None
                       then (Inl (MxApi (j_str_or J ''unknown send error'' (j_index J resp ''error''))), t2)
                       else (Inr (), t2)))
      | Inr _ \<Rightarrow> (Inr (), t))"

subsection \<open>Connecting\<close>

definition mx_fetch_room_name :: "'j json_ops \<Rightarrow> string \<Rightarrow> 'he + 'j \<Rightarrow> ('he, 'cj) mx_error + string" where
  "mx_fetch_room_name J room_id reply =
     (case reply of
        Inl e \<Rightarrow> Inl (MxHttp e)
      | Inr resp \<Rightarrow>
          Inr (case j_as_str J (j_index J resp ''name'') of
                 None \<Rightarrow> room_id
               | Some s \<Rightarrow> if s = [] then room_id else s))"

definition mx_initial_query :: "'j json_ops \<Rightarrow> string \<Rightarrow> (string \<times> string) list" where
  "mx_initial_query J room_id =
     [(''filter'', j_text J (mx_filter J room_id [(''limit'', j_int J 50)])), (''timeout'', ''0'')]"

definition mx_fetch_initial_messages ::
  "'j json_ops \<Rightarrow> string \<Rightarrow> 'he + 'j \<Rightarrow> ('he, 'cj) mx_error + mx_message list \<times> string" where
  "mx_fetch_initial_messages J room_id reply =
     (case reply of
        Inl e \<Rightarrow> Inl (MxHttp e)
      | Inr resp \<Rightarrow>
          (case j_as_str J (j_index J resp ''next_batch'') of
             None \<Rightarrow> Inl (MxApi ''missing next_batch in initial sync'')
           | Some next_batch \<Rightarrow> Inr (mx_timeline J room_id resp, next_batch)))"

definition mx_manifest :: "'j json_ops \<Rightarrow> string \<Rightarrow> string \<Rightarrow> string \<Rightarrow> 'j manifest" where
  "mx_manifest J homeserver room_id room_name =
     \<lparr>m_identity = identity_local (''matrix:'' @ room_id), m_name = room_name, m_substrate = None,
      m_metadata = j_obj J [(''type'', j_str J ''matrix''), (''room_id'', j_str J room_id),
        (''homeserver'', j_str J homeserver)]\<rparr>"

definition mx_connect ::
  "'j json_ops \<Rightarrow> string \<Rightarrow> string \<Rightarrow> string \<Rightarrow> 'he + 'j \<Rightarrow> 'he + 'j
    \<Rightarrow> ('he, 'cj) mx_error + (mx_transport, 'j) connection \<times> mx_snapshot" where
  "mx_connect J homeserver access_token room_id name_reply sync_reply =
     (case mx_fetch_room_name J room_id name_reply of
        Inl e \<Rightarrow> Inl e
      | Inr room_name \<Rightarrow>
          (case mx_fetch_initial_messages J room_id sync_reply of
             Inl e \<Rightarrow> Inl e
           | Inr (initial_messages, since) \<Rightarrow>
               (let t = \<lparr>mx_homeserver = homeserver, mx_access_token = access_token, mx_room_id = room_id,
                         mx_room_name = room_name, mx_since = Some since, mx_messages = initial_messages,
                         mx_seq = 0, mx_txn_counter = 0, mx_http = []\<rparr>
                in Inr (established t (mx_manifest J homeserver room_id room_name), mx_current_snapshot t))))"

text \<open>The module has its own copy of the encoder, the mirror of the transport's.\<close>

fun mx_connect_urlencoding_encode :: "string \<Rightarrow> string" where
  "mx_connect_urlencoding_encode [] = []"
| "mx_connect_urlencoding_encode (c # cs) =
     (if unreserved c then [c]
      else [CHR ''%'', digit_char ((of_char c :: nat) div 16), digit_char ((of_char c :: nat) mod 16)]) @
     mx_connect_urlencoding_encode cs"

lemma mx_mirror: "mx_connect_urlencoding_encode s = urlencoding_encode s"
  by (induction s) simp_all

definition mx_room_name_url :: "string \<Rightarrow> string \<Rightarrow> string" where
  "mx_room_name_url homeserver room_id =
     homeserver @ ''/_matrix/client/v3/rooms/'' @ mx_connect_urlencoding_encode room_id @ ''/state/m.room.name''"

subsection \<open>The contracts\<close>

definition mx_next_batch :: "'j json_ops \<Rightarrow> 'he + 'j \<Rightarrow> string option" where
  "mx_next_batch J reply = (case reply of Inl _ \<Rightarrow> None | Inr resp \<Rightarrow> j_as_str J (j_index J resp ''next_batch''))"

definition mx_accept :: "'j json_ops \<Rightarrow> mx_transport \<Rightarrow> 'he + 'j \<Rightarrow> mx_message list" where
  "mx_accept J t reply =
     (case reply of
        Inl _ \<Rightarrow> []
      | Inr resp \<Rightarrow> if mx_next_batch J reply = None then [] else mx_timeline J (mx_room_id t) resp)"

definition mx_token :: "'j json_ops \<Rightarrow> string option \<Rightarrow> 'he + 'j \<Rightarrow> string option" where
  "mx_token J since reply = (case mx_next_batch J reply of None \<Rightarrow> since | Some n \<Rightarrow> Some n)"

lemma mx_fold_push:
  "fold (\<lambda>m u. mx_push_message u m) ms t =
     t\<lparr>mx_messages := fold (\<lambda>m b. push_bounded mx_max_messages b m) ms (mx_messages t)\<rparr>"
  by (induction ms arbitrary: t) (simp_all add: mx_push_message_def)

lemma mx_turn_state:
  "turn_state (mx_turn J enc t reply) =
     t\<lparr>mx_since := mx_token J (mx_since t) reply,
       mx_messages := fold (\<lambda>m b. push_bounded mx_max_messages b m) (mx_accept J t reply) (mx_messages t),
       mx_seq := (if mx_accept J t reply = [] then mx_seq t else mx_seq t + 1)\<rparr>"
  by (auto simp: mx_turn_def mx_sync_once_def mx_token_def mx_accept_def mx_next_batch_def mx_fold_push Let_def
      split: sum.splits option.splits)

interpretation mx: turn_sequenced "mx_turn J enc" enc mx_seq mx_current_snapshot
  by unfold_locales
    (auto simp: mx_turn_def mx_sync_once_def mx_fold_push mx_current_snapshot_def Let_def
      split: sum.splits option.splits if_splits)

interpretation mx_window: window_room mx_messages mx_push_message mx_max_messages
  by unfold_locales (simp add: mx_push_message_def)

interpretation mx_lossless: turn_lossless "mx_turn J enc" mx_messages "mx_accept J" mx_max_messages
  by unfold_locales (simp_all add: mx_turn_state fold_push_bounded mx_accept_def fun_eq_iff split: sum.splits)

interpretation mx_tokens: turn_folds "mx_turn J enc" mx_since "mx_token J"
  by unfold_locales (simp add: mx_turn_state)

text \<open>A client that keeps receiving from a Matrix room gets snapshots with consecutive numbers;
  after any number of calls the room's history is the last fifty of the old messages and the
  text messages of the syncs that were read, in order, and the next sync asks to go on from
  the token of the last answer that had one.\<close>

lemma matrix_room_history:
  assumes "recv_run (mx_recv J enc) n t (ins :: ('he + _) list) = (bs, t', rest)" and "round_trips enc dec"
    and "length (mx_messages t) \<le> mx_max_messages"
  shows "(\<forall>i < length bs. \<exists>s. dec (bs ! i) = Inr (Snapshot (mx_seq t + of_nat i) s)) \<and>
    (\<exists>used. ins = used @ rest \<and>
       mx_messages t' = last_n mx_max_messages (mx_messages t @ concat (map (mx_accept J t) used)) \<and>
       mx_since t' = foldl (mx_token J) (mx_since t) used)"
proof -
  note run = assms(1) [unfolded mx_recv_def]
  obtain u where "ins = u @ rest" "mx_messages t' = last_n mx_max_messages (mx_messages t @ concat (map (mx_accept J t) u))"
    using mx_lossless.run_window [OF run assms(3)] by blast
  moreover obtain v where "ins = v @ rest" "mx_since t' = foldl (mx_token J) (mx_since t) v"
    using mx_tokens.run_folds [OF run] by blast
  ultimately have "\<exists>used. ins = used @ rest \<and>
       mx_messages t' = last_n mx_max_messages (mx_messages t @ concat (map (mx_accept J t) used)) \<and>
       mx_since t' = foldl (mx_token J) (mx_since t) used" by auto
  with mx.run_numbers_decoded [OF run assms(2)] show ?thesis by blast
qed

definition demo_matrix :: mx_transport where
  "demo_matrix = \<lparr>mx_homeserver = ''h'', mx_access_token = [], mx_room_id = ''!r:h'', mx_room_name = [],
     mx_since = Some ''a'', mx_messages = [], mx_seq = 0, mx_txn_counter = 0, mx_http = []\<rparr>"

definition demo_sync :: "string \<Rightarrow> string list \<Rightarrow> json" where
  "demo_sync next_batch bodies =
     JObj [(''next_batch'', JStr next_batch),
       (''rooms'', JObj [(''join'', JObj [(''!r:h'', JObj [(''timeline'', JObj [(''events'', JArr
          (map (\<lambda>b. JObj [(''type'', JStr ''m.room.message''),
             (''content'', JObj [(''msgtype'', JStr ''m.text''), (''body'', JStr b)])]) bodies))])])])])]"

lemma demo_sync_simps:
  "mx_next_batch value_json (Inr (demo_sync next_batch bodies)) = Some next_batch"
  "map mx_body (mx_timeline value_json ''!r:h'' (demo_sync next_batch bodies)) = bodies"
proof -
  show "mx_next_batch value_json (Inr (demo_sync next_batch bodies)) = Some next_batch"
    by (simp add: mx_next_batch_def demo_sync_def j_index_def)
  show "map mx_body (mx_timeline value_json ''!r:h'' (demo_sync next_batch bodies)) = bodies"
    by (induction bodies)
      (simp_all add: mx_timeline_def demo_sync_def j_path_def j_index_def mx_event_message_def j_str_or_def
        List.map_filter_simps Let_def)
qed

lemma matrix_room_history_witness:
  "\<exists>bs t'. recv_run (mx_recv value_json (Inr :: (json, mx_snapshot) server_wire \<Rightarrow> unit + (json, mx_snapshot) server_wire)) 1 demo_matrix
      [Inr (demo_sync ''b'' []), Inr (demo_sync ''c'' [''x'', ''y'']) :: unit + json] = (bs, t', []) \<and>
     length bs = 1 \<and> map mx_body (mx_messages t') = [''x'', ''y''] \<and> mx_since t' = Some ''c''"
proof -
  let ?recv = "mx_recv value_json (Inr :: (json, mx_snapshot) server_wire \<Rightarrow> unit + (json, mx_snapshot) server_wire)"
  let ?ins = "[Inr (demo_sync ''b'' []), Inr (demo_sync ''c'' [''x'', ''y'']) :: unit + json]"
  have j: "json_as_str (j_index value_json (demo_sync n bs) ''next_batch'') = Some n" for n bs
    using demo_sync_simps(1) [of n bs, where 'a = unit] by (simp add: mx_next_batch_def)
  obtain m ms where ms: "mx_timeline value_json ''!r:h'' (demo_sync ''c'' [''x'', ''y'']) = m # ms"
    using demo_sync_simps(2) [of "''c''" "[''x'', ''y'']"] by auto
  have e: "mx_timeline value_json ''!r:h'' (demo_sync ''b'' []) = []"
    using demo_sync_simps(2) [of "''b''" "[]"] by simp
  obtain bs t' where run: "recv_run ?recv 1 demo_matrix ?ins = (bs, t', [])" and len: "length bs = 1"
    by (simp add: mx_recv_def mx_turn_def mx_sync_once_def j ms e demo_matrix_def emit_def Let_def)
  have rt: "round_trips (Inr :: (json, mx_snapshot) server_wire \<Rightarrow> unit + (json, mx_snapshot) server_wire) Inr"
    and cap: "length (mx_messages demo_matrix) \<le> mx_max_messages"
    by (simp_all add: round_trips_def demo_matrix_def)
  obtain used where "?ins = used @ []"
    and t': "mx_messages t' = last_n mx_max_messages (mx_messages demo_matrix @ concat (map (mx_accept value_json demo_matrix) used))"
      "mx_since t' = foldl (mx_token value_json) (mx_since demo_matrix) used"
    using conjunct2 [OF matrix_room_history [OF run rt cap]] by blast
  then have "mx_since t' = Some ''c''"
    and m: "mx_messages t' = last_n mx_max_messages (mx_timeline value_json ''!r:h'' (demo_sync ''c'' [''x'', ''y'']))"
    by (auto simp: mx_token_def demo_sync_simps(1) mx_accept_def demo_matrix_def e)
  moreover have "map mx_body (mx_messages t') = [''x'', ''y'']"
    using demo_sync_simps(2) [of "''c''" "[''x'', ''y'']"]
    by (subst m, subst last_n_all) (auto simp: mx_max_messages_def dest: arg_cong [where f = length])
  ultimately show ?thesis using run len by (intro exI conjI)
qed

subsection \<open>Where a message is sent\<close>

text \<open>What a server does with a path segment.\<close>

fun percent_decode :: "string \<Rightarrow> string option" where
  "percent_decode [] = Some []"
| "percent_decode (c # cs) =
     (if c \<noteq> CHR ''%'' then map_option ((#) c) (percent_decode cs)
      else (case cs of
              a # b # rest \<Rightarrow>
                (case (hex_val a, hex_val b) of
                   (Some i, Some j) \<Rightarrow> map_option ((#) (char_of (16 * i + j))) (percent_decode rest)
                 | _ \<Rightarrow> None)
            | _ \<Rightarrow> None))"

lemma unreserved_not: "unreserved c \<Longrightarrow> c \<noteq> CHR ''%'' \<and> c \<noteq> CHR ''/''"
  by (auto simp: unreserved_def Let_def)

lemma unreserved_digit: "d < 16 \<Longrightarrow> unreserved (digit_char d)"
  by (auto simp: unreserved_def digit_char_def Let_def)

lemma byte_nibbles: "(of_char c :: nat) div 16 < 16"
proof -
  have "(of_char c :: nat) < 16 * 16" by simp
  then show ?thesis by (rule less_mult_imp_div_less)
qed

lemma percent_decode_encode: "percent_decode (urlencoding_encode s) = Some s"
proof (induction s)
  case (Cons c s)
  have "16 * ((of_char c :: nat) div 16) + of_char c mod 16 = (of_char c :: nat)" by simp
  with Cons show ?case
    by (cases "unreserved c") (auto simp: unreserved_not hex_val_digit byte_nibbles simp del: mult_div_mod_eq)
qed simp

lemma urlencoding_set: "set (urlencoding_encode s) \<subseteq> insert (CHR ''%'') (Collect unreserved)"
  by (induction s) (auto simp: unreserved_digit byte_nibbles)

lemma urlencoding_no_slash: "CHR ''/'' \<notin> set (urlencoding_encode s)"
  using urlencoding_set [of s] unreserved_not by blast

lemma mx_txn_inj:
  "fst (mx_next_txn_id t) = fst (mx_next_txn_id t') \<longleftrightarrow> mx_txn_counter t = mx_txn_counter t'"
proof -
  have b: "unat (x :: u64) < 16 ^ 16" for x
    using unsigned_less [of x, where ?'a = nat] by simp
  show ?thesis
    by (simp only: mx_next_txn_id_def fst_conv hex_padded_inj [OF b b] word_unat_eq_iff)
qed

lemma urlencoding_inj: "urlencoding_encode r = urlencoding_encode r' \<longleftrightarrow> r = r'"
  by (metis option.inject percent_decode_encode)

lemma segment_inj:
  "urlencoding_encode r @ CHR ''/'' # x = urlencoding_encode r' @ CHR ''/'' # x' \<longleftrightarrow> r = r' \<and> x = x'"
proof
  assume eq: "urlencoding_encode r @ CHR ''/'' # x = urlencoding_encode r' @ CHR ''/'' # x'"
  have "Some (urlencoding_encode r, x) = Some (urlencoding_encode r', x')"
    by (simp only: eq split_once_append [OF urlencoding_no_slash, symmetric])
  then show "r = r' \<and> x = x'" by (simp add: urlencoding_inj)
qed simp

lemma mx_send_url_inj:
  assumes "mx_homeserver t' = mx_homeserver t"
  shows "mx_send_url t a = mx_send_url t' b \<longleftrightarrow> mx_room_id t = mx_room_id t' \<and> a = b"
  using segment_inj [of "mx_room_id t" "''send/m.room.message/'' @ a" "mx_room_id t'" "''send/m.room.message/'' @ b"] assms
  by (simp add: mx_send_url_def)

lemma mx_connect_counter:
  "mx_connect J homeserver token room a b = Inr (c, s) \<Longrightarrow> mx_txn_counter (conn_transport c) = 0"
  by (auto simp: mx_connect_def established_def Let_def split: sum.splits)

lemma mx_next_counter: "mx_txn_counter (snd (mx_next_txn_id t)) = mx_txn_counter t + 1"
  by (simp add: mx_next_txn_id_def)

text \<open>C26: on one homeserver, two sends go to the same URL exactly when they are for the same room and
  the same value of the transaction counter, which holds sixteen hexadecimal digits exactly; the
  room's identifier is one path segment that a server decodes to the identifier, whatever
  characters it has. Every new connection starts to count at zero, so its first message to a
  room goes to the URL of the first message of every earlier connection, which a homeserver
  takes for a repetition when the access token is the same.\<close>

theorem matrix_transaction_urls:
  assumes "mx_homeserver t' = mx_homeserver t"
  shows "(mx_send_url t (fst (mx_next_txn_id t)) = mx_send_url t' (fst (mx_next_txn_id t')) \<longleftrightarrow>
      mx_room_id t = mx_room_id t' \<and> mx_txn_counter t = mx_txn_counter t') \<and>
    percent_decode (urlencoding_encode (mx_room_id t)) = Some (mx_room_id t) \<and>
    set (urlencoding_encode (mx_room_id t)) \<subseteq> insert (CHR ''%'') (Collect unreserved) \<and>
    mx_txn_counter (snd (mx_next_txn_id t)) = mx_txn_counter t + 1 \<and>
    (mx_connect J homeserver token room a b = Inr (c, s) \<longrightarrow> mx_txn_counter (conn_transport c) = 0)"
  using mx_send_url_inj [OF assms] mx_txn_inj percent_decode_encode urlencoding_set mx_next_counter mx_connect_counter
  by metis

theorem matrix_transaction_urls_witness:
  "mx_send_url demo_matrix (fst (mx_next_txn_id demo_matrix)) \<noteq>
     mx_send_url (snd (mx_next_txn_id demo_matrix)) (fst (mx_next_txn_id (snd (mx_next_txn_id demo_matrix)))) \<and>
   urlencoding_encode (mx_room_id demo_matrix) = ''%21r%3ah''"
proof -
  have "mx_homeserver (snd (mx_next_txn_id demo_matrix)) = mx_homeserver demo_matrix"
    by (simp add: mx_next_txn_id_def)
  note conjunct1 [OF matrix_transaction_urls [OF this]]
  moreover have "mx_txn_counter demo_matrix \<noteq> mx_txn_counter (snd (mx_next_txn_id demo_matrix))"
    by (simp add: mx_next_txn_id_def)
  moreover have "urlencoding_encode (mx_room_id demo_matrix) = ''%21r%3ah''"
    by (simp add: demo_matrix_def) code_simp
  ultimately show ?thesis by simp
qed

end
