(* ===== verification/Signal.thy ===== *)
theory Signal
  imports Client
begin

section \<open>The Signal connector\<close>

text \<open>
  \<^verbatim>\<open>crates/connectors/interconnect-connector-signal/src\<close>: a conversation through a signal-cli
  child process that speaks JSON-RPC, one value per line. The inputs of the receive loop are
  what reading the child's output gives; the parser of a line is a parameter. The
  process-global counter of request identifiers is passed explicitly.
\<close>

record sg_message =
  sg_sender :: string
  sg_text :: string
  sg_timestamp :: nat

record sg_snapshot =
  sg_snap_account :: string
  sg_snap_recipient :: string
  sg_snap_messages :: "sg_message list"

datatype sg_intent = SgSendMessage string

datatype ('io, 'cj) sg_error = SgJson 'cj | SgIo 'io | SgProcess string | SgClosed

text \<open>The transport holds the lines written to the child.\<close>

record sg_transport =
  sg_stdin :: "string list"
  sg_account :: string
  sg_recipient :: string
  sg_messages :: "sg_message list"
  sg_seq :: u64

fun sg_intent_fields :: "'j json_ops \<Rightarrow> sg_intent \<Rightarrow> (string \<times> 'j) list" where
  "sg_intent_fields J (SgSendMessage text) = tagged J ''send_message'' [(''text'', j_str J text)]"

definition sg_max_messages :: nat where
  "sg_max_messages = 50"

definition sg_current_snapshot :: "sg_transport \<Rightarrow> sg_snapshot" where
  "sg_current_snapshot t =
     \<lparr>sg_snap_account = sg_account t, sg_snap_recipient = sg_recipient t, sg_snap_messages = sg_messages t\<rparr>"

definition sg_push_message :: "sg_transport \<Rightarrow> sg_message \<Rightarrow> sg_transport" where
  "sg_push_message t m = t\<lparr>sg_messages := push_bounded sg_max_messages (sg_messages t) m\<rparr>"

subsection \<open>Sending\<close>

definition sg_request :: "'j json_ops \<Rightarrow> string \<Rightarrow> 'j \<Rightarrow> u64 \<Rightarrow> 'j" where
  "sg_request J api_method params i =
     j_obj J [(''jsonrpc'', j_str J ''2.0''), (''method'', j_str J api_method), (''params'', params),
       (''id'', j_int J (uint i))]"

definition sg_write_rpc ::
  "'j json_ops \<Rightarrow> (string \<Rightarrow> 'io + unit) \<Rightarrow> u64 \<Rightarrow> sg_transport \<Rightarrow> string \<Rightarrow> 'j
    \<Rightarrow> (('io, 'cj) sg_error + unit) \<times> u64 \<times> sg_transport" where
  "sg_write_rpc J wr rpc_id t api_method params =
     (let line = j_text J (sg_request J api_method params rpc_id) @ [CHR 0x0A] in
      case wr line of
        Inl e \<Rightarrow> (Inl (SgIo e), rpc_id + 1, t)
      | Inr _ \<Rightarrow> (Inr (), rpc_id + 1, t\<lparr>sg_stdin := sg_stdin t @ [line]\<rparr>))"

definition sg_send ::
  "'j json_ops \<Rightarrow> (string \<Rightarrow> 'io + unit) \<Rightarrow> ('b \<Rightarrow> 'cj + sg_intent client_wire) \<Rightarrow> u64 \<Rightarrow> sg_transport \<Rightarrow> 'b
    \<Rightarrow> (('io, 'cj) sg_error + unit) \<times> u64 \<times> sg_transport" where
  "sg_send J wr dec rpc_id t data =
     (case dec data of
        Inl e \<Rightarrow> (Inl (SgJson e), rpc_id, t)
      | Inr (Intent (SgSendMessage text)) \<Rightarrow>
          sg_write_rpc J wr rpc_id t ''send''
            (j_obj J [(''recipient'', j_arr J [j_str J (sg_recipient t)]), (''message'', j_str J text),
               (''account'', j_str J (sg_account t))])
      | Inr _ \<Rightarrow> (Inr (), rpc_id, t))"

subsection \<open>Receiving\<close>

datatype 'io sg_item = SgLine string | SgEof | SgReadErr 'io

text \<open>\<^verbatim>\<open>str::trim_start_matches\<close> removes the prefix as often as it occurs.\<close>

function trim_start :: "string \<Rightarrow> string \<Rightarrow> string" where
  "trim_start p s =
     (if p = [] then s else (case strip_prefix p s of None \<Rightarrow> s | Some r \<Rightarrow> trim_start p r))"
  by pat_completeness auto

termination
  by (relation "measure (\<lambda>(p, s). length s)") (auto simp: strip_prefix_Some)

declare trim_start.simps [simp del]

definition sg_is_group :: "string \<Rightarrow> bool" where
  "sg_is_group recipient \<longleftrightarrow> starts_with ''group.'' recipient"

definition sg_sender_of :: "'j json_ops \<Rightarrow> 'j \<Rightarrow> string" where
  "sg_sender_of J envelope =
     (case j_as_str J (j_index J envelope ''sourceNumber'') of
        Some s \<Rightarrow> s
      | None \<Rightarrow> j_str_or J [] (j_index J envelope ''sourceUuid''))"

text \<open>The message of a notification, when it is for this conversation: the filters of the loop.\<close>

definition sg_notification :: "'j json_ops \<Rightarrow> string \<Rightarrow> 'j \<Rightarrow> sg_message option" where
  "sg_notification J recipient v =
     (if j_get J v ''id'' \<noteq> None then None
      else if j_as_str J (j_index J v ''method'') \<noteq> Some ''receive'' then None
      else
        (let envelope = j_path J v [''params'', ''envelope'']; sender = sg_sender_of J envelope in
         if \<not> sg_is_group recipient \<and> sender \<noteq> recipient then None
         else if sg_is_group recipient \<and>
           j_str_or J [] (j_path J envelope [''dataMessage'', ''groupInfo'', ''groupId'']) \<noteq>
             trim_start ''group.'' recipient then None
         else Some \<lparr>sg_sender = sender,
                    sg_text = j_str_or J [] (j_path J envelope [''dataMessage'', ''message'']),
                    sg_timestamp = j_u64_or J 0 (j_index J envelope ''timestamp'')\<rparr>))"

fun sg_turn ::
  "'j json_ops \<Rightarrow> (string \<Rightarrow> 'j option) \<Rightarrow> (('j, sg_snapshot) server_wire \<Rightarrow> 'cj + 'b) \<Rightarrow> sg_transport
    \<Rightarrow> 'io sg_item \<Rightarrow> (('io, 'cj) sg_error, 'b, sg_transport) turn" where
  "sg_turn J parse enc t (SgReadErr e) = Return (Failed (SgIo e)) t"
| "sg_turn J parse enc t SgEof = Return Closed t"
| "sg_turn J parse enc t (SgLine line) =
     (case Option.bind (parse line) (sg_notification J (sg_recipient t)) of
        None \<Rightarrow> Continue t
      | Some m \<Rightarrow>
          (let t1 = sg_push_message t m
           in Return (emit enc SgJson (Snapshot (sg_seq t1) (sg_current_snapshot t1)))
                (t1\<lparr>sg_seq := sg_seq t1 + 1\<rparr>)))"

definition sg_recv ::
  "'j json_ops \<Rightarrow> (string \<Rightarrow> 'j option) \<Rightarrow> (('j, sg_snapshot) server_wire \<Rightarrow> 'cj + 'b) \<Rightarrow> sg_transport
    \<Rightarrow> 'io sg_item list \<Rightarrow> (('io, 'cj) sg_error, 'b) polled \<times> sg_transport \<times> 'io sg_item list" where
  "sg_recv J parse enc = recv_loop (sg_turn J parse enc)"

subsection \<open>Connecting\<close>

text \<open>Spawning the child and taking its pipes can fail.\<close>

datatype 'io sg_child = SgSpawnErr 'io | SgNoStdin | SgNoStdout | SgSpawned

definition sg_args :: "string \<Rightarrow> string list" where
  "sg_args account = [''--output=json'', ''-a'', account, ''jsonRpc'']"

definition sg_manifest :: "'j json_ops \<Rightarrow> string \<Rightarrow> string \<Rightarrow> 'j manifest" where
  "sg_manifest J account recipient =
     \<lparr>m_identity = identity_local (''signal:'' @ account @ '':'' @ recipient), m_name = recipient, m_substrate = None,
      m_metadata = j_obj J [(''type'', j_str J ''signal''), (''account'', j_str J account),
        (''recipient'', j_str J recipient)]\<rparr>"

definition sg_connect ::
  "'j json_ops \<Rightarrow> (string list \<Rightarrow> 'io sg_child) \<Rightarrow> string \<Rightarrow> string
    \<Rightarrow> ('io, 'cj) sg_error + (sg_transport, 'j) connection \<times> sg_snapshot" where
  "sg_connect J spawn account recipient =
     (case spawn (sg_args account) of
        SgSpawnErr e \<Rightarrow> Inl (SgIo e)
      | SgNoStdin \<Rightarrow> Inl (SgProcess ''failed to open stdin for signal-cli'')
      | SgNoStdout \<Rightarrow> Inl (SgProcess ''failed to open stdout for signal-cli'')
      | SgSpawned \<Rightarrow>
          (let t = \<lparr>sg_stdin = [], sg_account = account, sg_recipient = recipient, sg_messages = [], sg_seq = 0\<rparr>
           in Inr (established t (sg_manifest J account recipient), sg_current_snapshot t)))"

subsection \<open>The contracts\<close>

fun sg_accept :: "'j json_ops \<Rightarrow> (string \<Rightarrow> 'j option) \<Rightarrow> sg_transport \<Rightarrow> 'io sg_item \<Rightarrow> sg_message list" where
  "sg_accept J parse t (SgLine line) =
     (case Option.bind (parse line) (sg_notification J (sg_recipient t)) of None \<Rightarrow> [] | Some m \<Rightarrow> [m])"
| "sg_accept J parse t _ = []"

lemma sg_turn_messages:
  "sg_messages (turn_state (sg_turn J parse enc t x)) =
     fold (\<lambda>m b. push_bounded sg_max_messages b m) (sg_accept J parse t x) (sg_messages t)"
  by (cases x) (auto simp: sg_push_message_def Let_def split: option.splits)

lemma sg_turn_recipient: "sg_recipient (turn_state (sg_turn J parse enc t x)) = sg_recipient t"
  by (cases x) (auto simp: sg_push_message_def Let_def split: option.splits)

lemma sg_accept_cong: "sg_recipient t' = sg_recipient t \<Longrightarrow> sg_accept J parse t' = sg_accept J parse t"
proof (rule ext)
  fix x :: "'c sg_item"
  assume "sg_recipient t' = sg_recipient t"
  then show "sg_accept J parse t' x = sg_accept J parse t x" by (cases x) simp_all
qed

interpretation sg: turn_sequenced "sg_turn J parse enc" enc sg_seq sg_current_snapshot
proof unfold_locales
  fix t x b t'
  show "sg_turn J parse enc t x = Return (Frame b) t' \<Longrightarrow> enc (Snapshot (sg_seq t' - 1) (sg_current_snapshot t')) = Inr b"
    by (cases x) (auto simp: Let_def sg_current_snapshot_def split: option.splits)
  show "sg_turn J parse enc t x = Return (Frame b) t' \<Longrightarrow> sg_seq t' = sg_seq t + 1"
    by (cases x) (auto simp: Let_def sg_push_message_def split: option.splits)
  show "sg_turn J parse enc t x = Continue t' \<Longrightarrow> sg_seq t' = sg_seq t"
    by (cases x) (auto simp: Let_def split: option.splits)
qed

interpretation sg_window: window_room sg_messages sg_push_message sg_max_messages
  by unfold_locales (simp add: sg_push_message_def)

interpretation sg_lossless: turn_lossless "sg_turn J parse enc" sg_messages "sg_accept J parse" sg_max_messages
  by unfold_locales (simp add: sg_turn_messages fold_push_bounded, rule sg_accept_cong, rule sg_turn_recipient)

lemma trim_start_id: "\<not> starts_with p r \<Longrightarrow> trim_start p r = r"
  by (subst trim_start.simps) (simp add: strip_prefix_def)

lemma trim_start_once: "p \<noteq> [] \<Longrightarrow> \<not> starts_with p r \<Longrightarrow> trim_start p (p @ r) = r"
  by (subst trim_start.simps) (simp add: trim_start_id)

text \<open>A notification without a data message.\<close>

definition sg_typing :: "'j json_ops \<Rightarrow> string \<Rightarrow> 'j" where
  "sg_typing J sender =
     j_obj J [(''method'', j_str J ''receive''),
       (''params'', j_obj J [(''envelope'', j_obj J [(''sourceNumber'', j_str J sender), (''typingMessage'', j_obj J [])])])]"

text \<open>A notification of a group message.\<close>

definition sg_group_message :: "'j json_ops \<Rightarrow> string \<Rightarrow> string \<Rightarrow> string \<Rightarrow> 'j" where
  "sg_group_message J sender group_id txt =
     j_obj J [(''method'', j_str J ''receive''),
       (''params'', j_obj J [(''envelope'', j_obj J [(''sourceNumber'', j_str J sender),
          (''dataMessage'', j_obj J [(''message'', j_str J txt),
             (''groupInfo'', j_obj J [(''groupId'', j_str J group_id)])])])])]"

context json_value
begin

lemma typing_notification:
  "\<not> sg_is_group sender \<Longrightarrow>
     sg_notification J sender (sg_typing J sender) = Some \<lparr>sg_sender = sender, sg_text = [], sg_timestamp = 0\<rparr>"
  by (simp add: sg_notification_def sg_typing_def sg_sender_of_def j_path_def j_str_or_def j_u64_or_def
      index_obj index_null value_simps)

lemma group_notification:
  "\<not> starts_with ''group.'' g \<Longrightarrow>
     sg_notification J (''group.'' @ g) (sg_group_message J sender group_id txt) =
       (if group_id = g then Some \<lparr>sg_sender = sender, sg_text = txt, sg_timestamp = 0\<rparr> else None)"
  using trim_start_once [of "''group.''" g]
  by (simp add: sg_notification_def sg_group_message_def sg_sender_of_def j_path_def j_str_or_def j_u64_or_def
      index_obj index_null value_simps sg_is_group_def starts_with_def)

end

text \<open>C36: a client that keeps receiving from a Signal conversation gets snapshots with consecutive
  numbers, and after any number of calls the history is the last fifty of the old messages and
  the notifications for this conversation, in order. In a conversation with one partner every
  notification of the partner counts: one without a data message, such as a receipt or a typing
  signal, becomes a message with an empty text. In a group exactly the messages with the
  group's identifier count, whoever sends them.\<close>

theorem signal_room_history:
  assumes "recv_run (sg_recv J parse enc) n t ins = (bs, t', rest)" and "round_trips enc dec"
    and "length (sg_messages t) \<le> sg_max_messages" and "json_value J"
    and "\<not> sg_is_group partner" and "\<not> starts_with ''group.'' g"
  shows "(\<forall>i < length bs. \<exists>s. dec (bs ! i) = Inr (Snapshot (sg_seq t + of_nat i) s)) \<and>
    (\<exists>used. ins = used @ rest \<and>
       sg_messages t' = last_n sg_max_messages (sg_messages t @ concat (map (sg_accept J parse t) used))) \<and>
    sg_notification J partner (sg_typing J partner) = Some \<lparr>sg_sender = partner, sg_text = [], sg_timestamp = 0\<rparr> \<and>
    sg_notification J (''group.'' @ g) (sg_group_message J sender group_id txt) =
       (if group_id = g then Some \<lparr>sg_sender = sender, sg_text = txt, sg_timestamp = 0\<rparr> else None)"
  using sg.run_numbers_decoded [OF assms(1) [unfolded sg_recv_def] assms(2)]
    sg_lossless.run_window [OF assms(1) [unfolded sg_recv_def] assms(3)]
    json_value.typing_notification [OF assms(4,5)] json_value.group_notification [OF assms(4,6)] by blast

definition demo_signal :: sg_transport where
  "demo_signal = \<lparr>sg_stdin = [], sg_account = ''+1'', sg_recipient = ''+2'', sg_messages = [], sg_seq = 3\<rparr>"

definition demo_parse :: "string \<Rightarrow> json option" where
  "demo_parse line = (if line = ''typing'' then Some (sg_typing value_json ''+2'') else None)"

theorem signal_room_history_witness:
  "\<exists>bs t'. recv_run (sg_recv value_json demo_parse (Inr :: (json, sg_snapshot) server_wire \<Rightarrow> unit + (json, sg_snapshot) server_wire)) 2
      demo_signal [SgLine ''noise'', SgLine ''typing'', SgEof :: unit sg_item] = (bs, t', []) \<and>
     length bs = 1 \<and> (\<exists>s. bs ! 0 = Snapshot 3 s) \<and> map sg_text (sg_messages t') = [[]]"
proof -
  let ?recv = "sg_recv value_json demo_parse (Inr :: (json, sg_snapshot) server_wire \<Rightarrow> unit + (json, sg_snapshot) server_wire)"
  have g: "\<not> sg_is_group ''+2''" "\<not> starts_with ''group.'' ''x''" by (simp_all add: sg_is_group_def starts_with_def)
  note n = json_value.typing_notification [OF value_json_laws g(1)]
  obtain bs t' where run: "recv_run ?recv 2 demo_signal [SgLine ''noise'', SgLine ''typing'', SgEof :: unit sg_item] = (bs, t', [])"
      and len: "length bs = 1" and m: "map sg_text (sg_messages t') = [[]]"
    by (simp add: sg_recv_def numeral_2_eq_2 demo_parse_def n demo_signal_def emit_def sg_push_message_def
        push_bounded_def sg_max_messages_def Let_def)
  have rt: "round_trips (Inr :: (json, sg_snapshot) server_wire \<Rightarrow> unit + (json, sg_snapshot) server_wire) Inr"
    and cap: "length (sg_messages demo_signal) \<le> sg_max_messages"
    by (simp_all add: round_trips_def demo_signal_def)
  have ex: "\<exists>s. bs ! 0 = Snapshot 3 s"
    using conjunct1 [OF signal_room_history [OF run rt cap value_json_laws g]] len by (simp add: demo_signal_def)
  show ?thesis by (rule exI [of _ bs], rule exI [of _ t']) (intro conjI run len m ex)
qed

end
