(* ===== verification/Discord.thy ===== *)
theory Discord
  imports Client
begin

section \<open>The Discord connector\<close>

text \<open>
  \<^verbatim>\<open>crates/connectors/interconnect-connector-discord/src\<close>. The inputs of the receive loop are
  the gateway's events; the HTTP calls are functions, and those of sending are logged in \<open>dc_http\<close>, the
  transport's client. Snowflake identifiers are 64-bit numbers;
  the client library's \<^verbatim>\<open>Id::new\<close> panics on zero, which ends the task that called it and is
  the error value \<open>DcPanic\<close>.
\<close>

record dc_message =
  dc_id :: string
  dc_author_id :: string
  dc_author_name :: string
  dc_content :: string
  dc_timestamp :: nat

record dc_snapshot =
  dc_snap_channel_id :: string
  dc_snap_channel_name :: string
  dc_snap_messages :: "dc_message list"

datatype dc_intent = DcSendMessage string | DcReact string string

datatype ('ge, 'he, 'be, 'cj) dc_error = DcGateway 'ge | DcHttp 'he | DcBody 'be | DcJson 'cj | DcPanic

datatype dc_request = DcCreateMessage u64 string | DcCreateReaction u64 u64 string

record dc_transport =
  dc_channel_id :: u64
  dc_channel_name :: string
  dc_messages :: "dc_message list"
  dc_seq :: u64
  dc_http :: "dc_request list"

text \<open>What the library gives of a message.\<close>

record dc_api_message =
  da_id :: u64
  da_channel_id :: u64
  da_author_id :: u64
  da_author_name :: string
  da_content :: string

fun dc_intent_fields :: "'j json_ops \<Rightarrow> dc_intent \<Rightarrow> (string \<times> 'j) list" where
  "dc_intent_fields J (DcSendMessage content) = tagged J ''send_message'' [(''content'', j_str J content)]"
| "dc_intent_fields J (DcReact message_id emoji) =
     tagged J ''react'' [(''message_id'', j_str J message_id), (''emoji'', j_str J emoji)]"

definition dc_max_messages :: nat where
  "dc_max_messages = 50"

definition dc_current_snapshot :: "dc_transport \<Rightarrow> dc_snapshot" where
  "dc_current_snapshot t =
     \<lparr>dc_snap_channel_id = show_nat (unat (dc_channel_id t)), dc_snap_channel_name = dc_channel_name t,
      dc_snap_messages = dc_messages t\<rparr>"

definition dc_push_message :: "dc_transport \<Rightarrow> dc_message \<Rightarrow> dc_transport" where
  "dc_push_message t m = t\<lparr>dc_messages := push_bounded dc_max_messages (dc_messages t) m\<rparr>"

text \<open>The seconds since 1970 in a snowflake: its upper 42 bits are milliseconds since the epoch of
  Discord; the addition saturates.\<close>

definition snowflake_seconds :: "u64 \<Rightarrow> nat" where
  "snowflake_seconds i = min (unat (drop_bit 22 i) + 1420070400000) (2 ^ 64 - 1) div 1000"

definition dc_convert :: "dc_api_message \<Rightarrow> dc_message" where
  "dc_convert m =
     \<lparr>dc_id = show_nat (unat (da_id m)), dc_author_id = show_nat (unat (da_author_id m)),
      dc_author_name = da_author_name m, dc_content = da_content m, dc_timestamp = snowflake_seconds (da_id m)\<rparr>"

subsection \<open>Sending\<close>

definition dc_send ::
  "(dc_request list \<Rightarrow> u64 \<Rightarrow> string \<Rightarrow> 'he + unit)
    \<Rightarrow> (dc_request list \<Rightarrow> u64 \<Rightarrow> u64 \<Rightarrow> string \<Rightarrow> 'he + unit) \<Rightarrow> ('b \<Rightarrow> 'cj + dc_intent client_wire)
    \<Rightarrow> dc_transport \<Rightarrow> 'b \<Rightarrow> (('ge, 'he, 'be, 'cj) dc_error + unit) \<times> dc_transport" where
  "dc_send create_message create_reaction dec t data =
     (case dec data of
        Inl e \<Rightarrow> (Inl (DcJson e), t)
      | Inr (Intent (DcSendMessage content)) \<Rightarrow>
          (let t1 = t\<lparr>dc_http := dc_http t @ [DcCreateMessage (dc_channel_id t) content]\<rparr>
           in case create_message (dc_http t) (dc_channel_id t) content of
                Inl e \<Rightarrow> (Inl (DcHttp e), t1)
              | Inr u \<Rightarrow> (Inr u, t1))
      | Inr (Intent (DcReact message_id emoji)) \<Rightarrow>
          (case parse_u64 message_id of
             None \<Rightarrow> (Inr (), t)
           | Some i \<Rightarrow>
               if i = 0 then (Inl DcPanic, t)
               else (let t1 = t\<lparr>dc_http := dc_http t @ [DcCreateReaction (dc_channel_id t) (word_of_nat i) emoji]\<rparr>
                     in case create_reaction (dc_http t) (dc_channel_id t) (word_of_nat i) emoji of
                          Inl e \<Rightarrow> (Inl (DcHttp e), t1)
                        | Inr u \<Rightarrow> (Inr u, t1)))
      | Inr _ \<Rightarrow> (Inr (), t))"

subsection \<open>Receiving\<close>

datatype 'ge dc_item = DcMessageCreate dc_api_message | DcOtherEvent | DcGatewayErr 'ge | DcEnd

fun dc_turn ::
  "(('j, dc_snapshot) server_wire \<Rightarrow> 'cj + 'b) \<Rightarrow> dc_transport \<Rightarrow> 'ge dc_item
    \<Rightarrow> (('ge, 'he, 'be, 'cj) dc_error, 'b, dc_transport) turn" where
  "dc_turn enc t DcEnd = Return Closed t"
| "dc_turn enc t (DcGatewayErr e) = Return (Failed (DcGateway e)) t"
| "dc_turn enc t DcOtherEvent = Continue t"
| "dc_turn enc t (DcMessageCreate m) =
     (if da_channel_id m = dc_channel_id t then
        (let t1 = dc_push_message t (dc_convert m)
         in Return (emit enc DcJson (Snapshot (dc_seq t1) (dc_current_snapshot t1)))
              (t1\<lparr>dc_seq := dc_seq t1 + 1\<rparr>))
      else Continue t)"

definition dc_recv ::
  "(('j, dc_snapshot) server_wire \<Rightarrow> 'cj + 'b) \<Rightarrow> dc_transport \<Rightarrow> 'ge dc_item list
    \<Rightarrow> (('ge, 'he, 'be, 'cj) dc_error, 'b) polled \<times> dc_transport \<times> 'ge dc_item list" where
  "dc_recv enc = recv_loop (dc_turn enc)"

subsection \<open>Connecting\<close>

text \<open>An HTTP call of the library fails, or gives a response whose body may not decode.\<close>

definition dc_call :: "'he + 'be + 'a \<Rightarrow> ('ge, 'he, 'be, 'cj) dc_error + 'a" where
  "dc_call reply =
     (case reply of Inl e \<Rightarrow> Inl (DcHttp e) | Inr (Inl e) \<Rightarrow> Inl (DcBody e) | Inr (Inr x) \<Rightarrow> Inr x)"

definition dc_fetch_initial_snapshot ::
  "dc_transport \<Rightarrow> 'he + 'be + dc_api_message list
    \<Rightarrow> (('ge, 'he, 'be, 'cj) dc_error + dc_snapshot) \<times> dc_transport" where
  "dc_fetch_initial_snapshot t reply =
     (case dc_call reply of
        Inl e \<Rightarrow> (Inl e, t)
      | Inr ms \<Rightarrow>
          (let t1 = t\<lparr>dc_messages := dc_messages t @ map dc_convert (rev ms)\<rparr>
           in (Inr (dc_current_snapshot t1), t1)))"

definition dc_manifest :: "'j json_ops \<Rightarrow> u64 \<Rightarrow> string \<Rightarrow> 'j manifest" where
  "dc_manifest J channel_id channel_name =
     \<lparr>m_identity = identity_local (''discord:'' @ show_nat (unat channel_id)), m_name = channel_name,
      m_substrate = None,
      m_metadata = j_obj J [(''type'', j_str J ''discord''), (''channel_id'', j_str J (show_nat (unat channel_id)))]\<rparr>"

definition dc_connect ::
  "'j json_ops \<Rightarrow> u64 \<Rightarrow> 'he + 'be + string option \<Rightarrow> 'he + 'be + dc_api_message list
    \<Rightarrow> ('ge, 'he, 'be, 'cj) dc_error + (dc_transport, 'j) connection \<times> dc_snapshot" where
  "dc_connect J channel_id channel_reply messages_reply =
     (case dc_call channel_reply of
        Inl e \<Rightarrow> Inl e
      | Inr name \<Rightarrow>
          (let channel_name = (case name of Some n \<Rightarrow> n | None \<Rightarrow> show_nat (unat channel_id)) in
           case dc_fetch_initial_snapshot
                  \<lparr>dc_channel_id = channel_id, dc_channel_name = channel_name, dc_messages = [], dc_seq = 0, dc_http = []\<rparr>
                  messages_reply of
             (Inl e, _) \<Rightarrow> Inl e
           | (Inr snapshot, t) \<Rightarrow> Inr (established t (dc_manifest J channel_id channel_name), snapshot)))"

subsection \<open>The contracts\<close>

fun dc_accept :: "dc_transport \<Rightarrow> 'ge dc_item \<Rightarrow> dc_message list" where
  "dc_accept t (DcMessageCreate m) = (if da_channel_id m = dc_channel_id t then [dc_convert m] else [])"
| "dc_accept t _ = []"

lemma dc_turn_keeps:
  "dc_messages (turn_state (dc_turn enc t x)) =
     fold (\<lambda>m b. push_bounded dc_max_messages b m) (dc_accept t x) (dc_messages t)"
  "dc_channel_id (turn_state (dc_turn enc t x)) = dc_channel_id t"
  by (cases x; simp add: dc_push_message_def Let_def)+

lemma dc_accept_cong: "dc_channel_id t' = dc_channel_id t \<Longrightarrow> dc_accept t' = dc_accept t"
proof (rule ext)
  fix x :: "'a dc_item"
  assume "dc_channel_id t' = dc_channel_id t"
  then show "dc_accept t' x = dc_accept t x" by (cases x) simp_all
qed

interpretation dc: turn_sequenced "dc_turn enc" enc dc_seq dc_current_snapshot
proof unfold_locales
  fix t x b t'
  show "dc_turn enc t x = Return (Frame b) t' \<Longrightarrow> enc (Snapshot (dc_seq t' - 1) (dc_current_snapshot t')) = Inr b"
    by (cases x) (auto simp: Let_def dc_current_snapshot_def split: if_splits)
  show "dc_turn enc t x = Return (Frame b) t' \<Longrightarrow> dc_seq t' = dc_seq t + 1"
    by (cases x) (auto simp: Let_def dc_push_message_def split: if_splits)
  show "dc_turn enc t x = Continue t' \<Longrightarrow> dc_seq t' = dc_seq t"
    by (cases x) (auto simp: Let_def split: if_splits)
qed

interpretation dc_window: window_room dc_messages dc_push_message dc_max_messages
  by unfold_locales (simp add: dc_push_message_def)

interpretation dc_lossless: turn_lossless "dc_turn enc" dc_messages dc_accept dc_max_messages
  by unfold_locales (simp add: dc_turn_keeps fold_push_bounded, rule dc_accept_cong, rule dc_turn_keeps)

lemma snowflake_seconds_exact: "snowflake_seconds i = (unat i div 2 ^ 22 + 1420070400000) div 1000"
proof -
  have "unat i < 2 ^ 64"
    using unsigned_less [of i] by simp
  then have "take_bit LENGTH(64) (unat i) = unat i"
    by (simp add: take_bit_nat_eq_self_iff)
  then have "unat (drop_bit 22 i) = unat i div 2 ^ 22"
    using unsigned_drop_bit_eq [where ?'a = nat, of 22 i] by (simp only: drop_bit_eq_div [where ?'a = nat])
  moreover note \<open>unat i < 2 ^ 64\<close>
  then have "unat i div 2 ^ 22 < 2 ^ 42"
    by (intro less_mult_imp_div_less) simp
  ultimately show ?thesis by (simp add: snowflake_seconds_def)
qed

text \<open>A client that connects to a Discord channel and keeps receiving gets snapshots with the
  numbers 0, 1, 2 and so on; after any number of calls the history is the last fifty of the
  messages that connecting fetched, oldest first, and the channel's messages among the events
  that were read. The time of a message is the one in its snowflake, never cut off by the
  saturating addition.\<close>

lemma discord_room_history:
  assumes "dc_connect J channel_id channel_reply (Inr (Inr history)) = (Inr (c, s) :: ('ge, 'he, 'be, 'cj) dc_error + _)"
    and "recv_run (dc_recv enc :: _ \<Rightarrow> _ \<Rightarrow> (('ge, 'he, 'be, 'cj) dc_error, _) polled \<times> _) n (conn_transport c) ins = (bs, t', rest)"
    and "round_trips enc dec" and "length history \<le> dc_max_messages"
  shows "(\<forall>i < length bs. \<exists>d. dec (bs ! i) = Inr (Snapshot (of_nat i) d)) \<and>
    (\<exists>used. ins = used @ rest \<and>
       dc_messages t' = last_n dc_max_messages
         (map dc_convert (rev history) @ concat (map (dc_accept (conn_transport c)) used))) \<and>
    snowflake_seconds i = (unat i div 2 ^ 22 + 1420070400000) div 1000"
proof -
  have c: "dc_messages (conn_transport c) = map dc_convert (rev history)" "dc_seq (conn_transport c) = 0"
    using assms(1)
    by (auto simp: dc_connect_def dc_call_def dc_fetch_initial_snapshot_def established_def Let_def split: sum.splits option.splits)
  then have "length (dc_messages (conn_transport c)) \<le> dc_max_messages" using assms(4) by simp
  from dc_lossless.run_window [OF assms(2) [unfolded dc_recv_def] this]
    dc.run_numbers_decoded [OF assms(2) [unfolded dc_recv_def] assms(3)] c
  show ?thesis by (simp add: snowflake_seconds_exact)
qed

definition demo_dc_message :: "u64 \<Rightarrow> u64 \<Rightarrow> dc_api_message" where
  "demo_dc_message i chan = \<lparr>da_id = i, da_channel_id = chan, da_author_id = 1, da_author_name = [], da_content = []\<rparr>"

lemma discord_room_history_witness:
  "\<exists>c s bs t'. dc_connect value_json 5 (Inr (Inr None)) (Inr (Inr [demo_dc_message 2 5, demo_dc_message 1 5]))
      = (Inr (c, s) :: (unit, unit, unit, unit) dc_error + _) \<and>
    recv_run (dc_recv (Inr :: (json, dc_snapshot) server_wire \<Rightarrow> unit + (json, dc_snapshot) server_wire)
        :: _ \<Rightarrow> _ \<Rightarrow> ((unit, unit, unit, unit) dc_error, _) polled \<times> _) 1 (conn_transport c)
      [DcMessageCreate (demo_dc_message 3 6), DcMessageCreate (demo_dc_message 4 5)] = (bs, t', []) \<and>
    map dc_id (dc_messages t') = map (\<lambda>i :: u64. show_nat (unat i)) [1, 2, 4] \<and> (\<exists>d. bs ! 0 = Snapshot 0 d)"
proof -
  let ?ins = "[DcMessageCreate (demo_dc_message 3 6), DcMessageCreate (demo_dc_message 4 5)] :: unit dc_item list"
  let ?recv = "dc_recv (Inr :: (json, dc_snapshot) server_wire \<Rightarrow> unit + (json, dc_snapshot) server_wire)
        :: _ \<Rightarrow> _ \<Rightarrow> ((unit, unit, unit, unit) dc_error, _) polled \<times> _"
  obtain c s where c: "dc_connect value_json 5 (Inr (Inr None)) (Inr (Inr [demo_dc_message 2 5, demo_dc_message 1 5]))
      = (Inr (c, s) :: (unit, unit, unit, unit) dc_error + _)"
      and t: "dc_channel_id (conn_transport c) = 5"
    by (simp add: dc_connect_def dc_call_def dc_fetch_initial_snapshot_def established_def Let_def)
  obtain bs t' where run: "recv_run ?recv 1 (conn_transport c) ?ins = (bs, t', [])" and len: "length bs = 1"
    by (simp add: dc_recv_def demo_dc_message_def t emit_def dc_push_message_def dc_current_snapshot_def Let_def)
  have rt: "round_trips (Inr :: (json, dc_snapshot) server_wire \<Rightarrow> unit + (json, dc_snapshot) server_wire) Inr"
    and cap: "length [demo_dc_message 2 5, demo_dc_message 1 5] \<le> dc_max_messages"
    by (simp_all add: round_trips_def dc_max_messages_def)
  note h = discord_room_history [OF c run rt cap]
  have ex: "\<exists>d. bs ! 0 = Snapshot 0 d" using conjunct1 [OF h] len by simp
  obtain used where "?ins = used @ []" and "dc_messages t' = last_n dc_max_messages
         (map dc_convert (rev [demo_dc_message 2 5, demo_dc_message 1 5]) @ concat (map (dc_accept (conn_transport c)) used))"
    using h by blast
  then have m: "map dc_id (dc_messages t') = map (\<lambda>i :: u64. show_nat (unat i)) [1, 2, 4]"
    by (auto simp: last_n_all dc_max_messages_def demo_dc_message_def t dc_convert_def)
  show ?thesis
    by (rule exI [of _ c], rule exI [of _ s], rule exI [of _ bs], rule exI [of _ t']) (intro conjI c run m ex)
qed

text \<open>What a Discord room does with a reaction: an identifier that is no 64-bit number is passed
  over in silence, as if the reaction had been added; the identifier 0, with or without a sign
  and leading zeros, panics in the client library; every other one goes to the API for the
  room's channel, whose errors are passed on. Nothing but the log of requests changes.\<close>

lemma discord_reaction:
  "dc_send create_message create_reaction (\<lambda>_. Inr (Intent (DcReact message_id emoji))) t data =
     (case parse_u64 message_id of
        None \<Rightarrow> Inr ()
      | Some i \<Rightarrow>
          if i = 0 then Inl DcPanic
          else map_sum DcHttp id (create_reaction (dc_http t) (dc_channel_id t) (word_of_nat i) emoji),
      case parse_u64 message_id of
        None \<Rightarrow> t
      | Some i \<Rightarrow>
          if i = 0 then t
          else t\<lparr>dc_http := dc_http t @ [DcCreateReaction (dc_channel_id t) (word_of_nat i) emoji]\<rparr>) \<and>
   parse_u64 (replicate (Suc k) (CHR ''0'')) = Some 0 \<and>
   (parse_u64 message_id = Some i \<longrightarrow> unat (word_of_nat i :: u64) = i)"
proof -
  have "parse_digits 0 (replicate k (CHR ''0'')) = Some 0" for k
    by (induction k) (simp_all add: digit_val_def)
  from this [of "Suc k"] have "parse_u64 (replicate (Suc k) (CHR ''0'')) = Some 0"
    by (simp add: parse_unsigned_def)
  moreover have "parse_u64 message_id = Some i \<Longrightarrow> unat (word_of_nat i :: u64) = i"
    by (auto simp: parse_unsigned_def unat_of_nat Let_def split: option.splits if_splits)
  ultimately show ?thesis
    by (auto simp: dc_send_def Let_def split: option.splits sum.splits)
qed

lemma discord_reaction_witness:
  "dc_send (\<lambda>_ _ _. Inr ()) (\<lambda>_ _ _ _. Inr ()) (\<lambda>_. Inr (Intent (DcReact ''00'' ''x''))) \<lparr>dc_channel_id = 1, dc_channel_name = [],
     dc_messages = [], dc_seq = 0, dc_http = []\<rparr> () = (Inl DcPanic :: (unit, unit, unit, unit) dc_error + unit, \<lparr>dc_channel_id = 1,
     dc_channel_name = [], dc_messages = [], dc_seq = 0, dc_http = []\<rparr>)"
proof -
  have z: "parse_u64 ''00'' = Some 0"
    by (simp add: parse_unsigned_def digit_val_def)
  show ?thesis
    using conjunct1 [OF discord_reaction [where message_id = "''00''" and create_message = "\<lambda>_ _ _. Inr () :: unit + unit"
        and create_reaction = "\<lambda>_ _ _ _. Inr () :: unit + unit" and emoji = "''x''"]] z
    by simp
qed

end
