(* ===== verification/Slack.thy ===== *)
theory Slack
  imports Client
begin

section \<open>The Slack connector\<close>

text \<open>
  \<^verbatim>\<open>crates/connectors/interconnect-connector-slack/src\<close>: Socket Mode events, acknowledged one by
  one, and the Web API. An input of the receive loop is a web socket message; a text message
  comes with the outcome of sending its acknowledgement and of looking up its sender, should
  the loop do so. The generated decoders of the two envelope structures are parameters. The field
  \<open>sl_http\<close>, the HTTP client of the transport, holds the requests that sending made through it.
\<close>

record sl_message =
  sl_ts :: string
  sl_user_id :: string
  sl_user_name :: string
  sl_text :: string
  sl_timestamp :: nat

record sl_snapshot =
  sl_snap_channel_id :: string
  sl_snap_channel_name :: string
  sl_snap_messages :: "sl_message list"

datatype sl_intent = SlSendMessage string

datatype ('he, 'we, 'cj) sl_error = SlHttp 'he | SlWebSocket 'we | SlJson 'cj | SlApi string | SlClosed

text \<open>The transport; of the web socket it holds what was sent on it.\<close>

record sl_transport =
  sl_sent :: "string list"
  sl_bot_token :: string
  sl_channel_id :: string
  sl_channel_name :: string
  sl_messages :: "sl_message list"
  sl_seq :: u64
  sl_http :: "(string \<times> string) list"

record 'j socket_envelope =
  env_id :: "string option"
  env_type :: string
  env_payload :: "'j option"

fun sl_intent_fields :: "'j json_ops \<Rightarrow> sl_intent \<Rightarrow> (string \<times> 'j) list" where
  "sl_intent_fields J (SlSendMessage text) = tagged J ''send_message'' [(''text'', j_str J text)]"

definition sl_max_messages :: nat where
  "sl_max_messages = 50"

definition sl_current_snapshot :: "sl_transport \<Rightarrow> sl_snapshot" where
  "sl_current_snapshot t =
     \<lparr>sl_snap_channel_id = sl_channel_id t, sl_snap_channel_name = sl_channel_name t,
      sl_snap_messages = sl_messages t\<rparr>"

definition sl_push_message :: "sl_transport \<Rightarrow> sl_message \<Rightarrow> sl_transport" where
  "sl_push_message t m = t\<lparr>sl_messages := push_bounded sl_max_messages (sl_messages t) m\<rparr>"

definition sl_parse_ts :: "string \<Rightarrow> nat" where
  "sl_parse_ts ts = (case parse_u64 (hd (split_on (CHR ''.'') ts)) of None \<Rightarrow> 0 | Some n \<Rightarrow> n)"

definition sl_ack_text :: "'j json_ops \<Rightarrow> string \<Rightarrow> string" where
  "sl_ack_text J envelope_id = j_text J (j_obj J [(''envelope_id'', j_str J envelope_id)])"

definition sl_ack ::
  "'j json_ops \<Rightarrow> sl_transport \<Rightarrow> string \<Rightarrow> 'we + unit \<Rightarrow> (('he, 'we, 'cj) sl_error + unit) \<times> sl_transport" where
  "sl_ack J t envelope_id outcome =
     (case outcome of
        Inl e \<Rightarrow> (Inl (SlWebSocket e), t)
      | Inr _ \<Rightarrow> (Inr (), t\<lparr>sl_sent := sl_sent t @ [sl_ack_text J envelope_id]\<rparr>))"

subsection \<open>Sending\<close>

definition sl_api_error :: "'j json_ops \<Rightarrow> 'j \<Rightarrow> string" where
  "sl_api_error J resp = j_str_or J ''unknown'' (j_index J resp ''error'')"

definition sl_send ::
  "'j json_ops \<Rightarrow> ((string \<times> string) list \<Rightarrow> string \<Rightarrow> 'j \<Rightarrow> 'he + 'j) \<Rightarrow> ('b \<Rightarrow> 'cj + sl_intent client_wire) \<Rightarrow> sl_transport \<Rightarrow> 'b
    \<Rightarrow> (('he, 'we, 'cj) sl_error + unit) \<times> sl_transport" where
  "sl_send J post dec t data =
     (case dec data of
        Inl e \<Rightarrow> (Inl (SlJson e), t)
      | Inr (Intent (SlSendMessage text)) \<Rightarrow>
          (let url = ''https://slack.com/api/chat.postMessage'';
               body = j_obj J [(''channel'', j_str J (sl_channel_id t)), (''text'', j_str J text)];
               t1 = t\<lparr>sl_http := sl_http t @ [(url, j_text J body)]\<rparr>
           in case post (sl_http t) url body of
                Inl e \<Rightarrow> (Inl (SlHttp e), t1)
              | Inr resp \<Rightarrow> if \<not> j_ok J resp then (Inl (SlApi (sl_api_error J resp)), t1) else (Inr (), t1))
      | Inr _ \<Rightarrow> (Inr (), t))"

subsection \<open>Receiving\<close>

definition sl_fetch_user_name :: "'j json_ops \<Rightarrow> string \<Rightarrow> 'he + 'j \<Rightarrow> ('he, 'we, 'cj) sl_error + string" where
  "sl_fetch_user_name J user_id reply =
     (case reply of
        Inl e \<Rightarrow> Inl (SlHttp e)
      | Inr resp \<Rightarrow>
          if \<not> j_ok J resp then Inl (SlApi (sl_api_error J resp))
          else
            (let real = j_str_or J user_id (j_path J resp [''user'', ''real_name'']) in
             case j_as_str J (j_path J resp [''user'', ''profile'', ''display_name'']) of
               Some s \<Rightarrow> Inr (if s = [] then real else s)
             | None \<Rightarrow> Inr real))"

text \<open>A plain message, as both the history and the event loop build it; \<open>users\<close> answers the look-up.\<close>

definition sl_build_message :: "'j json_ops \<Rightarrow> (string \<Rightarrow> 'he + 'j) \<Rightarrow> 'j \<Rightarrow> sl_message" where
  "sl_build_message J users msg =
     (let ts = j_str_or J ''0'' (j_index J msg ''ts'');
          user_id = j_str_or J [] (j_index J msg ''user'');
          user_name =
            (if user_id \<noteq> [] then
               (case sl_fetch_user_name J user_id (users user_id) :: ('he, unit, unit) sl_error + string of
                  Inl _ \<Rightarrow> user_id | Inr n \<Rightarrow> n)
             else user_id)
      in \<lparr>sl_ts = ts, sl_user_id = user_id, sl_user_name = user_name,
          sl_text = j_str_or J [] (j_index J msg ''text''), sl_timestamp = sl_parse_ts ts\<rparr>)"

definition sl_event_message ::
  "'j json_ops \<Rightarrow> ('j \<Rightarrow> 'j option option) \<Rightarrow> string \<Rightarrow> 'he + 'j \<Rightarrow> 'j socket_envelope \<Rightarrow> sl_message option" where
  "sl_event_message J dec_payload channel_id user_reply env =
     (if env_type env = ''hello'' then None
      else if env_type env \<noteq> ''events_api'' then None
      else
        (case Option.bind (env_payload env) dec_payload of
           Some (Some event) \<Rightarrow>
             if j_str_or J [] (j_index J event ''type'') \<noteq> ''message'' then None
             else if j_str_or J [] (j_index J event ''channel'') \<noteq> channel_id then None
             else if j_get J event ''subtype'' \<noteq> None then None
             else Some (sl_build_message J (\<lambda>_. user_reply) event)
         | _ \<Rightarrow> None))"

datatype ('j, 'he, 'we) sl_item =
    SlText string "'we + unit" "'he + 'j"
  | SlClose
  | SlOtherFrame
  | SlWsErr 'we
  | SlEnd

fun sl_turn ::
  "'j json_ops \<Rightarrow> (string \<Rightarrow> 'j socket_envelope option) \<Rightarrow> ('j \<Rightarrow> 'j option option)
    \<Rightarrow> (('j, sl_snapshot) server_wire \<Rightarrow> 'cj + 'b) \<Rightarrow> sl_transport \<Rightarrow> ('j, 'he, 'we) sl_item
    \<Rightarrow> (('he, 'we, 'cj) sl_error, 'b, sl_transport) turn" where
  "sl_turn J dec_env dec_payload enc t SlEnd = Return Closed t"
| "sl_turn J dec_env dec_payload enc t (SlWsErr e) = Return (Failed (SlWebSocket e)) t"
| "sl_turn J dec_env dec_payload enc t SlClose = Return Closed t"
| "sl_turn J dec_env dec_payload enc t SlOtherFrame = Continue t"
| "sl_turn J dec_env dec_payload enc t (SlText text ack_outcome user_reply) =
     (case dec_env text of
        None \<Rightarrow> Continue t
      | Some env \<Rightarrow>
          (case (case env_id env of None \<Rightarrow> (Inr (), t) | Some eid \<Rightarrow> sl_ack J t eid ack_outcome) of
             (Inl e, t1) \<Rightarrow> Return (Failed e) t1
           | (Inr _, t1) \<Rightarrow>
               (case sl_event_message J dec_payload (sl_channel_id t1) user_reply env of
                  None \<Rightarrow> Continue t1
                | Some m \<Rightarrow>
                    (let t2 = sl_push_message t1 m
                     in Return (emit enc SlJson (Snapshot (sl_seq t2) (sl_current_snapshot t2)))
                          (t2\<lparr>sl_seq := sl_seq t2 + 1\<rparr>)))))"

definition sl_recv ::
  "'j json_ops \<Rightarrow> (string \<Rightarrow> 'j socket_envelope option) \<Rightarrow> ('j \<Rightarrow> 'j option option)
    \<Rightarrow> (('j, sl_snapshot) server_wire \<Rightarrow> 'cj + 'b) \<Rightarrow> sl_transport \<Rightarrow> ('j, 'he, 'we) sl_item list
    \<Rightarrow> (('he, 'we, 'cj) sl_error, 'b) polled \<times> sl_transport \<times> ('j, 'he, 'we) sl_item list" where
  "sl_recv J dec_env dec_payload enc = recv_loop (sl_turn J dec_env dec_payload enc)"

subsection \<open>Connecting\<close>

definition sl_open_socket_mode :: "'j json_ops \<Rightarrow> 'he + 'j \<Rightarrow> ('he, 'we, 'cj) sl_error + string" where
  "sl_open_socket_mode J reply =
     (case reply of
        Inl e \<Rightarrow> Inl (SlHttp e)
      | Inr resp \<Rightarrow>
          if \<not> j_ok J resp then Inl (SlApi (sl_api_error J resp))
          else (case j_as_str J (j_index J resp ''url'') of
                  None \<Rightarrow> Inl (SlApi ''missing url in apps.connections.open response'')
                | Some url \<Rightarrow> Inr url))"

definition sl_fetch_channel_name :: "'j json_ops \<Rightarrow> string \<Rightarrow> 'he + 'j \<Rightarrow> ('he, 'we, 'cj) sl_error + string" where
  "sl_fetch_channel_name J channel_id reply =
     (case reply of
        Inl e \<Rightarrow> Inl (SlHttp e)
      | Inr resp \<Rightarrow>
          if \<not> j_ok J resp then Inr channel_id
          else Inr (j_str_or J channel_id (j_path J resp [''channel'', ''name''])))"

definition sl_history :: "'j json_ops \<Rightarrow> (string \<Rightarrow> 'he + 'j) \<Rightarrow> 'j \<Rightarrow> sl_message list" where
  "sl_history J users resp =
     rev (map (sl_build_message J users)
       (filter (\<lambda>msg. j_get J msg ''subtype'' = None)
         (case j_as_array J (j_index J resp ''messages'') of None \<Rightarrow> [] | Some ms \<Rightarrow> ms)))"

definition sl_fetch_initial_snapshot ::
  "'j json_ops \<Rightarrow> (string \<Rightarrow> 'he + 'j) \<Rightarrow> sl_transport \<Rightarrow> 'he + 'j
    \<Rightarrow> (('he, 'we, 'cj) sl_error + sl_snapshot) \<times> sl_transport" where
  "sl_fetch_initial_snapshot J users t reply =
     (case reply of
        Inl e \<Rightarrow> (Inl (SlHttp e), t)
      | Inr resp \<Rightarrow>
          if \<not> j_ok J resp then (Inl (SlApi (sl_api_error J resp)), t)
          else
            (let t1 = t\<lparr>sl_messages := sl_messages t @ sl_history J users resp\<rparr>
             in (Inr (sl_current_snapshot t1), t1)))"

definition sl_manifest :: "'j json_ops \<Rightarrow> string \<Rightarrow> string \<Rightarrow> 'j manifest" where
  "sl_manifest J channel_id channel_name =
     \<lparr>m_identity = identity_local (''slack:'' @ channel_id), m_name = channel_name, m_substrate = None,
      m_metadata = j_obj J [(''type'', j_str J ''slack''), (''channel_id'', j_str J channel_id)]\<rparr>"

definition sl_connect ::
  "'j json_ops \<Rightarrow> (string \<Rightarrow> 'he + 'j) \<Rightarrow> (string \<Rightarrow> 'we + unit) \<Rightarrow> string \<Rightarrow> string \<Rightarrow> 'he + 'j \<Rightarrow> 'he + 'j \<Rightarrow> 'he + 'j
    \<Rightarrow> ('he, 'we, 'cj) sl_error + (sl_transport, 'j) connection \<times> sl_snapshot" where
  "sl_connect J users connect_ws bot_token channel_id open_reply info_reply history_reply =
     (case sl_open_socket_mode J open_reply of
        Inl e \<Rightarrow> Inl e
      | Inr ws_url \<Rightarrow>
          (case sl_fetch_channel_name J channel_id info_reply of
             Inl e \<Rightarrow> Inl e
           | Inr channel_name \<Rightarrow>
               (case connect_ws ws_url of
                  Inl e \<Rightarrow> Inl (SlWebSocket e)
                | Inr _ \<Rightarrow>
                    (case sl_fetch_initial_snapshot J users
                            \<lparr>sl_sent = [], sl_bot_token = bot_token, sl_channel_id = channel_id,
                             sl_channel_name = channel_name, sl_messages = [], sl_seq = 0, sl_http = []\<rparr> history_reply of
                       (Inl e, _) \<Rightarrow> Inl e
                     | (Inr snapshot, t) \<Rightarrow> Inr (established t (sl_manifest J channel_id channel_name), snapshot)))))"

subsection \<open>The contracts\<close>

text \<open>What an input adds to the history, and what is sent back for it.\<close>

fun sl_accept ::
  "'j json_ops \<Rightarrow> (string \<Rightarrow> 'j socket_envelope option) \<Rightarrow> ('j \<Rightarrow> 'j option option) \<Rightarrow> sl_transport
    \<Rightarrow> ('j, 'he, 'we) sl_item \<Rightarrow> sl_message list" where
  "sl_accept J dec_env dec_payload t (SlText text ack_outcome user_reply) =
     (case dec_env text of
        None \<Rightarrow> []
      | Some env \<Rightarrow>
          if env_id env \<noteq> None \<and> isl ack_outcome then []
          else (case sl_event_message J dec_payload (sl_channel_id t) user_reply env of None \<Rightarrow> [] | Some m \<Rightarrow> [m]))"
| "sl_accept J dec_env dec_payload t _ = []"

fun sl_acks ::
  "'j json_ops \<Rightarrow> (string \<Rightarrow> 'j socket_envelope option) \<Rightarrow> string list \<Rightarrow> ('j, 'he, 'we) sl_item \<Rightarrow> string list" where
  "sl_acks J dec_env sent (SlText text (Inr _) user_reply) =
     (case Option.bind (dec_env text) env_id of None \<Rightarrow> sent | Some eid \<Rightarrow> sent @ [sl_ack_text J eid])"
| "sl_acks J dec_env sent _ = sent"

lemma sl_turn_state:
  "sl_messages (turn_state (sl_turn J dec_env dec_payload enc t x)) =
     fold (\<lambda>m b. push_bounded sl_max_messages b m) (sl_accept J dec_env dec_payload t x) (sl_messages t)"
  "sl_channel_id (turn_state (sl_turn J dec_env dec_payload enc t x)) = sl_channel_id t"
  "sl_sent (turn_state (sl_turn J dec_env dec_payload enc t x)) = sl_acks J dec_env (sl_sent t) x"
proof -
  show "sl_messages (turn_state (sl_turn J dec_env dec_payload enc t x)) =
      fold (\<lambda>m b. push_bounded sl_max_messages b m) (sl_accept J dec_env dec_payload t x) (sl_messages t)"
    by (cases x) (auto simp: sl_ack_def sl_push_message_def Let_def split: option.splits sum.splits)
  show "sl_channel_id (turn_state (sl_turn J dec_env dec_payload enc t x)) = sl_channel_id t"
    by (cases x) (auto simp: sl_ack_def sl_push_message_def Let_def split: option.splits sum.splits)
  show "sl_sent (turn_state (sl_turn J dec_env dec_payload enc t x)) = sl_acks J dec_env (sl_sent t) x"
  proof (cases x)
    case (SlText s outcome reply)
    then show ?thesis
      by (cases outcome) (auto simp: sl_ack_def sl_push_message_def Let_def split: option.splits)
  qed simp_all
qed

lemma sl_accept_cong:
  "sl_channel_id t' = sl_channel_id t \<Longrightarrow> sl_accept J dec_env dec_payload t' = sl_accept J dec_env dec_payload t"
proof (rule ext)
  fix x :: "('a, 'b, 'c) sl_item"
  assume "sl_channel_id t' = sl_channel_id t"
  then show "sl_accept J dec_env dec_payload t' x = sl_accept J dec_env dec_payload t x"
    by (cases x) (simp_all cong: option.case_cong if_cong)
qed

interpretation sl: turn_sequenced "sl_turn J dec_env dec_payload enc" enc sl_seq sl_current_snapshot
proof unfold_locales
  fix t x b t'
  show "sl_turn J dec_env dec_payload enc t x = Return (Frame b) t' \<Longrightarrow>
      enc (Snapshot (sl_seq t' - 1) (sl_current_snapshot t')) = Inr b"
    by (cases x) (auto simp: Let_def sl_current_snapshot_def split: option.splits sum.splits prod.splits)
  show "sl_turn J dec_env dec_payload enc t x = Return (Frame b) t' \<Longrightarrow> sl_seq t' = sl_seq t + 1"
    by (cases x) (auto simp: Let_def sl_ack_def sl_push_message_def split: option.splits sum.splits prod.splits)
  show "sl_turn J dec_env dec_payload enc t x = Continue t' \<Longrightarrow> sl_seq t' = sl_seq t"
    by (cases x) (auto simp: Let_def sl_ack_def split: option.splits sum.splits prod.splits)
qed

interpretation sl_window: window_room sl_messages sl_push_message sl_max_messages
  by unfold_locales (simp add: sl_push_message_def)

interpretation sl_lossless: turn_lossless "sl_turn J dec_env dec_payload enc" sl_messages
    "sl_accept J dec_env dec_payload" sl_max_messages
  by unfold_locales (simp add: sl_turn_state fold_push_bounded, rule sl_accept_cong, rule sl_turn_state)

interpretation sl_replies: turn_folds "sl_turn J dec_env dec_payload enc" sl_sent "sl_acks J dec_env"
  by unfold_locales (rule sl_turn_state)

text \<open>C37: a client that keeps receiving from a Slack channel gets snapshots with consecutive numbers.
  After any number of calls the history is the last fifty of the old messages and the channel's
  plain messages among the inputs that were read; and the web socket carries exactly one
  acknowledgement, in order, for every envelope with an identifier whose acknowledgement could
  be sent, also for those whose event is for another channel or of another kind. An envelope
  whose acknowledgement fails adds no message.\<close>

theorem slack_room_history:
  assumes "recv_run (sl_recv J dec_env dec_payload enc) n t (ins :: ('j, 'he, 'we) sl_item list) = (bs, t', rest)"
    and "round_trips enc dec" and "length (sl_messages t) \<le> sl_max_messages"
  shows "(\<forall>i < length bs. \<exists>s. dec (bs ! i) = Inr (Snapshot (sl_seq t + of_nat i) s)) \<and>
    (\<exists>used. ins = used @ rest \<and>
       sl_messages t' = last_n sl_max_messages (sl_messages t @ concat (map (sl_accept J dec_env dec_payload t) used)) \<and>
       sl_sent t' = foldl (sl_acks J dec_env) (sl_sent t) used)"
proof -
  note run = assms(1) [unfolded sl_recv_def]
  obtain u where u: "ins = u @ rest"
      "sl_messages t' = last_n sl_max_messages (sl_messages t @ concat (map (sl_accept J dec_env dec_payload t) u))"
    using sl_lossless.run_window [OF run assms(3)] by blast
  obtain v where v: "ins = v @ rest" "sl_sent t' = foldl (sl_acks J dec_env) (sl_sent t) v"
    using sl_replies.run_folds [OF run] by blast
  from u v have "sl_sent t' = foldl (sl_acks J dec_env) (sl_sent t) u" by simp
  with u sl.run_numbers_decoded [OF run assms(2)] show ?thesis by blast
qed

definition demo_slack :: sl_transport where
  "demo_slack = \<lparr>sl_sent = [], sl_bot_token = [], sl_channel_id = ''C1'', sl_channel_name = [], sl_messages = [], sl_seq = 7, sl_http = []\<rparr>"

definition demo_envelope :: "string \<Rightarrow> json socket_envelope option" where
  "demo_envelope text = Some \<lparr>env_id = Some text, env_type = ''events_api'',
     env_payload = Some (JObj [(''type'', JStr ''message''), (''channel'', JStr text), (''text'', JStr ''hi'')])\<rparr>"

theorem slack_room_history_witness:
  "\<exists>bs t'. recv_run (sl_recv value_json demo_envelope (\<lambda>p. Some (Some p)) (Inr :: (json, sl_snapshot) server_wire \<Rightarrow> unit + (json, sl_snapshot) server_wire)) 1
      demo_slack [SlText ''C0'' (Inr ()) (Inl ()), SlText ''C1'' (Inr ()) (Inl ()) :: (json, unit, unit) sl_item] = (bs, t', []) \<and>
     map sl_text (sl_messages t') = [''hi''] \<and> sl_sent t' = [sl_ack_text value_json ''C0'', sl_ack_text value_json ''C1'']"
proof -
  let ?recv = "sl_recv value_json demo_envelope (\<lambda>p. Some (Some p)) (Inr :: (json, sl_snapshot) server_wire \<Rightarrow> unit + (json, sl_snapshot) server_wire)"
  let ?ins = "[SlText ''C0'' (Inr ()) (Inl ()), SlText ''C1'' (Inr ()) (Inl ()) :: (json, unit, unit) sl_item]"
  note ev = sl_event_message_def demo_envelope_def j_str_or_def j_index_def
  obtain bs t' where run: "recv_run ?recv 1 demo_slack ?ins = (bs, t', [])"
    by (simp add: sl_recv_def demo_slack_def ev emit_def sl_ack_def sl_push_message_def sl_current_snapshot_def Let_def)
  have rt: "round_trips (Inr :: (json, sl_snapshot) server_wire \<Rightarrow> unit + (json, sl_snapshot) server_wire) Inr"
    and cap: "length (sl_messages demo_slack) \<le> sl_max_messages"
    by (simp_all add: round_trips_def demo_slack_def)
  obtain used where "?ins = used @ []"
    and "sl_messages t' = last_n sl_max_messages (sl_messages demo_slack @
        concat (map (sl_accept value_json demo_envelope (\<lambda>p. Some (Some p)) demo_slack) used))"
    and "sl_sent t' = foldl (sl_acks value_json demo_envelope) (sl_sent demo_slack) used"
    using slack_room_history [OF run rt cap] by blast
  then have m: "map sl_text (sl_messages t') = [''hi'']"
    and s: "sl_sent t' = [sl_ack_text value_json ''C0'', sl_ack_text value_json ''C1'']"
    by (auto simp: demo_slack_def ev last_n_all sl_max_messages_def sl_build_message_def Let_def)
  show ?thesis by (rule exI [of _ bs], rule exI [of _ t']) (intro conjI run m s)
qed

end
