(* ===== verification/Whatsapp.thy ===== *)
theory Whatsapp
  imports Room
begin

section \<open>The WhatsApp connector\<close>

text \<open>
  \<^verbatim>\<open>crates/connectors/interconnect-connector-whatsapp/src\<close>: messages go out through the Cloud
  API, receiving is a stub that reports the end of the connection at once. The theory also
  runs the daemon's room task on this connector. The field
  \<open>wa_http\<close>, the HTTP client of the transport, holds the requests that sending made through it.
\<close>

record wa_message =
  wa_id :: string
  wa_from :: string
  wa_text :: string
  wa_timestamp :: nat

record wa_snapshot =
  wa_snap_phone_number_id :: string
  wa_snap_recipient :: string
  wa_snap_messages :: "wa_message list"

datatype wa_intent = WaSendMessage string

datatype ('he, 'cj) wa_error = WaHttp 'he | WaJson 'cj | WaApi string

record wa_transport =
  wa_phone_number_id :: string
  wa_access_token :: string
  wa_recipient :: string
  wa_snapshot_of :: wa_snapshot
  wa_seq :: u64
  wa_http :: "(string \<times> string) list"

fun wa_intent_fields :: "'j json_ops \<Rightarrow> wa_intent \<Rightarrow> (string \<times> 'j) list" where
  "wa_intent_fields J (WaSendMessage text) = tagged J ''send_message'' [(''text'', j_str J text)]"

definition wa_current_snapshot :: "wa_transport \<Rightarrow> wa_snapshot" where
  "wa_current_snapshot t = wa_snapshot_of t"

definition wa_api_error :: "'j json_ops \<Rightarrow> 'j \<Rightarrow> string" where
  "wa_api_error J err = j_str_or J ''unknown api error'' (j_index J err ''message'')"

definition wa_body :: "'j json_ops \<Rightarrow> string \<Rightarrow> string \<Rightarrow> 'j" where
  "wa_body J recipient text =
     j_obj J [(''messaging_product'', j_str J ''whatsapp''), (''to'', j_str J recipient), (''type'', j_str J ''text''),
       (''text'', j_obj J [(''body'', j_str J text)])]"

definition wa_send ::
  "'j json_ops \<Rightarrow> ((string \<times> string) list \<Rightarrow> string \<Rightarrow> 'j \<Rightarrow> 'he + 'j) \<Rightarrow> ('b \<Rightarrow> 'cj + wa_intent client_wire) \<Rightarrow> wa_transport \<Rightarrow> 'b
    \<Rightarrow> (('he, 'cj) wa_error + unit) \<times> wa_transport" where
  "wa_send J post dec t data =
     (case dec data of
        Inl e \<Rightarrow> (Inl (WaJson e), t)
      | Inr (Intent (WaSendMessage text)) \<Rightarrow>
          (let url = ''https://graph.facebook.com/v18.0/'' @ wa_phone_number_id t @ ''/messages'';
               body = wa_body J (wa_recipient t) text;
               t1 = t\<lparr>wa_http := wa_http t @ [(url, j_text J body)]\<rparr>
           in case post (wa_http t) url body of
                Inl e \<Rightarrow> (Inl (WaHttp e), t1)
              | Inr resp \<Rightarrow>
                  (case j_get J resp ''error'' of
                     Some errors \<Rightarrow> (Inl (WaApi (wa_api_error J errors)), t1)
                   | None \<Rightarrow> (Inr (), t1)))
      | Inr _ \<Rightarrow> (Inr (), t))"

definition wa_recv ::
  "wa_transport \<Rightarrow> unit list \<Rightarrow> (('he, 'cj) wa_error, 'b) polled \<times> wa_transport \<times> unit list" where
  "wa_recv t ins = (Closed, t, ins)"

definition wa_fetch_display_name :: "'j json_ops \<Rightarrow> string \<Rightarrow> 'he + 'j \<Rightarrow> ('he, 'cj) wa_error + string" where
  "wa_fetch_display_name J phone_number_id reply =
     (case reply of
        Inl e \<Rightarrow> Inl (WaHttp e)
      | Inr resp \<Rightarrow>
          (case j_get J resp ''error'' of
             Some err \<Rightarrow> Inl (WaApi (wa_api_error J err))
           | None \<Rightarrow>
               Inr (case j_as_str J (j_index J resp ''verified_name'') of
                      Some name \<Rightarrow> name
                    | None \<Rightarrow> j_str_or J phone_number_id (j_index J resp ''display_phone_number''))))"

definition wa_manifest :: "'j json_ops \<Rightarrow> string \<Rightarrow> string \<Rightarrow> string \<Rightarrow> 'j manifest" where
  "wa_manifest J phone_number_id recipient display_name =
     \<lparr>m_identity = identity_local (''whatsapp:'' @ phone_number_id @ '':'' @ recipient), m_name = display_name,
      m_substrate = None,
      m_metadata = j_obj J [(''type'', j_str J ''whatsapp''), (''phone_number_id'', j_str J phone_number_id),
        (''recipient'', j_str J recipient)]\<rparr>"

definition wa_connect ::
  "'j json_ops \<Rightarrow> string \<Rightarrow> string \<Rightarrow> string \<Rightarrow> 'he + 'j
    \<Rightarrow> ('he, 'cj) wa_error + (wa_transport, 'j) connection \<times> wa_snapshot" where
  "wa_connect J phone_number_id access_token recipient name_reply =
     (case wa_fetch_display_name J phone_number_id name_reply of
        Inl e \<Rightarrow> Inl e
      | Inr display_name \<Rightarrow>
          (let s = \<lparr>wa_snap_phone_number_id = phone_number_id, wa_snap_recipient = recipient, wa_snap_messages = []\<rparr>
           in Inr (established
                \<lparr>wa_phone_number_id = phone_number_id, wa_access_token = access_token, wa_recipient = recipient,
                 wa_snapshot_of = s, wa_seq = 0, wa_http = []\<rparr>
                (wa_manifest J phone_number_id recipient display_name), s)))"

subsection \<open>A WhatsApp room in the daemon\<close>

definition wa_ops ::
  "'j json_ops \<Rightarrow> ((string \<times> string) list \<Rightarrow> string \<Rightarrow> 'j \<Rightarrow> 'he + 'j) \<Rightarrow> ('b \<Rightarrow> 'cj + wa_intent client_wire)
    \<Rightarrow> (wa_transport, unit, ('he, 'cj) wa_error, 'b) transport_ops" where
  "wa_ops J post dec = \<lparr>t_send = wa_send J post dec, t_recv = wa_recv\<rparr>"

lemma wa_step:
  assumes "re_transport R = wa_ops J post dec" and "room_step R x s = Some s'" and "rt_running s"
  shows "rt_pushed s' = rt_pushed s \<and> (rt_running s' \<longleftrightarrow> (\<exists>payload. x = SelIntent payload))"
  using assms by (cases x) (auto simp: conn_recv_def wa_ops_def wa_recv_def split: option.splits)

lemma wa_run:
  assumes "re_transport R = wa_ops J post dec"
  shows "room_run R xs s = Some s' \<Longrightarrow> rt_running s \<Longrightarrow>
    rt_pushed s' = rt_pushed s \<and> (rt_running s' \<longleftrightarrow> (\<forall>x \<in> set xs. \<exists>payload. x = SelIntent payload))"
proof (induction xs arbitrary: s)
  case (Cons x xs)
  then obtain s1 where s1: "room_step R x s = Some s1" "room_run R xs s1 = Some s'"
    by (auto split: option.splits)
  note step = wa_step [OF assms s1(1) Cons.prems(2)]
  show ?case
  proof (cases "rt_running s1")
    case True
    with Cons.IH [OF s1(2)] step show ?thesis by auto
  next
    case False
    with s1(2) have "xs = []" by (cases xs) (simp_all add: room_step_stopped)
    with s1(2) step False show ?thesis by simp
  qed
qed simp

text \<open>A WhatsApp room of the daemon pushes nothing but its first snapshot, which has no messages,
  whatever turns its task takes. The task runs as long as all its turns were intents; a receive
  turn is always possible and ends it, and with it every later intent. The daemon keeps
  answering sends to the room with success all the same: it only looks at the handle.\<close>

lemma whatsapp_room_stops:
  assumes "wa_connect J phone token recipient reply = (Inr (c, s) :: ('he, 'cj) wa_error + _)"
    and "re_transport R = (wa_ops J post dec :: (_, _, ('he, 'cj) wa_error, _) transport_ops)"
    and "room_run R xs (room_task_start c first ins) = Some s'"
  shows "wa_snap_messages s = [] \<and> rt_pushed s' = [first] \<and>
    (rt_running s' \<longleftrightarrow> (\<forall>x \<in> set xs. \<exists>payload. x = SelIntent payload)) \<and>
    (rt_running s' \<longrightarrow> (\<exists>s''. room_step R SelRecv s' = Some s'' \<and> \<not> rt_running s'')) \<and>
    (map_of rooms room = Some r \<and> rs_handle r = Some h \<longrightarrow>
       (\<exists>rooms'. dispatch E (ReqSend room intent) rooms = Done (Reply response_sent, rooms')))"
proof -
  have "wa_snap_messages s = []"
    using assms(1) by (auto simp: wa_connect_def Let_def split: sum.splits)
  moreover have "rt_pushed s' = [first] \<and> (rt_running s' \<longleftrightarrow> (\<forall>x \<in> set xs. \<exists>payload. x = SelIntent payload))"
    using wa_run [OF assms(2,3)] by (simp add: room_task_start_def)
  moreover have "rt_running s' \<longrightarrow> (\<exists>s''. room_step R SelRecv s' = Some s'' \<and> \<not> rt_running s'')"
    by (simp add: conn_recv_def assms(2) wa_ops_def wa_recv_def)
  ultimately show ?thesis by simp
qed

definition demo_wa_env ::
  "(wa_transport, unit, (unit, unit) wa_error, unit, unit, unit, (unit, unit) wa_error, json, wa_snapshot, wa_intent) room_env" where
  "demo_wa_env =
     \<lparr>re_transport = wa_ops value_json (\<lambda>_ _ _. Inr JNull) (\<lambda>_. Inr (Intent (WaSendMessage []))), re_into = Other,
      re_enc = (\<lambda>_. Inr ()), re_dec = (\<lambda>_. Inr Pong), re_to_value = (\<lambda>_. None), re_from_value = (\<lambda>_. None),
      re_null = JNull\<rparr>"

lemma whatsapp_room_stops_witness:
  "\<exists>c s s'. wa_connect value_json ''1'' [] ''2'' (Inr JNull) = (Inr (c, s) :: (unit, unit) wa_error + _) \<and>
     room_run demo_wa_env [SelIntent JNull, SelRecv] (room_task_start c JNull []) = Some s' \<and>
     rt_pushed s' = [JNull] \<and> \<not> rt_running s'"
proof -
  obtain c s where c: "wa_connect value_json ''1'' [] ''2'' (Inr JNull) = (Inr (c, s) :: (unit, unit) wa_error + _)"
    by (simp add: wa_connect_def wa_fetch_display_name_def Let_def)
  have env: "re_transport demo_wa_env = wa_ops value_json (\<lambda>_ _ _. Inr JNull) (\<lambda>_. Inr (Intent (WaSendMessage [])))"
    "re_from_value demo_wa_env JNull = None"
    by (simp_all add: demo_wa_env_def)
  obtain s' where run: "room_run demo_wa_env [SelIntent JNull, SelRecv] (room_task_start c JNull []) = Some s'"
    by (simp add: room_task_start_def env conn_recv_def) (simp add: wa_ops_def wa_recv_def)
  note w = whatsapp_room_stops [OF c env(1) run]
  have "rt_pushed s' = [JNull]"
    by (rule conjunct1 [OF conjunct2 [OF w]])
  moreover have "\<not> rt_running s'"
    unfolding conjunct1 [OF conjunct2 [OF conjunct2 [OF w]]] by simp
  ultimately show ?thesis using c run by (intro exI conjI)
qed

end
