(* ===== verification/Fs.thy ===== *)
theory Fs
  imports Client "HOL-Library.Multiset"
begin

section \<open>The file system connector\<close>

text \<open>
  \<^verbatim>\<open>crates/connectors/interconnect-connector-fs/src\<close>: a directory as a room. The walk over the
  directory is done by a library; the list of its entries, with what the operating system says
  of each, is an input, as are the change events. Writing and deleting are operations on an
  abstract file system. Paths are given to the operating system as strings; \<open>components\<close> and
  \<open>path_join\<close> are those of the standard library on Unix.
\<close>

record fs_file =
  fs_path :: string
  fs_content :: string
  fs_modified :: nat
  fs_size :: nat

record fs_snapshot =
  fs_snap_root :: string
  fs_snap_files :: "fs_file list"

datatype fs_intent = FsWriteFile string string | FsDeleteFile string

datatype ('io, 'ne, 'cj, 'te) fs_error = FsIo 'io | FsWatch 'ne | FsJson 'cj | FsJoin 'te

record fs_transport =
  fs_root :: string
  fs_seq :: u64

fun fs_intent_fields :: "'j json_ops \<Rightarrow> fs_intent \<Rightarrow> (string \<times> 'j) list" where
  "fs_intent_fields J (FsWriteFile path content) =
     tagged J ''write_file'' [(''path'', j_str J path), (''content'', j_str J content)]"
| "fs_intent_fields J (FsDeleteFile path) = tagged J ''delete_file'' [(''path'', j_str J path)]"

definition max_file_size :: nat where
  "max_file_size = 1048576"

definition max_depth :: nat where
  "max_depth = 5"

subsection \<open>Paths\<close>

datatype component = RootDir | CurDir | ParentDir | Normal string

text \<open>\<^verbatim>\<open>Path::components\<close>: repeated separators and all but a leading \<^verbatim>\<open>.\<close> disappear.\<close>

definition component_of :: "string \<Rightarrow> component option" where
  "component_of s =
     (if s = [] \<or> s = ''.'' then None else if s = ''..'' then Some ParentDir else Some (Normal s))"

definition absolute :: "string \<Rightarrow> bool" where
  "absolute p \<longleftrightarrow> take 1 p = ''/''"

definition components :: "string \<Rightarrow> component list" where
  "components p =
     (if absolute p then [RootDir] else if hd (split_on (CHR ''/'') p) = ''.'' then [CurDir] else []) @
     List.map_filter component_of (split_on (CHR ''/'') p)"

definition path_join :: "string \<Rightarrow> string \<Rightarrow> string" where
  "path_join root p =
     (if absolute p then p
      else if root = [] \<or> last root = CHR ''/'' then root @ p
      else root @ ''/'' @ p)"

text \<open>\<^verbatim>\<open>Path::parent\<close>, \<^verbatim>\<open>Path::file_name\<close>.\<close>

definition path_parent :: "string \<Rightarrow> component list option" where
  "path_parent p =
     (let cs = components p in if cs = [] \<or> last cs = RootDir then None else Some (butlast cs))"

definition path_file_name :: "string \<Rightarrow> string option" where
  "path_file_name p =
     (let cs = components p in if cs = [] then None else case last cs of Normal s \<Rightarrow> Some s | _ \<Rightarrow> None)"

subsection \<open>The snapshot of the directory\<close>

text \<open>An entry of the walk: its path relative to the root unless stripping the root fails, whether it
  is a regular file, its metadata and its content as text, when they could be read.\<close>

record fs_entry =
  fe_is_file :: bool
  fe_rel :: "string list option"
  fe_metadata :: "(nat \<times> nat option) option"
  fe_text :: "string option"

definition hidden :: "(string \<Rightarrow> string) \<Rightarrow> string list \<Rightarrow> bool" where
  "hidden lossy rel \<longleftrightarrow> list_ex (\<lambda>c. starts_with ''.'' (lossy c)) rel"

definition fs_collect :: "(string \<Rightarrow> string) \<Rightarrow> fs_entry \<Rightarrow> fs_file option" where
  "fs_collect lossy e =
     (if \<not> fe_is_file e then None
      else (case fe_rel e of
              None \<Rightarrow> None
            | Some rel \<Rightarrow>
                if hidden lossy rel then None
                else (case fe_metadata e of
                        None \<Rightarrow> None
                      | Some (sz, modified) \<Rightarrow>
                          if sz > max_file_size then None
                          else (case fe_text e of
                                  None \<Rightarrow> None
                                | Some content \<Rightarrow>
                                    Some \<lparr>fs_path = lossy (join ''/'' rel), fs_content = content,
                                          fs_modified = (case modified of None \<Rightarrow> 0 | Some m \<Rightarrow> m),
                                          fs_size = sz\<rparr>))))"

text \<open>The errors of the walk are filtered out before anything else.\<close>

definition read_directory :: "(string \<Rightarrow> string) \<Rightarrow> ('we + fs_entry) list \<Rightarrow> fs_file list" where
  "read_directory lossy walked =
     sort_key fs_path
       (List.map_filter (\<lambda>r. case r of Inl _ \<Rightarrow> None | Inr e \<Rightarrow> fs_collect lossy e) walked)"

definition fs_read_snapshot ::
  "(string \<Rightarrow> string) \<Rightarrow> fs_transport \<Rightarrow> 'te + ('we + fs_entry) list
    \<Rightarrow> ('io, 'ne, 'cj, 'te) fs_error + fs_snapshot" where
  "fs_read_snapshot lossy t walked =
     (case walked of
        Inl e \<Rightarrow> Inl (FsJoin e)
      | Inr es \<Rightarrow> Inr \<lparr>fs_snap_root = lossy (fs_root t), fs_snap_files = read_directory lossy es\<rparr>)"

subsection \<open>Sending\<close>

record ('fs, 'io) file_ops =
  create_dir_all :: "component list \<Rightarrow> 'fs \<Rightarrow> ('io + unit) \<times> 'fs"
  write_file :: "string \<Rightarrow> string \<Rightarrow> 'fs \<Rightarrow> ('io + unit) \<times> 'fs"
  remove_file :: "string \<Rightarrow> 'fs \<Rightarrow> ('io + unit) \<times> 'fs"

definition fs_write ::
  "('fs, 'io) file_ops \<Rightarrow> string \<Rightarrow> string \<Rightarrow> 'fs \<Rightarrow> ('io + unit) \<times> 'fs" where
  "fs_write F full content fs =
     (case (case path_parent full of None \<Rightarrow> (Inr (), fs) | Some parent \<Rightarrow> create_dir_all F parent fs) of
        (Inl e, fs1) \<Rightarrow> (Inl e, fs1)
      | (Inr _, fs1) \<Rightarrow> write_file F full content fs1)"

definition fs_send ::
  "('fs, 'io) file_ops \<Rightarrow> ('b \<Rightarrow> 'cj + fs_intent client_wire) \<Rightarrow> fs_transport \<Rightarrow> 'fs \<Rightarrow> 'b
    \<Rightarrow> (('io, 'ne, 'cj, 'te) fs_error + unit) \<times> 'fs" where
  "fs_send F dec t fs data =
     (case dec data of
        Inl e \<Rightarrow> (Inl (FsJson e), fs)
      | Inr (Intent (FsWriteFile path content)) \<Rightarrow>
          (case fs_write F (path_join (fs_root t) path) content fs of
             (Inl e, fs1) \<Rightarrow> (Inl (FsIo e), fs1)
           | (Inr u, fs1) \<Rightarrow> (Inr u, fs1))
      | Inr (Intent (FsDeleteFile path)) \<Rightarrow>
          (case remove_file F (path_join (fs_root t) path) fs of
             (Inl e, fs1) \<Rightarrow> (Inl (FsIo e), fs1)
           | (Inr u, fs1) \<Rightarrow> (Inr u, fs1))
      | Inr _ \<Rightarrow> (Inr (), fs))"

subsection \<open>Receiving\<close>

datatype event_kind = EvCreate | EvModify | EvRemove | EvAccess | EvOther | EvAny

text \<open>An event comes with the walk that reading the directory would do after it.\<close>

datatype ('te, 'we) fs_item = FsEvent event_kind "'te + ('we + fs_entry) list" | FsWatcherGone

definition relevant :: "event_kind \<Rightarrow> bool" where
  "relevant k \<longleftrightarrow> k = EvCreate \<or> k = EvModify \<or> k = EvRemove"

fun fs_turn ::
  "(string \<Rightarrow> string) \<Rightarrow> (('j, fs_snapshot) server_wire \<Rightarrow> 'cj + 'b) \<Rightarrow> fs_transport \<Rightarrow> ('te, 'we) fs_item
    \<Rightarrow> (('io, 'ne, 'cj, 'te) fs_error, 'b, fs_transport) turn" where
  "fs_turn lossy enc t FsWatcherGone = Return Closed t"
| "fs_turn lossy enc t (FsEvent kind walked) =
     (if \<not> relevant kind then Continue t
      else (case fs_read_snapshot lossy t walked of
              Inl e \<Rightarrow> Return (Failed e) t
            | Inr snapshot \<Rightarrow>
                Return (emit enc FsJson (Snapshot (fs_seq t) snapshot)) (t\<lparr>fs_seq := fs_seq t + 1\<rparr>)))"

definition fs_recv ::
  "(string \<Rightarrow> string) \<Rightarrow> (('j, fs_snapshot) server_wire \<Rightarrow> 'cj + 'b) \<Rightarrow> fs_transport \<Rightarrow> ('te, 'we) fs_item list
    \<Rightarrow> (('io, 'ne, 'cj, 'te) fs_error, 'b) polled \<times> fs_transport \<times> ('te, 'we) fs_item list" where
  "fs_recv lossy enc = recv_loop (fs_turn lossy enc)"

subsection \<open>Connecting\<close>

definition fs_new :: "'ne + unit \<Rightarrow> string \<Rightarrow> ('io, 'ne, 'cj, 'te) fs_error + fs_transport" where
  "fs_new watch root = (case watch of Inl e \<Rightarrow> Inl (FsWatch e) | Inr _ \<Rightarrow> Inr \<lparr>fs_root = root, fs_seq = 0\<rparr>)"

definition fs_manifest :: "'j json_ops \<Rightarrow> (string \<Rightarrow> string) \<Rightarrow> string \<Rightarrow> 'j manifest" where
  "fs_manifest J lossy root =
     \<lparr>m_identity = identity_local (''fs:'' @ lossy root),
      m_name = (case path_file_name root of None \<Rightarrow> lossy root | Some n \<Rightarrow> lossy n), m_substrate = None,
      m_metadata = j_obj J [(''type'', j_str J ''fs''), (''root'', j_str J root)]\<rparr>"

definition fs_connect ::
  "'j json_ops \<Rightarrow> (string \<Rightarrow> string) \<Rightarrow> (string \<Rightarrow> 'io + string) \<Rightarrow> (string \<Rightarrow> 'ne + unit)
    \<Rightarrow> (string \<Rightarrow> 'te + ('we + fs_entry) list) \<Rightarrow> string
    \<Rightarrow> ('io, 'ne, 'cj, 'te) fs_error + (fs_transport, 'j) connection \<times> fs_snapshot" where
  "fs_connect J lossy canonicalize watch walk path =
     (case canonicalize path of
        Inl e \<Rightarrow> Inl (FsIo e)
      | Inr root \<Rightarrow>
          (case fs_new (watch root) root of
             Inl e \<Rightarrow> Inl e
           | Inr t \<Rightarrow>
               (case fs_read_snapshot lossy t (walk root) of
                  Inl e \<Rightarrow> Inl e
                | Inr snapshot \<Rightarrow> Inr (established t (fs_manifest J lossy root), snapshot))))"

subsection \<open>What a snapshot holds\<close>

definition listable :: "(string \<Rightarrow> string) \<Rightarrow> fs_entry \<Rightarrow> bool" where
  "listable lossy e \<longleftrightarrow>
     fe_is_file e \<and> (\<exists>rel. fe_rel e = Some rel \<and> \<not> hidden lossy rel) \<and>
     (\<exists>sz m. fe_metadata e = Some (sz, m) \<and> sz \<le> max_file_size) \<and> fe_text e \<noteq> None"

lemma fs_collect_iff: "fs_collect lossy e \<noteq> None \<longleftrightarrow> listable lossy e"
  by (auto simp: fs_collect_def listable_def split: option.splits if_splits)

lemma fs_collect_Some:
  "fs_collect lossy e = Some f \<Longrightarrow>
     fs_size f \<le> max_file_size \<and> fe_text e = Some (fs_content f) \<and>
     (\<exists>rel. fe_rel e = Some rel \<and> \<not> hidden lossy rel \<and> fs_path f = lossy (join ''/'' rel))"
  by (auto simp: fs_collect_def split: option.splits if_splits)

lemma map_filter_set: "set (List.map_filter g xs) = {y. \<exists>x \<in> set xs. g x = Some y}"
  by (induction xs) (auto simp: List.map_filter_simps split: option.splits)

lemma map_filter_length: "length (List.map_filter g xs) = length (filter (\<lambda>x. g x \<noteq> None) xs)"
  by (induction xs) (auto simp: List.map_filter_simps split: option.splits)

text \<open>C28: a frame that a file system room sends when the directory was walked has the number of the
  transport's counter and the directory's files: sorted by path, exactly one for every regular
  file that the walk found, whose path under the root has no hidden component, which has at
  most one mebibyte and is readable text. When the walk respects the depth it was given, every
  path has at most five components.\<close>

theorem fs_snapshot_contents:
  assumes "fs_turn lossy enc t (FsEvent kind (Inr walked)) = Return (Frame b) t'" and "round_trips enc dec"
    and "\<forall>e. Inr e \<in> set walked \<longrightarrow> (\<forall>rel. fe_rel e = Some rel \<longrightarrow> length rel \<le> max_depth)"
  shows "\<exists>s. dec b = Inr (Snapshot (fs_seq t) s) \<and> fs_seq t' = fs_seq t + 1 \<and> relevant kind \<and>
    sorted (map fs_path (fs_snap_files s)) \<and>
    mset (fs_snap_files s) = mset (List.map_filter (fs_collect lossy) (List.map_filter (case_sum (\<lambda>_. None) Some) walked)) \<and>
    length (fs_snap_files s) = length (filter (\<lambda>r. case r of Inl _ \<Rightarrow> False | Inr e \<Rightarrow> listable lossy e) walked) \<and>
    (\<forall>f \<in> set (fs_snap_files s). fs_size f \<le> max_file_size \<and>
       (\<exists>rel. fs_path f = lossy (join ''/'' rel) \<and> \<not> hidden lossy rel \<and> length rel \<le> max_depth))"
proof -
  let ?g = "\<lambda>r. case r of Inl _ \<Rightarrow> None | Inr e \<Rightarrow> fs_collect lossy e"
  define s where "s = \<lparr>fs_snap_root = lossy (fs_root t), fs_snap_files = read_directory lossy walked\<rparr>"
  have turn: "relevant kind" "enc (Snapshot (fs_seq t) s) = Inr b" "fs_seq t' = fs_seq t + 1"
    using assms(1) by (auto simp: fs_read_snapshot_def s_def split: if_splits)
  have "List.map_filter ?g walked = List.map_filter (fs_collect lossy) (List.map_filter (case_sum (\<lambda>_. None) Some) walked)"
    by (induction walked) (auto simp: List.map_filter_simps split: sum.splits option.splits)
  then have m: "mset (fs_snap_files s) = mset (List.map_filter (fs_collect lossy) (List.map_filter (case_sum (\<lambda>_. None) Some) walked))"
    by (simp add: s_def read_directory_def)
  have "filter (\<lambda>r. ?g r \<noteq> None) walked = filter (\<lambda>r. case r of Inl _ \<Rightarrow> False | Inr e \<Rightarrow> listable lossy e) walked"
    by (rule filter_cong) (auto simp: fs_collect_iff [symmetric] split: sum.splits)
  then have l: "length (fs_snap_files s) = length (filter (\<lambda>r. case r of Inl _ \<Rightarrow> False | Inr e \<Rightarrow> listable lossy e) walked)"
    by (simp add: s_def read_directory_def map_filter_length)
  have "\<forall>f \<in> set (fs_snap_files s). fs_size f \<le> max_file_size \<and>
       (\<exists>rel. fs_path f = lossy (join ''/'' rel) \<and> \<not> hidden lossy rel \<and> length rel \<le> max_depth)"
  proof
    fix f
    assume "f \<in> set (fs_snap_files s)"
    then obtain r where "r \<in> set walked" "?g r = Some f"
      by (auto simp: s_def read_directory_def map_filter_set)
    then obtain e where e: "Inr e \<in> set walked" "fs_collect lossy e = Some f"
      by (cases r rule: sum.exhaust) auto
    with fs_collect_Some [OF e(2)] assms(3)
    show "fs_size f \<le> max_file_size \<and> (\<exists>rel. fs_path f = lossy (join ''/'' rel) \<and> \<not> hidden lossy rel \<and> length rel \<le> max_depth)"
      by blast
  qed
  with turn m l round_tripsD [OF assms(2) turn(2)] show ?thesis
    by (intro exI [of _ s]) (simp add: s_def read_directory_def)
qed

definition demo_entry :: "string list \<Rightarrow> nat \<Rightarrow> fs_entry" where
  "demo_entry rel sz = \<lparr>fe_is_file = True, fe_rel = Some rel, fe_metadata = Some (sz, None), fe_text = Some ''x''\<rparr>"

theorem fs_snapshot_contents_witness:
  "\<exists>b t'. fs_turn id (Inr :: (json, fs_snapshot) server_wire \<Rightarrow> unit + (json, fs_snapshot) server_wire) \<lparr>fs_root = ''/r'', fs_seq = 3\<rparr>
      (FsEvent EvCreate (Inr [Inr (demo_entry [''b''] 1), Inl (), Inr (demo_entry [''.git'', ''a''] 1), Inr (demo_entry [''a'', ''c''] 2)])
        :: (unit, unit) fs_item) = (Return (Frame b) t' :: ((unit, unit, unit, unit) fs_error, _, _) turn) \<and>
    (\<exists>s. b = Snapshot 3 s \<and> length (fs_snap_files s) = 2 \<and> sorted (map fs_path (fs_snap_files s)))"
proof -
  let ?enc = "Inr :: (json, fs_snapshot) server_wire \<Rightarrow> unit + (json, fs_snapshot) server_wire"
  let ?walked = "[Inr (demo_entry [''b''] 1), Inl (), Inr (demo_entry [''.git'', ''a''] 1), Inr (demo_entry [''a'', ''c''] 2)] :: (unit + fs_entry) list"
  obtain b t' where turn: "fs_turn id ?enc \<lparr>fs_root = ''/r'', fs_seq = 3\<rparr> (FsEvent EvCreate (Inr ?walked) :: (unit, unit) fs_item) =
      (Return (Frame b) t' :: ((unit, unit, unit, unit) fs_error, _, _) turn)"
    by (simp add: relevant_def fs_read_snapshot_def emit_def)
  have rt: "round_trips ?enc Inr" by (simp add: round_trips_def)
  have walk: "\<forall>e. Inr e \<in> set ?walked \<longrightarrow> (\<forall>rel. fe_rel e = Some rel \<longrightarrow> length rel \<le> max_depth)"
    by (auto simp: demo_entry_def max_depth_def)
  have "length (filter (\<lambda>r. case r of Inl _ \<Rightarrow> False | Inr e \<Rightarrow> listable id e) ?walked) = 2"
    by (simp add: listable_def demo_entry_def hidden_def starts_with_def max_file_size_def)
  with fs_snapshot_contents [OF turn rt walk] turn show ?thesis by auto
qed

subsection \<open>Where a file is written\<close>

text \<open>The directories and the file that a path means to the operating system, without symbolic
  links: \<^verbatim>\<open>..\<close> goes up, at the top it stays.\<close>

fun resolve :: "string list \<Rightarrow> component list \<Rightarrow> string list" where
  "resolve at [] = at"
| "resolve at (RootDir # cs) = resolve [] cs"
| "resolve at (CurDir # cs) = resolve at cs"
| "resolve at (ParentDir # cs) = resolve (butlast at) cs"
| "resolve at (Normal s # cs) = resolve (at @ [s]) cs"

definition place :: "string \<Rightarrow> string list" where
  "place p = resolve [] (components p)"

lemma resolve_append: "resolve at (xs @ ys) = resolve (resolve at xs) ys"
  by (induction at xs rule: resolve.induct) auto

definition steps :: "string \<Rightarrow> component list" where
  "steps p = List.map_filter component_of (split_on (CHR ''/'') p)"

lemma map_filter_append: "List.map_filter g (xs @ ys) = List.map_filter g xs @ List.map_filter g ys"
  by (induction xs) (auto simp: List.map_filter_simps split: option.splits)

lemma steps_join: "steps (a @ CHR ''/'' # b) = steps a @ steps b"
  by (simp add: steps_def split_on_join map_filter_append)

lemma components_absolute: "absolute p \<Longrightarrow> components p = RootDir # steps p"
  by (simp add: components_def steps_def)

lemma steps_slash: "steps (a @ ''/'') = steps a"
  using steps_join [of a "[]"] by (simp add: steps_def component_of_def List.map_filter_simps)

lemma join_steps:
  assumes "absolute root" and "\<not> absolute p"
  shows "absolute (path_join root p) \<and> steps (path_join root p) = steps root @ steps p"
proof (cases "last root = CHR ''/''")
  case True
  have "root \<noteq> []" using assms(1) by (auto simp: absolute_def)
  with True obtain a where a: "root = a @ ''/''" by (metis append_butlast_last_id)
  have "steps (a @ CHR ''/'' # p) = steps root @ steps p"
    by (subst a, subst steps_slash) (rule steps_join)
  moreover have "absolute (root @ p)" using assms(1) \<open>root \<noteq> []\<close> by (cases root) (auto simp: absolute_def)
  ultimately show ?thesis using assms(2) True a by (simp add: path_join_def)
next
  case False
  have "root \<noteq> []" using assms(1) by (auto simp: absolute_def)
  with assms(1) have "absolute (root @ ''/'' @ p)" by (cases root) (auto simp: absolute_def)
  with False \<open>root \<noteq> []\<close> assms(2) show ?thesis
    using steps_join [of root p] by (simp add: path_join_def)
qed

lemma place_join:
  assumes "absolute root" and "\<not> absolute p"
  shows "place (path_join root p) = resolve (place root) (steps p)"
  using join_steps [OF assms] assms(1) by (simp add: place_def components_absolute resolve_append)

lemma steps_range: "x \<in> set (steps p) \<Longrightarrow> x = ParentDir \<or> (\<exists>s. x = Normal s)"
  by (auto simp: steps_def map_filter_set component_of_def split: if_splits)

lemma resolve_down: "ParentDir \<notin> set cs \<Longrightarrow> RootDir \<notin> set cs \<Longrightarrow> \<exists>down. resolve at cs = at @ down"
  by (induction at cs rule: resolve.induct) auto

lemma resolve_names: "resolve at (map Normal names) = at @ names"
  by (induction names arbitrary: at) auto

text \<open>What the standard library documents of the three operations: \<open>files\<close> gives the content of the
  regular file at a place. A write that succeeds replaces the content of the file at the place
  of its path, a removal that succeeds removes that file and one that fails changes nothing, and
  creating directories changes no file.\<close>

locale file_system =
  fixes F :: "('fs, 'io) file_ops" and files :: "'fs \<Rightarrow> string list \<Rightarrow> string option"
  assumes create_dir_all_files: "create_dir_all F dir fs = (r, fs') \<Longrightarrow> files fs' = files fs"
    and write_file_files: "write_file F p content fs = (Inr u, fs') \<Longrightarrow> files fs' = (files fs)(place p \<mapsto> content)"
    and remove_file_files: "remove_file F p fs = (Inr u, fs') \<Longrightarrow> files fs' = (files fs)(place p := None)"
    and remove_file_failed: "remove_file F p fs = (Inl e, fs') \<Longrightarrow> files fs' = files fs"
begin

lemma fs_write_files:
  "fs_write F full content fs = (Inr u, fs') \<Longrightarrow> files fs' = (files fs)(place full \<mapsto> content)"
proof -
  assume run: "fs_write F full content fs = (Inr u, fs')"
  then obtain fs1 where "write_file F full content fs1 = (Inr u, fs')" "files fs1 = files fs"
    by (auto simp: fs_write_def split: option.splits prod.splits sum.splits intro: create_dir_all_files)
  with write_file_files show ?thesis by simp
qed

lemma send_write:
  assumes "dec data = Inr (Intent (FsWriteFile p content))" and "fs_send F dec t fs data = (Inr u, fs')"
  shows "files fs' = (files fs)(place (path_join (fs_root t) p) \<mapsto> content)"
  using assms by (auto simp: fs_send_def split: prod.splits sum.splits dest: fs_write_files)

lemma send_delete:
  assumes "dec data = Inr (Intent (FsDeleteFile p))" and "fs_send F dec t fs data = (r, fs')"
  shows "files fs' = (if r = Inr () then (files fs)(place (path_join (fs_root t) p) := None) else files fs)"
  using assms by (auto simp: fs_send_def split: prod.splits sum.splits dest: remove_file_files remove_file_failed)

end

text \<open>A disk without permissions and links: its regular files. Every place above a file is a
  directory; writing onto a directory fails, so does creating one where a file is, and removing
  what is not there.\<close>

type_synonym disk = "(string list \<times> string) list"

definition disk_ops :: "(disk, string) file_ops" where
  "disk_ops =
     \<lparr>create_dir_all = (\<lambda>dir fs.
        if list_ex (\<lambda>(f, _). take (length f) (resolve [] dir) = f) fs then (Inl ''not a directory'', fs) else (Inr (), fs)),
      write_file = (\<lambda>p content fs.
        if list_ex (\<lambda>(f, _). take (length (place p)) f = place p \<and> f \<noteq> place p) fs then (Inl ''is a directory'', fs)
        else (Inr (), AList.update (place p) content fs)),
      remove_file = (\<lambda>p fs.
        if map_of fs (place p) = None then (Inl ''no such file'', fs) else (Inr (), AList.delete (place p) fs))\<rparr>"

interpretation disk: file_system disk_ops map_of
  by unfold_locales
    (auto simp: disk_ops_def update_conv delete_conv fun_upd_def fun_eq_iff split: if_splits)

text \<open>Where the file of an intent is, for the place of the root: below it as long as no step goes up.\<close>

definition intent_place :: "string \<Rightarrow> string \<Rightarrow> string list" where
  "intent_place root p = (if absolute p then place p else resolve (place root) (steps p))"

lemma intent_place_join: "absolute root \<Longrightarrow> place (path_join root p) = intent_place root p"
  using place_join [of root p] by (simp add: intent_place_def path_join_def)

lemma intent_place_below:
  "\<not> absolute p \<Longrightarrow> ParentDir \<notin> set (steps p) \<Longrightarrow> \<exists>down. intent_place root p = place root @ down"
  using resolve_down [of "steps p" "place root"] steps_range [of RootDir p] by (auto simp: intent_place_def)

lemma intent_place_up:
  "\<not> absolute p \<Longrightarrow> steps p = ParentDir # map Normal names \<Longrightarrow> intent_place root p = butlast (place root) @ names"
  by (simp add: intent_place_def resolve_names)

text \<open>C27: a write intent that a file system room carries out puts its content into the file at the
  place of its path and changes no other file; it is carried out if and only if the parent
  directory could be created and the file written, else the first error is reported. A delete
  intent removes exactly the file at the place of its path, and changes nothing when it reports
  an error. The place of a path without \<^verbatim>\<open>..\<close> steps is below the room's root; but any path that
  begins with one \<^verbatim>\<open>..\<close> step and goes down by names leads to those names in the directory above
  the root, and an absolute path leads to its own place, wherever the root is.\<close>

theorem fs_paths_escape:
  assumes "file_system F files" and "absolute (fs_root t)"
  shows "(dec data = Inr (Intent (FsWriteFile p content)) \<longrightarrow>
       (fs_send F dec t fs data = (Inr (), fs') \<longrightarrow> files fs' = (files fs)(intent_place (fs_root t) p \<mapsto> content)) \<and>
       (\<exists>full. place full = intent_place (fs_root t) p \<and>
          fst (fs_send F dec t fs data) =
            (case path_parent full of
               None \<Rightarrow> map_sum FsIo id (fst (write_file F full content fs))
             | Some dir \<Rightarrow>
                 (case create_dir_all F dir fs of
                    (Inl e, fs1) \<Rightarrow> Inl (FsIo e)
                  | (Inr _, fs1) \<Rightarrow> map_sum FsIo id (fst (write_file F full content fs1)))))) \<and>
    (dec data = Inr (Intent (FsDeleteFile p)) \<and> fs_send F dec t fs data = (r, fs') \<longrightarrow>
       files fs' = (if r = Inr () then (files fs)(intent_place (fs_root t) p := None) else files fs)) \<and>
    (\<not> absolute p \<and> ParentDir \<notin> set (steps p) \<longrightarrow> (\<exists>down. intent_place (fs_root t) p = place (fs_root t) @ down)) \<and>
    (\<not> absolute p \<and> steps p = ParentDir # map Normal names \<longrightarrow>
       intent_place (fs_root t) p = butlast (place (fs_root t)) @ names) \<and>
    (absolute p \<longrightarrow> intent_place (fs_root t) p = place p)"
proof (intro conjI impI)
  note at = intent_place_join [OF assms(2), of p]
  show "files fs' = (files fs)(intent_place (fs_root t) p \<mapsto> content)"
    if "dec data = Inr (Intent (FsWriteFile p content))" "fs_send F dec t fs data = (Inr (), fs')"
    using file_system.send_write [OF assms(1) that] at by simp
  show "\<exists>full. place full = intent_place (fs_root t) p \<and>
          fst (fs_send F dec t fs data) =
            (case path_parent full of
               None \<Rightarrow> map_sum FsIo id (fst (write_file F full content fs))
             | Some dir \<Rightarrow>
                 (case create_dir_all F dir fs of
                    (Inl e, fs1) \<Rightarrow> Inl (FsIo e)
                  | (Inr _, fs1) \<Rightarrow> map_sum FsIo id (fst (write_file F full content fs1))))"
    if "dec data = Inr (Intent (FsWriteFile p content))"
    using that at
    by (intro exI [of _ "path_join (fs_root t) p"])
      (auto simp: fs_send_def fs_write_def split: option.splits prod.splits sum.splits)
  show "files fs' = (if r = Inr () then (files fs)(intent_place (fs_root t) p := None) else files fs)"
    if "dec data = Inr (Intent (FsDeleteFile p)) \<and> fs_send F dec t fs data = (r, fs')"
    using file_system.send_delete [OF assms(1) conjunct1 [OF that] conjunct2 [OF that]] at by simp
qed (simp_all add: intent_place_below intent_place_up, simp add: intent_place_def)

text \<open>A room at \<^verbatim>\<open>/srv/room\<close> overwrites its neighbour and deletes a file of the system.\<close>

definition demo_disk :: disk where
  "demo_disk = [([''srv'', ''other'', ''a''], ''old''), ([''etc'', ''x''], ''y'')]"

theorem fs_paths_escape_witness:
  "\<exists>fs1 fs2. fs_send disk_ops (\<lambda>_. Inr (Intent (FsWriteFile ''../other/a'' ''new''))) \<lparr>fs_root = ''/srv/room'', fs_seq = 0\<rparr> demo_disk ()
        = (Inr () :: (_, unit, unit, unit) fs_error + unit, fs1) \<and>
     fs_send disk_ops (\<lambda>_. Inr (Intent (FsDeleteFile ''/etc/x''))) \<lparr>fs_root = ''/srv/room'', fs_seq = 0\<rparr> fs1 ()
        = (Inr () :: (_, unit, unit, unit) fs_error + unit, fs2) \<and>
     map_of fs2 = (map_of demo_disk)([''srv'', ''other'', ''a''] \<mapsto> ''new'', [''etc'', ''x''] := None)"
proof -
  let ?t = "\<lparr>fs_root = ''/srv/room'', fs_seq = 0\<rparr>"
  have root: "absolute (fs_root ?t)" by (simp add: absolute_def)
  have p: "place ''/srv/room'' = [''srv'', ''room'']" "place ''/etc/x'' = [''etc'', ''x'']"
    "steps ''../other/a'' = [ParentDir, Normal ''other'', Normal ''a'']" "absolute ''/etc/x''" "\<not> absolute ''../other/a''"
    by (simp_all add: place_def components_def absolute_def component_of_def List.map_filter_simps steps_def)
  then have at: "intent_place ''/srv/room'' ''../other/a'' = [''srv'', ''other'', ''a'']"
      "intent_place ''/srv/room'' ''/etc/x'' = [''etc'', ''x'']"
    by (simp_all add: intent_place_def)
  define fs1 :: disk where "fs1 = [([''srv'', ''other'', ''a''], ''new''), ([''etc'', ''x''], ''y'')]"
  define fs2 :: disk where "fs2 = [([''srv'', ''other'', ''a''], ''new'')]"
  have w: "fs_send disk_ops (\<lambda>_. Inr (Intent (FsWriteFile ''../other/a'' ''new''))) ?t demo_disk ()
        = (Inr () :: (_, unit, unit, unit) fs_error + unit, fs1)"
    unfolding fs1_def by code_simp
  have d: "fs_send disk_ops (\<lambda>_. Inr (Intent (FsDeleteFile ''/etc/x''))) ?t fs1 ()
        = (Inr () :: (_, unit, unit, unit) fs_error + unit, fs2)"
    unfolding fs1_def fs2_def by code_simp
  note written = conjunct1 [OF fs_paths_escape [OF disk.file_system_axioms root, of "\<lambda>_. Inr (Intent (FsWriteFile ''../other/a'' ''new''))" "()"
      "''../other/a''" "''new''" demo_disk fs1]]
  note deleted = conjunct1 [OF conjunct2 [OF fs_paths_escape [OF disk.file_system_axioms root, of "\<lambda>_. Inr (Intent (FsDeleteFile ''/etc/x''))" "()"
      "''/etc/x''" _ fs1 fs2]]]
  from written w have f1: "map_of fs1 = (map_of demo_disk)(intent_place (fs_root ?t) ''../other/a'' \<mapsto> ''new'')"
    by blast
  from deleted d have f2: "map_of fs2 = (map_of fs1)(intent_place (fs_root ?t) ''/etc/x'' := None)"
    by fastforce
  from w d f1 f2 at show ?thesis by auto
qed

end
