(* ===== verification/Sqlite.thy ===== *)
theory Sqlite
  imports Client
begin

section \<open>The SQLite connector: table mode\<close>

text \<open>
  \<^verbatim>\<open>crates/connectors/interconnect-connector-sqlite/src\<close> but for \<^verbatim>\<open>chat.rs\<close>: a table as a
  room. The database library is a record of its operations on an abstract database; an input
  of the receive loop is the database as a poll finds it, or the panic of the polling task. The
  floating-point numbers of JSON are a parameter too, with what the code asks of a number.
\<close>

subsection \<open>Values\<close>

datatype 'f sql_value = SqlNull | SqlInteger int | SqlReal 'f | SqlText string | SqlBlob bytes

record ('j, 'f) number_ops =
  num_is :: "'j \<Rightarrow> bool"
  num_as_f64 :: "'j \<Rightarrow> 'f option"
  num_of_f64 :: "'f \<Rightarrow> 'j"

definition blob_text :: "bytes \<Rightarrow> string" where
  "blob_text b = ''0x'' @ concat (map (\<lambda>byte. hex_padded 2 (unat byte)) b)"

text \<open>Reading a column; \<open>lossy\<close> is \<^verbatim>\<open>String::from_utf8_lossy\<close>.\<close>

fun value_ref_to_json :: "'j json_ops \<Rightarrow> ('j, 'f) number_ops \<Rightarrow> (string \<Rightarrow> string) \<Rightarrow> 'f sql_value \<Rightarrow> 'j" where
  "value_ref_to_json J N lossy SqlNull = j_null J"
| "value_ref_to_json J N lossy (SqlInteger i) = j_int J i"
| "value_ref_to_json J N lossy (SqlReal f) = num_of_f64 N f"
| "value_ref_to_json J N lossy (SqlText t) = j_str J (lossy t)"
| "value_ref_to_json J N lossy (SqlBlob b) = j_str J (blob_text b)"

text \<open>Binding a parameter: the match on the kind of the JSON value.\<close>

definition json_to_sql :: "'j json_ops \<Rightarrow> ('j, 'f) number_ops \<Rightarrow> 'j \<Rightarrow> 'f sql_value" where
  "json_to_sql J N v =
     (if v = j_null J then SqlNull
      else case j_as_bool J v of
        Some b \<Rightarrow> SqlInteger (of_bool b)
      | None \<Rightarrow>
          if num_is N v then
            (case j_as_i64 J v of
               Some i \<Rightarrow> SqlInteger i
             | None \<Rightarrow> (case num_as_f64 N v of Some f \<Rightarrow> SqlReal f | None \<Rightarrow> SqlNull))
          else (case j_as_str J v of Some s \<Rightarrow> SqlText s | None \<Rightarrow> SqlText (j_text J v)))"

subsection \<open>Types\<close>

record column_info =
  ci_name :: string
  ci_type_name :: string

type_synonym 'j row = "(string \<times> 'j) list"

record 'j sq_snapshot =
  sq_snap_path :: string
  sq_snap_table :: string
  sq_snap_rows :: "'j row list"
  sq_snap_schema :: "column_info list"

datatype 'j sq_intent = SqExecute string "'j list" | SqInsert "'j row" | SqDelete string "'j list"

datatype ('se, 'cj) sq_error = SqRusqlite 'se | SqJson 'cj | SqOther string

text \<open>What the code uses of the database library: running a statement, a query with the names of
  its columns and its rows, a batch of statements, and reading a column of a row as a string.\<close>

record ('db, 'f, 'se) sqlite_ops =
  sql_execute :: "string \<Rightarrow> 'f sql_value list \<Rightarrow> 'db \<Rightarrow> ('se + unit) \<times> 'db"
  sql_query :: "string \<Rightarrow> 'db \<Rightarrow> 'se + string list \<times> 'f sql_value list list"
  sql_batch :: "string \<Rightarrow> 'db \<Rightarrow> ('se + unit) \<times> 'db"
  sql_get_string :: "'f sql_value list \<Rightarrow> nat \<Rightarrow> 'se + string"

record sq_transport =
  sq_path :: string
  sq_table :: string
  sq_schema :: "column_info list"
  sq_seq :: u64
  sq_last_signature :: "int \<times> int"

fun sq_intent_fields :: "'j json_ops \<Rightarrow> 'j sq_intent \<Rightarrow> (string \<times> 'j) list" where
  "sq_intent_fields J (SqExecute sql params) =
     tagged J ''execute'' [(''sql'', j_str J sql), (''params'', j_arr J params)]"
| "sq_intent_fields J (SqInsert values) = tagged J ''insert'' [(''values'', j_obj J values)]"
| "sq_intent_fields J (SqDelete where_sql params) =
     tagged J ''delete'' [(''where_sql'', j_str J where_sql), (''params'', j_arr J params)]"

subsection \<open>Statements\<close>

definition dq :: "string \<Rightarrow> string" where
  "dq s = [CHR 0x22] @ s @ [CHR 0x22]"

definition select_all :: "string \<Rightarrow> string" where
  "select_all table = ''SELECT * FROM '' @ dq table"

definition select_signature :: "string \<Rightarrow> string" where
  "select_signature table = ''SELECT COUNT(*), COALESCE(MAX(rowid), 0) FROM '' @ dq table"

definition placeholders :: "nat \<Rightarrow> string" where
  "placeholders n = join '', '' (map (\<lambda>i. ''?'' @ show_nat i) [1 ..< Suc n])"

definition column_list :: "string list \<Rightarrow> string" where
  "column_list cols = join '', '' (map dq cols)"

definition insert_sql :: "string \<Rightarrow> string \<Rightarrow> string list \<Rightarrow> string" where
  "insert_sql verb table cols =
     verb @ '' INTO '' @ dq table @ '' ('' @ column_list cols @ '') VALUES ('' @ placeholders (length cols) @ '')''"

text \<open>The columns are the keys of a hash map, in the order of its iteration; the values are looked
  up by key.\<close>

definition insert_params :: "'j json_ops \<Rightarrow> ('j, 'f) number_ops \<Rightarrow> 'j row \<Rightarrow> string list \<Rightarrow> 'f sql_value list" where
  "insert_params J N values cols =
     map (\<lambda>c. json_to_sql J N (case map_of values c of Some v \<Rightarrow> v | None \<Rightarrow> j_null J)) cols"

subsection \<open>Reading\<close>

text \<open>A row is a map built by inserting the columns from left to right.\<close>

definition build_row ::
  "'j json_ops \<Rightarrow> ('j, 'f) number_ops \<Rightarrow> (string \<Rightarrow> string) \<Rightarrow> string list \<Rightarrow> 'f sql_value list \<Rightarrow> 'j row" where
  "build_row J N lossy names vals =
     fold (\<lambda>(name, v) m. AList.update name (value_ref_to_json J N lossy v) m) (zip names vals) []"

definition read_rows ::
  "'j json_ops \<Rightarrow> ('j, 'f) number_ops \<Rightarrow> (string \<Rightarrow> string) \<Rightarrow> ('db, 'f, 'se) sqlite_ops \<Rightarrow> 'db \<Rightarrow> string
    \<Rightarrow> ('se, 'cj) sq_error + 'j row list" where
  "read_rows J N lossy Q db table =
     (case sql_query Q (select_all table) db of
        Inl e \<Rightarrow> Inl (SqRusqlite e)
      | Inr (names, rows) \<Rightarrow> Inr (map (build_row J N lossy names) rows))"

text \<open>Every error of the signature query counts as the signature of an empty table.\<close>

definition read_signature :: "('db, 'f, 'se) sqlite_ops \<Rightarrow> 'db \<Rightarrow> string \<Rightarrow> int \<times> int" where
  "read_signature Q db table =
     (case sql_query Q (select_signature table) db of
        Inr (_, [SqlInteger n, SqlInteger m] # _) \<Rightarrow> (n, m)
      | _ \<Rightarrow> (0, 0))"

definition sq_current_snapshot ::
  "'j json_ops \<Rightarrow> ('j, 'f) number_ops \<Rightarrow> (string \<Rightarrow> string) \<Rightarrow> ('db, 'f, 'se) sqlite_ops \<Rightarrow> 'db
    \<Rightarrow> string \<Rightarrow> string \<Rightarrow> column_info list \<Rightarrow> ('se, 'cj) sq_error + 'j sq_snapshot" where
  "sq_current_snapshot J N lossy Q db path table schema =
     (case read_rows J N lossy Q db table of
        Inl e \<Rightarrow> Inl e
      | Inr rows \<Rightarrow>
          Inr \<lparr>sq_snap_path = lossy path, sq_snap_table = table, sq_snap_rows = rows, sq_snap_schema = schema\<rparr>)"

datatype 'db sq_item = SqPoll 'db | SqPanicked string

fun sq_turn ::
  "'j json_ops \<Rightarrow> ('j, 'f) number_ops \<Rightarrow> (string \<Rightarrow> string) \<Rightarrow> ('db, 'f, 'se) sqlite_ops
    \<Rightarrow> (('j, 'j sq_snapshot) server_wire \<Rightarrow> 'cj + 'b) \<Rightarrow> sq_transport \<Rightarrow> 'db sq_item
    \<Rightarrow> (('se, 'cj) sq_error, 'b, sq_transport) turn" where
  "sq_turn J N lossy Q enc t (SqPanicked e) = Return (Failed (SqOther e)) t"
| "sq_turn J N lossy Q enc t (SqPoll db) =
     (let sig = read_signature Q db (sq_table t) in
      if sig = sq_last_signature t then Continue t
      else (case sq_current_snapshot J N lossy Q db (sq_path t) (sq_table t) (sq_schema t) of
              Inl e \<Rightarrow> Return (Failed e) t
            | Inr snapshot \<Rightarrow>
                Return (emit enc SqJson (Snapshot (sq_seq t) snapshot))
                  (t\<lparr>sq_last_signature := sig, sq_seq := sq_seq t + 1\<rparr>)))"

definition sq_recv where
  "sq_recv J N lossy Q enc = recv_loop (sq_turn J N lossy Q enc)"

subsection \<open>Sending\<close>

fun sq_statement ::
  "'j json_ops \<Rightarrow> ('j, 'f) number_ops \<Rightarrow> string \<Rightarrow> 'j sq_intent \<Rightarrow> (string \<times> 'f sql_value list) option" where
  "sq_statement J N table (SqExecute sql params) = Some (sql, map (json_to_sql J N) params)"
| "sq_statement J N table (SqInsert values) =
     (if values = [] then None
      else (let cols = map fst values in Some (insert_sql ''INSERT'' table cols, insert_params J N values cols)))"
| "sq_statement J N table (SqDelete where_sql params) =
     Some (''DELETE FROM '' @ dq table @ '' WHERE '' @ where_sql, map (json_to_sql J N) params)"

definition sq_send ::
  "'j json_ops \<Rightarrow> ('j, 'f) number_ops \<Rightarrow> ('db, 'f, 'se) sqlite_ops \<Rightarrow> ('b \<Rightarrow> 'cj + 'j sq_intent client_wire)
    \<Rightarrow> sq_transport \<Rightarrow> 'db \<Rightarrow> 'b \<Rightarrow> (('se, 'cj) sq_error + unit) \<times> 'db" where
  "sq_send J N Q dec t db data =
     (case dec data of
        Inl e \<Rightarrow> (Inl (SqJson e), db)
      | Inr (Intent i) \<Rightarrow>
          (case sq_statement J N (sq_table t) i of
             None \<Rightarrow> (Inr (), db)
           | Some (sql, params) \<Rightarrow>
               (case sql_execute Q sql params db of
                  (Inl e, db') \<Rightarrow> (Inl (SqRusqlite e), db')
                | (Inr u, db') \<Rightarrow> (Inr u, db')))
      | Inr _ \<Rightarrow> (Inr (), db))"

subsection \<open>Connecting\<close>

definition schema_row :: "('db, 'f, 'se) sqlite_ops \<Rightarrow> 'f sql_value list \<Rightarrow> 'se + column_info" where
  "schema_row Q row =
     (case sql_get_string Q row 1 of
        Inl e \<Rightarrow> Inl e
      | Inr n \<Rightarrow> (case sql_get_string Q row 2 of Inl e \<Rightarrow> Inl e | Inr ty \<Rightarrow> Inr \<lparr>ci_name = n, ci_type_name = ty\<rparr>))"

fun schema_rows :: "('db, 'f, 'se) sqlite_ops \<Rightarrow> 'f sql_value list list \<Rightarrow> 'se + column_info list" where
  "schema_rows Q [] = Inr []"
| "schema_rows Q (r # rs) =
     (case schema_row Q r of
        Inl e \<Rightarrow> Inl e
      | Inr c \<Rightarrow> (case schema_rows Q rs of Inl e \<Rightarrow> Inl e | Inr cs \<Rightarrow> Inr (c # cs)))"

definition sq_schema_of :: "('db, 'f, 'se) sqlite_ops \<Rightarrow> 'db \<Rightarrow> string \<Rightarrow> ('se, 'cj) sq_error + column_info list" where
  "sq_schema_of Q db table =
     (case sql_query Q (''PRAGMA table_info('' @ dq table @ '')'') db of
        Inl e \<Rightarrow> Inl (SqRusqlite e)
      | Inr (_, rows) \<Rightarrow> map_sum SqRusqlite id (schema_rows Q rows))"

definition sq_manifest :: "'j json_ops \<Rightarrow> string \<Rightarrow> string \<Rightarrow> string \<Rightarrow> 'j manifest" where
  "sq_manifest J kind path table =
     \<lparr>m_identity = identity_local (''sqlite:'' @ path @ '':'' @ table), m_name = table @ '' ('' @ path @ '')'',
      m_substrate = None,
      m_metadata = j_obj J [(''type'', j_str J kind), (''path'', j_str J path), (''table'', j_str J table)]\<rparr>"

definition sq_connect ::
  "'j json_ops \<Rightarrow> ('j, 'f) number_ops \<Rightarrow> (string \<Rightarrow> string) \<Rightarrow> ('db, 'f, 'se) sqlite_ops
    \<Rightarrow> (string \<Rightarrow> 'se + 'db) \<Rightarrow> string \<Rightarrow> string
    \<Rightarrow> ('se, 'cj) sq_error + ((sq_transport, 'j) connection \<times> 'j sq_snapshot)" where
  "sq_connect J N lossy Q open_db path table =
     (case open_db path of
        Inl e \<Rightarrow> Inl (SqRusqlite e)
      | Inr db \<Rightarrow>
          (case sq_schema_of Q db table of
             Inl e \<Rightarrow> Inl e
           | Inr schema \<Rightarrow>
               (let sig = read_signature Q db table in
                case sq_current_snapshot J N lossy Q db path table schema of
                  Inl e \<Rightarrow> Inl e
                | Inr snapshot \<Rightarrow>
                    Inr (established
                      \<lparr>sq_path = path, sq_table = table, sq_schema = schema, sq_seq = 0, sq_last_signature = sig\<rparr>
                      (sq_manifest J ''sqlite'' (lossy path) table), snapshot))))"

subsection \<open>Values go out as they came in\<close>

lemma hex_padded_length: "length (hex_padded k n) = k"
  by (induction k arbitrary: n) simp_all

lemma blob_text_inj: "blob_text a = blob_text b \<Longrightarrow> a = b"
proof -
  have two: "hex_padded 2 (unat x) = hex_padded 2 (unat y) \<longleftrightarrow> x = y" for x y :: "8 word"
    using hex_padded_inj [of "unat x" 2 "unat y"] unsigned_less [of x, where ?'a = nat] unsigned_less [of y, where ?'a = nat]
    by (simp add: word_unat_eq_iff)
  have "concat (map (\<lambda>byte. hex_padded 2 (unat byte)) a) = concat (map (\<lambda>byte. hex_padded 2 (unat byte)) b) \<Longrightarrow> a = b"
  proof (induction a arbitrary: b)
    case Nil
    then show ?case by (cases b) (auto dest: arg_cong [where f = length] simp: hex_padded_length)
  next
    case (Cons x a)
    then obtain y b' where b: "b = y # b'"
      by (cases b) (auto dest: arg_cong [where f = length] simp: hex_padded_length)
    with Cons.prems have "hex_padded 2 (unat x) = hex_padded 2 (unat y)"
        "concat (map (\<lambda>byte. hex_padded 2 (unat byte)) a) = concat (map (\<lambda>byte. hex_padded 2 (unat byte)) b')"
      by (simp_all add: append_eq_append_conv hex_padded_length)
    with Cons.IH b two show ?case by simp
  qed
  then show "blob_text a = blob_text b \<Longrightarrow> a = b" by (simp add: blob_text_def)
qed

text \<open>Reading a column as JSON and binding it again gives the same value for null, every 64-bit
  integer and every text that is valid UTF-8; a real comes back when its JSON form is a number
  that is no integer and keeps its value. A blob does not come back: it is bound as the text of
  its hexadecimal form, which at least determines it. A Boolean that is bound comes back as the
  integer 0 or 1.\<close>

lemma sqlite_value_roundtrip:
  assumes J: "json_value J" and kinds: "\<forall>i. num_is N (j_int J i) \<and> j_int J i \<noteq> j_null J \<and> j_as_bool J (j_int J i) = None"
    and strs: "\<forall>s. \<not> num_is N (j_str J s) \<and> j_str J s \<noteq> j_null J \<and> j_as_bool J (j_str J s) = None"
    and bools: "\<forall>b. j_bool J b \<noteq> j_null J"
  shows "json_to_sql J N (value_ref_to_json J N lossy SqlNull) = SqlNull \<and>
    (- (2 ^ 63) \<le> i \<and> i < 2 ^ 63 \<longrightarrow> json_to_sql J N (value_ref_to_json J N lossy (SqlInteger i)) = SqlInteger i) \<and>
    (lossy s = s \<longrightarrow> json_to_sql J N (value_ref_to_json J N lossy (SqlText s)) = SqlText s) \<and>
    (num_is N (num_of_f64 N f) \<and> num_of_f64 N f \<noteq> j_null J \<and> j_as_bool J (num_of_f64 N f) = None \<and>
       j_as_i64 J (num_of_f64 N f) = None \<and> num_as_f64 N (num_of_f64 N f) = Some f \<longrightarrow>
       json_to_sql J N (value_ref_to_json J N lossy (SqlReal f)) = SqlReal f) \<and>
    json_to_sql J N (value_ref_to_json J N lossy (SqlBlob a)) = SqlText (blob_text a) \<and>
    (blob_text a = blob_text b \<longrightarrow> a = b) \<and>
    json_to_sql J N (j_bool J c) = SqlInteger (of_bool c)"
proof -
  have "blob_text a = blob_text b \<longrightarrow> a = b" using blob_text_inj by blast
  then show ?thesis
    using kinds strs bools
    by (simp add: json_to_sql_def json_value.as_str_str [OF J] json_value.as_bool_bool [OF J] json_value.as_i64_int [OF J])
qed

definition demo_numbers :: "(json, unit) number_ops" where
  "demo_numbers = \<lparr>num_is = (\<lambda>v. case v of JInt _ \<Rightarrow> True | _ \<Rightarrow> False), num_as_f64 = (\<lambda>_. None), num_of_f64 = (\<lambda>_. JNull)\<rparr>"

lemma sqlite_value_roundtrip_witness:
  "json_to_sql value_json demo_numbers (value_ref_to_json value_json demo_numbers id (SqlInteger (- 7))) = SqlInteger (- 7) \<and>
   json_to_sql value_json demo_numbers (value_ref_to_json value_json demo_numbers id (SqlBlob [255])) = SqlText ''0xff''"
proof -
  have k: "\<forall>i. num_is demo_numbers (j_int value_json i) \<and> j_int value_json i \<noteq> j_null value_json \<and> j_as_bool value_json (j_int value_json i) = None"
    "\<forall>s. \<not> num_is demo_numbers (j_str value_json s) \<and> j_str value_json s \<noteq> j_null value_json \<and> j_as_bool value_json (j_str value_json s) = None"
    "\<forall>b. j_bool value_json b \<noteq> j_null value_json"
    by (simp_all add: demo_numbers_def)
  note r = sqlite_value_roundtrip [OF value_json_laws k, where lossy = id]
  have "blob_text [255] = ''0xff''"
    by code_simp
  with conjunct1 [OF conjunct2 [OF r [where i = "- 7"]]] conjunct1 [OF conjunct2 [OF conjunct2 [OF conjunct2 [OF conjunct2 [OF r [where a = "[255]"]]]]]]
  show ?thesis by simp
qed

subsection \<open>What the database reads\<close>

text \<open>How SQL reads an identifier after its opening quote: up to the next quote that is not doubled.\<close>

fun read_ident :: "string \<Rightarrow> (string \<times> string) option" where
  "read_ident [] = None"
| "read_ident [c] = (if c = CHR 0x22 then Some ([], []) else None)"
| "read_ident (c # d # cs) =
     (if c = CHR 0x22 then
        (if d = CHR 0x22 then map_option (\<lambda>(a, r). (c # a, r)) (read_ident cs) else Some ([], d # cs))
      else map_option (\<lambda>(a, r). (c # a, r)) (read_ident (d # cs)))"

fun read_columns :: "nat \<Rightarrow> string \<Rightarrow> (string list \<times> string) option" where
  "read_columns 0 s = Some ([], s)"
| "read_columns (Suc n) s =
     (case s of
        [] \<Rightarrow> None
      | q # s' \<Rightarrow>
          if q \<noteq> CHR 0x22 then None
          else (case read_ident s' of
                  None \<Rightarrow> None
                | Some (a, rest) \<Rightarrow>
                    if n = 0 then Some ([a], rest)
                    else Option.bind (strip_prefix '', '' rest) (\<lambda>r.
                           map_option (\<lambda>(as, r'). (a # as, r')) (read_columns n r))))"

lemma read_ident_quote: "d \<noteq> CHR 0x22 \<Longrightarrow> CHR 0x22 \<notin> set a \<Longrightarrow> read_ident (a @ CHR 0x22 # d # b) = Some (a, d # b)"
proof (induction a)
  case (Cons c a)
  then show ?case by (cases a) auto
qed simp

lemma read_columns_list:
  "\<forall>c \<in> set cols. CHR 0x22 \<notin> set c \<Longrightarrow> cols \<noteq> [] \<Longrightarrow> d \<noteq> CHR 0x22 \<Longrightarrow>
     read_columns (length cols) (column_list cols @ d # rest) = Some (cols, d # rest)"
proof (induction cols)
  case (Cons c cols)
  show ?case
  proof (cases cols)
    case Nil
    with Cons.prems read_ident_quote [of d c rest] show ?thesis by (simp add: column_list_def dq_def)
  next
    case (Cons c' cols')
    then have "column_list (c # cols) @ d # rest =
        CHR 0x22 # c @ CHR 0x22 # CHR '','' # '' '' @ column_list cols @ d # rest"
      by (simp add: column_list_def dq_def)
    moreover have "strip_prefix '', '' (CHR '','' # '' '' @ column_list cols @ d # rest) = Some (column_list cols @ d # rest)"
      using strip_prefix_append [of "'', ''"] by simp
    ultimately show ?thesis
      using Cons.prems Cons.IH Cons read_ident_quote [of "CHR '',''" c "'' '' @ column_list cols @ d # rest"]
      by simp
  qed
qed simp

lemma span_digits:
  "rest = [] \<or> digit_val (hd rest) = None \<Longrightarrow>
     takeWhile (\<lambda>c. digit_val c \<noteq> None) (show_nat n @ rest) = show_nat n \<and>
     dropWhile (\<lambda>c. digit_val c \<noteq> None) (show_nat n @ rest) = rest"
proof -
  assume rest: "rest = [] \<or> digit_val (hd rest) = None"
  have "\<forall>c \<in> set (show_nat n). digit_val c \<noteq> None"
    using show_nat_digits [of _ n] by (fastforce simp: digit_val_def)
  with rest show ?thesis by (cases rest) (simp_all add: takeWhile_append dropWhile_append)
qed

text \<open>A list of numbered parameters, and the statement as a whole: the table, the columns and for
  each column the number of its parameter.\<close>

fun read_parameters :: "nat \<Rightarrow> string \<Rightarrow> (nat list \<times> string) option" where
  "read_parameters 0 s = Some ([], s)"
| "read_parameters (Suc n) s =
     (case s of
        [] \<Rightarrow> None
      | q # s' \<Rightarrow>
          if q \<noteq> CHR ''?'' then None
          else (case parse_digits 0 (takeWhile (\<lambda>c. digit_val c \<noteq> None) s') of
                  None \<Rightarrow> None
                | Some k \<Rightarrow>
                    (let rest = dropWhile (\<lambda>c. digit_val c \<noteq> None) s' in
                     if n = 0 then Some ([k], rest)
                     else Option.bind (strip_prefix '', '' rest) (\<lambda>r.
                            map_option (\<lambda>(ks, r'). (k # ks, r')) (read_parameters n r)))))"

definition read_insert :: "nat \<Rightarrow> string \<Rightarrow> (string \<times> string list \<times> nat list) option" where
  "read_insert n s =
     Option.bind (strip_prefix (''INSERT INTO '' @ [CHR 0x22]) s) (\<lambda>s1.
     Option.bind (read_ident s1) (\<lambda>(table, s2).
     Option.bind (strip_prefix '' ('' s2) (\<lambda>s3.
     Option.bind (read_columns n s3) (\<lambda>(cols, s4).
     Option.bind (strip_prefix '') VALUES ('' s4) (\<lambda>s5.
     Option.bind (read_parameters n s5) (\<lambda>(ks, s6).
     if s6 = '')'' then Some (table, cols, ks) else None))))))"

lemma read_parameters_list:
  "ns \<noteq> [] \<Longrightarrow>
     read_parameters (length ns) (join '', '' (map (\<lambda>i. ''?'' @ show_nat i) ns) @ '')'') = Some (ns, '')'')"
proof (induction ns)
  case (Cons k ns)
  show ?case
  proof (cases ns)
    case Nil
    with span_digits [of "'')''" k] show ?thesis
      by (simp add: parse_digits_show_nat digit_val_def)
  next
    case (Cons k' ns')
    define more where "more = join '', '' (map (\<lambda>i. ''?'' @ show_nat i) ns) @ '')''"
    have "join '', '' (map (\<lambda>i. ''?'' @ show_nat i) (k # ns)) @ '')'' = CHR ''?'' # show_nat k @ '', '' @ more"
      by (simp add: Cons more_def)
    moreover have "strip_prefix '', '' ('', '' @ more) = Some more"
      by (rule strip_prefix_append)
    ultimately show ?thesis
      using Cons.IH Cons span_digits [of "'', '' @ more" k]
      by (simp add: parse_digits_show_nat digit_val_def more_def)
  qed
qed simp

lemma read_insert_sql:
  assumes "cols \<noteq> []" and "\<forall>c \<in> set cols. CHR 0x22 \<notin> set c" and "CHR 0x22 \<notin> set table"
  shows "read_insert (length cols) (insert_sql ''INSERT'' table cols) = Some (table, cols, [1 ..< Suc (length cols)])"
proof -
  define vals where "vals = placeholders (length cols) @ '')''"
  define cs where "cs = column_list cols @ '') VALUES ('' @ vals"
  have "insert_sql ''INSERT'' table cols = (''INSERT INTO '' @ [CHR 0x22]) @ table @ CHR 0x22 # CHR '' '' # ''('' @ cs"
    by (simp add: insert_sql_def dq_def cs_def vals_def)
  moreover have "strip_prefix (''INSERT INTO '' @ [CHR 0x22]) ((''INSERT INTO '' @ [CHR 0x22]) @ u) = Some u" for u
    by (rule strip_prefix_append)
  moreover have "read_ident (table @ CHR 0x22 # CHR '' '' # ''('' @ cs) = Some (table, CHR '' '' # ''('' @ cs)"
    by (rule read_ident_quote) (use assms(3) in simp_all)
  moreover have "strip_prefix '' ('' (CHR '' '' # ''('' @ cs) = Some cs"
    using strip_prefix_append [of "'' (''" cs] by simp
  moreover have "read_columns (length cols) cs = Some (cols, '') VALUES ('' @ vals)"
    using read_columns_list [OF assms(2,1), of "CHR '')''" "'' VALUES ('' @ vals"] by (simp add: cs_def)
  moreover have "strip_prefix '') VALUES ('' ('') VALUES ('' @ vals) = Some vals"
    by (rule strip_prefix_append)
  moreover have "read_parameters (length cols) vals = Some ([1 ..< Suc (length cols)], '')'')"
    using read_parameters_list [of "[1 ..< Suc (length cols)]"] assms(1)
    by (simp add: vals_def placeholders_def del: upt_Suc)
  ultimately show ?thesis by (simp add: read_insert_def del: append.simps)
qed

text \<open>C38: the statement of an insert, for whatever order the hash map gives its columns in, is read
  by the database as an insert into the room's table of exactly the row of the intent: the value
  that each column gets is the parameter whose number stands in the column's position, and that
  is the intent's value for the column, with no column twice and none besides. This needs that
  neither the table's name nor a column's has a quote. A quote is not doubled: a name with one
  ends there for the database, and the rest of it is read as part of the statement.\<close>

theorem sqlite_insert_statement:
  assumes "map_inv values" and "values \<noteq> []" and "\<forall>c \<in> fst ` set values. CHR 0x22 \<notin> set c" and "CHR 0x22 \<notin> set table"
  shows "(\<exists>sql params cols ks. sq_statement J N table (SqInsert values) = Some (sql, params) \<and>
    read_insert (length params) sql = Some (table, cols, ks) \<and>
    distinct cols \<and> length cols = length values \<and> length ks = length cols \<and> set ks = {1 .. length params} \<and>
    map_of (zip cols (map (\<lambda>k. params ! (k - 1)) ks)) = map_option (json_to_sql J N) \<circ> map_of values) \<and>
    (CHR 0x22 \<notin> set a \<and> d \<noteq> CHR 0x22 \<longrightarrow> read_ident (tl (dq (a @ CHR 0x22 # d # b))) = Some (a, d # b @ [CHR 0x22]))"
proof -
  define cols where "cols = map fst values"
  define params where "params = insert_params J N values cols"
  have st: "sq_statement J N table (SqInsert values) = Some (insert_sql ''INSERT'' table cols, params)"
    using assms(2) by (simp add: cols_def params_def Let_def)
  have d: "distinct cols" "cols \<noteq> []" "length params = length cols" "length cols = length values"
    using assms(1,2) by (simp_all add: cols_def map_inv_def params_def insert_params_def)
  have read: "read_insert (length params) (insert_sql ''INSERT'' table cols) = Some (table, cols, [1 ..< Suc (length cols)])"
    unfolding d(3) by (rule read_insert_sql) (use assms d in \<open>auto simp: cols_def\<close>)
  have "map (\<lambda>k. params ! (k - 1)) [1 ..< Suc (length cols)] = params"
    by (rule nth_equalityI) (simp_all add: d(3) del: upt_Suc)
  moreover have "map_of (zip cols params) c = map_option (json_to_sql J N) (map_of values c)" for c
  proof -
    have "map_of (zip cols params) c =
        (if c \<in> set cols then Some (json_to_sql J N (case map_of values c of None \<Rightarrow> j_null J | Some v \<Rightarrow> v)) else None)"
      by (simp add: params_def insert_params_def map_of_zip_map)
    moreover have "c \<in> set cols \<longleftrightarrow> map_of values c \<noteq> None"
      by (simp add: cols_def map_of_eq_None_iff)
    ultimately show ?thesis by auto
  qed
  ultimately have "map_of (zip cols (map (\<lambda>k. params ! (k - 1)) [1 ..< Suc (length cols)])) = map_option (json_to_sql J N) \<circ> map_of values"
    by auto
  with st d read read_ident_quote [of d a "b @ [CHR 0x22]"] show ?thesis
    by (intro conjI exI [of _ "insert_sql ''INSERT'' table cols"] exI [of _ params] exI [of _ cols]
        exI [of _ "[1 ..< Suc (length cols)]"]) (auto simp: dq_def simp del: upt_Suc)
qed

theorem sqlite_insert_statement_witness:
  "\<exists>sql params cols ks. sq_statement value_json demo_numbers ''t'' (SqInsert [(''b'', JInt 2), (''a'', JStr ''x'')]) = Some (sql, params) \<and>
     read_insert 2 sql = Some (''t'', cols, ks) \<and>
     map_of (zip cols (map (\<lambda>k. params ! (k - 1)) ks)) = [''b'' \<mapsto> SqlInteger 2, ''a'' \<mapsto> SqlText ''x'']"
proof -
  let ?vals = "[(''b'', JInt 2), (''a'', JStr ''x'')]"
  have "map_inv ?vals" "?vals \<noteq> []" "\<forall>c \<in> fst ` set ?vals. CHR 0x22 \<notin> set c" "CHR 0x22 \<notin> set ''t''"
    by (simp_all add: map_inv_def)
  from sqlite_insert_statement [OF this, of value_json demo_numbers] obtain sql params cols ks where
    c: "sq_statement value_json demo_numbers ''t'' (SqInsert ?vals) = Some (sql, params)"
    "read_insert (length params) sql = Some (''t'', cols, ks)"
    "map_of (zip cols (map (\<lambda>k. params ! (k - 1)) ks)) = map_option (json_to_sql value_json demo_numbers) \<circ> map_of ?vals"
    by blast
  have "length params = 2" using c(1) by (auto simp: insert_params_def Let_def)
  moreover have "map_option (json_to_sql value_json demo_numbers) \<circ> map_of ?vals = [''b'' \<mapsto> SqlInteger 2, ''a'' \<mapsto> SqlText ''x'']"
    by (rule ext) (simp add: json_to_sql_def demo_numbers_def)
  ultimately show ?thesis using c by (intro exI [of _ sql] exI [of _ params] exI [of _ cols] exI [of _ ks]) simp
qed

subsection \<open>Change detection\<close>

text \<open>Both modes of the connector poll a signature of the database and read it only when the
  signature has changed. \<open>sig_of\<close> is the signature of a database as the transport reads it,
  \<open>snap\<close> the snapshot.\<close>

locale signature_poll =
  fixes body :: "'t \<Rightarrow> 'i \<Rightarrow> ('e, 'b, 't) turn"
    and enc :: "('j, 's) server_wire \<Rightarrow> 'ej + 'b"
    and poll :: "'d \<Rightarrow> 'i"
    and sig_of :: "'t \<Rightarrow> 'd \<Rightarrow> 'g"
    and last_sig :: "'t \<Rightarrow> 'g"
    and snap :: "'t \<Rightarrow> 'd \<Rightarrow> 'e + 's"
    and seq_of :: "'t \<Rightarrow> u64"
  assumes poll_continues: "body t x = Continue t' \<Longrightarrow> t' = t \<and> (\<exists>d. x = poll d \<and> sig_of t d = last_sig t)"
    and poll_frame: "body t x = Return (Frame b) t' \<Longrightarrow>
      \<exists>d s. x = poll d \<and> sig_of t d \<noteq> last_sig t \<and> snap t d = Inr s \<and> enc (Snapshot (seq_of t) s) = Inr b \<and>
        last_sig t' = sig_of t d \<and> seq_of t' = seq_of t + 1"
    and poll_same: "sig_of t d = last_sig t \<Longrightarrow> body t (poll d) = Continue t"
begin

lemma loop_frame_poll:
  "recv_loop body t ins = (Frame b, t', rest) \<Longrightarrow>
     \<exists>skipped d s. ins = map poll skipped @ poll d # rest \<and> (\<forall>u \<in> set skipped. sig_of t u = last_sig t) \<and>
       sig_of t d \<noteq> last_sig t \<and> snap t d = Inr s \<and> enc (Snapshot (seq_of t) s) = Inr b \<and>
       last_sig t' = sig_of t d \<and> seq_of t' = seq_of t + 1"
proof (induction ins)
  case (Cons x ins)
  show ?case
  proof (cases "body t x")
    case (Continue t1)
    with poll_continues obtain d0 where d0: "t1 = t" "x = poll d0" "sig_of t d0 = last_sig t" by blast
    with Continue Cons obtain skipped d s where "ins = map poll skipped @ poll d # rest"
      "\<forall>u \<in> set skipped. sig_of t u = last_sig t" "sig_of t d \<noteq> last_sig t" "snap t d = Inr s"
      "enc (Snapshot (seq_of t) s) = Inr b" "last_sig t' = sig_of t d" "seq_of t' = seq_of t + 1"
      by auto
    with d0 show ?thesis by (intro exI [of _ "d0 # skipped"] exI [of _ d] exI [of _ s]) simp
  next
    case (Return r t1)
    with Cons.prems poll_frame [of t x b t'] obtain d s where "x = poll d" "sig_of t d \<noteq> last_sig t" "snap t d = Inr s"
      "enc (Snapshot (seq_of t) s) = Inr b" "last_sig t' = sig_of t d" "seq_of t' = seq_of t + 1"
      by auto
    with Return Cons.prems show ?thesis by (intro exI [of _ "[]"] exI [of _ d] exI [of _ s]) simp
  qed
qed simp

lemma loop_unchanged: "\<forall>u \<in> set us. sig_of t u = last_sig t \<Longrightarrow> recv_loop body t (map poll us) = (Pending, t, [])"
  by (induction us) (simp_all add: poll_same)

end

interpretation sq: signature_poll "sq_turn J N lossy Q enc" enc SqPoll "\<lambda>t db. read_signature Q db (sq_table t)"
    sq_last_signature "\<lambda>t db. sq_current_snapshot J N lossy Q db (sq_path t) (sq_table t) (sq_schema t)" sq_seq
proof (unfold_locales, goal_cases)
  case (1 t x t')
  then show ?case by (cases x) (auto simp: Let_def split: if_splits sum.splits)
next
  case (2 t x b t')
  then show ?case by (cases x) (auto simp: Let_def split: if_splits sum.splits)
qed simp

text \<open>C39: when a table room delivers a snapshot it is of the first polled database whose signature,
  the number of rows and the largest row id, is not the last one seen, with the transport's
  number; every database polled before it had the signature seen last. So changes that keep the
  signature, such as updates of rows in place or a deletion with an insertion in its stead, are
  never delivered while they are the only ones: then every poll leaves the room waiting.\<close>

theorem sqlite_change_detection:
  fixes Q :: "('db, 'f, 'se) sqlite_ops"
  assumes "sq_recv J N lossy Q enc t ins = (Frame b :: (('se, 'cj) sq_error, _) polled, t', rest)" and "round_trips enc dec"
  shows "(\<exists>skipped db s. ins = map SqPoll skipped @ SqPoll db # rest \<and>
      (\<forall>u \<in> set skipped. read_signature Q u (sq_table t) = sq_last_signature t) \<and>
      read_signature Q db (sq_table t) \<noteq> sq_last_signature t \<and>
      sq_current_snapshot J N lossy Q db (sq_path t) (sq_table t) (sq_schema t) = (Inr s :: ('se, 'cj) sq_error + _) \<and>
      dec b = Inr (Snapshot (sq_seq t) s) \<and>
      sq_last_signature t' = read_signature Q db (sq_table t) \<and> sq_seq t' = sq_seq t + 1) \<and>
    ((\<forall>u \<in> set us. read_signature Q u (sq_table t') = sq_last_signature t') \<longrightarrow>
      sq_recv J N lossy Q enc t' (map SqPoll us) = (Pending, t', []))"
  using sq.loop_frame_poll [OF assms(1) [unfolded sq_recv_def]] sq.loop_unchanged [where t = t' and us = us and enc = enc] assms(2)
  unfolding sq_recv_def by (blast dest: round_tripsD)

text \<open>A database that is one table of single integers.\<close>

definition demo_sqlite :: "(int list, unit, unit) sqlite_ops" where
  "demo_sqlite =
     \<lparr>sql_execute = (\<lambda>_ _ db. (Inr (), db)),
      sql_query = (\<lambda>sql db. if sql = select_signature ''t''
         then Inr ([''n'', ''m''], [[SqlInteger (int (length db)), SqlInteger (int (length db))]])
         else Inr ([''v''], map (\<lambda>v. [SqlInteger v]) db)),
      sql_batch = (\<lambda>_ db. (Inr (), db)), sql_get_string = (\<lambda>_ _. Inr [])\<rparr>"

definition demo_table :: sq_transport where
  "demo_table = \<lparr>sq_path = [], sq_table = ''t'', sq_schema = [], sq_seq = 4, sq_last_signature = (1, 1)\<rparr>"

lemma demo_signature: "read_signature demo_sqlite db ''t'' = (int (length db), int (length db))"
  by (simp add: read_signature_def demo_sqlite_def)

theorem sqlite_change_detection_witness:
  "\<exists>b t'. sq_recv value_json demo_numbers id demo_sqlite
        (Inr :: (json, json sq_snapshot) server_wire \<Rightarrow> unit + (json, json sq_snapshot) server_wire)
        demo_table [SqPoll [8], SqPoll [8, 9]] = (Frame b :: ((unit, unit) sq_error, _) polled, t', []) \<and>
     (\<exists>s. b = Snapshot 4 s) \<and> sq_last_signature t' = (2, 2)"
proof -
  have other: "select_all ''t'' \<noteq> select_signature ''t''"
    by (simp add: select_all_def select_signature_def)
  obtain b t' where run: "sq_recv value_json demo_numbers id demo_sqlite
        (Inr :: (json, json sq_snapshot) server_wire \<Rightarrow> unit + (json, json sq_snapshot) server_wire)
        demo_table [SqPoll [8], SqPoll [8, 9]] = (Frame b :: ((unit, unit) sq_error, _) polled, t', [])"
    by (simp add: sq_recv_def demo_table_def demo_signature sq_current_snapshot_def read_rows_def)
      (simp add: demo_sqlite_def other emit_def)
  have rt: "round_trips (Inr :: (json, json sq_snapshot) server_wire \<Rightarrow> unit + (json, json sq_snapshot) server_wire) Inr"
    by (simp add: round_trips_def)
  obtain skipped db s where d: "[SqPoll [8], SqPoll [8, 9]] = map SqPoll skipped @ SqPoll db # []"
      "Inr b = (Inr (Snapshot (sq_seq demo_table) s) :: unit + _)"
      "sq_last_signature t' = read_signature demo_sqlite db (sq_table demo_table)"
    using conjunct1 [OF sqlite_change_detection [OF run rt]] by blast
  then have "db = [8, 9]" by (cases skipped rule: rev_cases) auto
  with d have ex: "\<exists>s. b = Snapshot 4 s" and sig: "sq_last_signature t' = (2, 2)"
    by (auto simp: demo_signature demo_table_def)
  show ?thesis by (rule exI [of _ b], rule exI [of _ t']) (intro conjI run ex sig)
qed

end
