(* ===== verification/Sqlite_Chat.thy ===== *)
theory Sqlite_Chat
  imports Sqlite
begin

section \<open>The SQLite connector: chat log mode\<close>

text \<open>
  \<^verbatim>\<open>crates/connectors/interconnect-connector-sqlite/src/chat.rs\<close>: the configuration of the
  columns with the table definition built from it, path extraction, and the transport that
  polls the \<^verbatim>\<open>messages\<close> table. The source has its own copies of the value conversions, which
  are those of \<open>Sqlite\<close>.
\<close>

datatype col_type = ColText | ColInteger | ColReal | ColBoolean | ColJson | ColBlob

fun as_sql_type :: "col_type \<Rightarrow> string" where
  "as_sql_type ColText = ''TEXT''"
| "as_sql_type ColInteger = ''INTEGER''"
| "as_sql_type ColReal = ''REAL''"
| "as_sql_type ColBoolean = ''INTEGER''"
| "as_sql_type ColJson = ''TEXT''"
| "as_sql_type ColBlob = ''BLOB''"

record column_mapping =
  cm_path :: string
  cm_col_type :: col_type
  cm_primary_key :: bool
  cm_nullable :: bool

text \<open>A hash map of columns, in one order of its iteration.\<close>

type_synonym chat_log_config = "(string \<times> column_mapping) list"

definition mapping :: "string \<Rightarrow> col_type \<Rightarrow> bool \<Rightarrow> bool \<Rightarrow> column_mapping" where
  "mapping path ty key null = \<lparr>cm_path = path, cm_col_type = ty, cm_primary_key = key, cm_nullable = null\<rparr>"

definition chat_default :: chat_log_config where
  "chat_default =
     fold (\<lambda>(name, m) cols. AList.update name m cols)
       [(''id'', mapping ''id'' ColText True False),
        (''author'', mapping ''author'' ColText False False),
        (''channel'', mapping ''channel'' ColText False True),
        (''server'', mapping ''server'' ColText False True),
        (''text'', mapping ''text'' ColText False False),
        (''timestamp'', mapping ''timestamp'' ColInteger False False),
        (''platform'', mapping ''platform'' ColText True False),
        (''raw'', mapping ''*'' ColJson False True)] []"

subsection \<open>The table definition\<close>

definition pk_cols :: "chat_log_config \<Rightarrow> string list" where
  "pk_cols cols = sort (map fst (filter (\<lambda>(_, m). cm_primary_key m) cols))"

definition non_pk_cols :: "chat_log_config \<Rightarrow> string list" where
  "non_pk_cols cols = sort (map fst (filter (\<lambda>(_, m). \<not> cm_primary_key m) cols))"

text \<open>One column; the look-up panics for a name that is not in the map, which no caller has.\<close>

definition column_def :: "chat_log_config \<Rightarrow> string \<Rightarrow> string outcome" where
  "column_def cols name =
     (case map_of cols name of
        None \<Rightarrow> Panic
      | Some m \<Rightarrow>
          Done (''    '' @ name @ '' '' @ as_sql_type (cm_col_type m) @
            (if \<not> cm_nullable m \<and> \<not> cm_primary_key m then '' NOT NULL'' else [])))"

fun column_defs :: "chat_log_config \<Rightarrow> string list \<Rightarrow> string list outcome" where
  "column_defs cols [] = Done []"
| "column_defs cols (n # ns) =
     bind_outcome (column_def cols n) (\<lambda>d. bind_outcome (column_defs cols ns) (\<lambda>ds. Done (d # ds)))"

definition newline :: string where
  "newline = [CHR 0x0A]"

definition build_ddl :: "chat_log_config \<Rightarrow> string outcome" where
  "build_ddl cols =
     bind_outcome (column_defs cols (pk_cols cols @ non_pk_cols cols)) (\<lambda>ds.
       let defs = (if pk_cols cols \<noteq> []
                   then ds @ [''    PRIMARY KEY ('' @ column_list (pk_cols cols) @ '')''] else ds)
       in Done (''CREATE TABLE IF NOT EXISTS messages ('' @ newline @ join ('','' @ newline) defs @ newline @ '')''))"

subsection \<open>Path extraction\<close>

fun walk_path :: "'j json_ops \<Rightarrow> 'j \<Rightarrow> string list \<Rightarrow> 'j" where
  "walk_path J v [] = v"
| "walk_path J v (k # ks) = (case j_get J v k of Some x \<Rightarrow> walk_path J x ks | None \<Rightarrow> j_null J)"

definition extract_path :: "'j json_ops \<Rightarrow> 'j \<Rightarrow> string \<Rightarrow> 'j" where
  "extract_path J snapshot path =
     (if path = ''*'' then j_str J (j_text J snapshot) else walk_path J snapshot (split_on (CHR ''.'') path))"

subsection \<open>Values and reading\<close>

text \<open>The module has its own copies of the conversions and of the two queries.\<close>

fun ch_value_ref_to_json :: "'j json_ops \<Rightarrow> ('j, 'f) number_ops \<Rightarrow> (string \<Rightarrow> string) \<Rightarrow> 'f sql_value \<Rightarrow> 'j" where
  "ch_value_ref_to_json J N lossy SqlNull = j_null J"
| "ch_value_ref_to_json J N lossy (SqlInteger i) = j_int J i"
| "ch_value_ref_to_json J N lossy (SqlReal f) = num_of_f64 N f"
| "ch_value_ref_to_json J N lossy (SqlText t) = j_str J (lossy t)"
| "ch_value_ref_to_json J N lossy (SqlBlob b) = j_str J (''0x'' @ concat (map (\<lambda>byte. hex_padded 2 (unat byte)) b))"

definition ch_json_to_sql :: "'j json_ops \<Rightarrow> ('j, 'f) number_ops \<Rightarrow> 'j \<Rightarrow> 'f sql_value" where
  "ch_json_to_sql J N v =
     (if v = j_null J then SqlNull
      else case j_as_bool J v of
        Some b \<Rightarrow> SqlInteger (of_bool b)
      | None \<Rightarrow>
          if num_is N v then
            (case j_as_i64 J v of
               Some i \<Rightarrow> SqlInteger i
             | None \<Rightarrow> (case num_as_f64 N v of Some f \<Rightarrow> SqlReal f | None \<Rightarrow> SqlNull))
          else (case j_as_str J v of Some s \<Rightarrow> SqlText s | None \<Rightarrow> SqlText (j_text J v)))"

definition ch_read_signature :: "('db, 'f, 'se) sqlite_ops \<Rightarrow> 'db \<Rightarrow> int \<times> int" where
  "ch_read_signature Q db =
     (case sql_query Q (''SELECT COUNT(*), COALESCE(MAX(rowid), 0) FROM '' @ dq ''messages'') db of
        Inr (_, [SqlInteger n, SqlInteger m] # _) \<Rightarrow> (n, m)
      | _ \<Rightarrow> (0, 0))"

definition ch_read_all_rows ::
  "'j json_ops \<Rightarrow> ('j, 'f) number_ops \<Rightarrow> (string \<Rightarrow> string) \<Rightarrow> ('db, 'f, 'se) sqlite_ops \<Rightarrow> 'db
    \<Rightarrow> ('se, 'cj) sq_error + 'j row list" where
  "ch_read_all_rows J N lossy Q db =
     (case sql_query Q (''SELECT * FROM '' @ dq ''messages'') db of
        Inl e \<Rightarrow> Inl (SqRusqlite e)
      | Inr (names, rows) \<Rightarrow>
          Inr (map (\<lambda>vals. fold (\<lambda>(name, v) m. AList.update name (ch_value_ref_to_json J N lossy v) m) (zip names vals) []) rows))"

text \<open>They are those of the table mode on the table \<open>messages\<close>.\<close>

lemma ch_copies [simp]:
  "ch_value_ref_to_json J N lossy v = value_ref_to_json J N lossy v"
  "ch_json_to_sql J N w = json_to_sql J N w"
  "ch_read_signature Q db = read_signature Q db ''messages''"
  "ch_read_all_rows J N lossy Q db = read_rows J N lossy Q db ''messages''"
proof -
  show v: "ch_value_ref_to_json J N lossy v = value_ref_to_json J N lossy v" for v
    by (cases v) (simp_all add: blob_text_def)
  show "ch_json_to_sql J N w = json_to_sql J N w"
    by (simp add: ch_json_to_sql_def json_to_sql_def)
  show "ch_read_signature Q db = read_signature Q db ''messages''"
    by (simp add: ch_read_signature_def read_signature_def select_signature_def)
  show "ch_read_all_rows J N lossy Q db = read_rows J N lossy Q db ''messages''"
    by (simp add: ch_read_all_rows_def read_rows_def select_all_def build_row_def [abs_def] v split: sum.split)
qed

subsection \<open>The transport\<close>

record 'j ch_snapshot =
  ch_snap_path :: string
  ch_snap_rows :: "'j row list"

datatype 'j ch_intent = ChInsert "'j row" | ChExecute string "'j list"

record ch_transport =
  ch_path :: string
  ch_config :: chat_log_config
  ch_seq :: u64
  ch_last_signature :: "int \<times> int"

fun ch_intent_fields :: "'j json_ops \<Rightarrow> 'j ch_intent \<Rightarrow> (string \<times> 'j) list" where
  "ch_intent_fields J (ChInsert values) = tagged J ''insert'' [(''values'', j_obj J values)]"
| "ch_intent_fields J (ChExecute sql params) =
     tagged J ''execute'' [(''sql'', j_str J sql), (''params'', j_arr J params)]"

text \<open>An insert takes the columns that the intent names; the configuration is not asked.\<close>

fun ch_statement ::
  "'j json_ops \<Rightarrow> ('j, 'f) number_ops \<Rightarrow> 'j ch_intent \<Rightarrow> (string \<times> 'f sql_value list) option" where
  "ch_statement J N (ChInsert values) =
     (if values = [] then None
      else (let cols = map fst values
            in Some (insert_sql ''INSERT OR REPLACE'' ''messages'' cols,
              map (\<lambda>c. ch_json_to_sql J N (case map_of values c of Some v \<Rightarrow> v | None \<Rightarrow> j_null J)) cols)))"
| "ch_statement J N (ChExecute sql params) = Some (sql, map (ch_json_to_sql J N) params)"

definition ch_send ::
  "'j json_ops \<Rightarrow> ('j, 'f) number_ops \<Rightarrow> ('db, 'f, 'se) sqlite_ops \<Rightarrow> ('b \<Rightarrow> 'cj + 'j ch_intent client_wire)
    \<Rightarrow> ch_transport \<Rightarrow> 'db \<Rightarrow> 'b \<Rightarrow> (('se, 'cj) sq_error + unit) \<times> 'db" where
  "ch_send J N Q dec t db data =
     (case dec data of
        Inl e \<Rightarrow> (Inl (SqJson e), db)
      | Inr (Intent i) \<Rightarrow>
          (case ch_statement J N i of
             None \<Rightarrow> (Inr (), db)
           | Some (sql, params) \<Rightarrow>
               (case sql_execute Q sql params db of
                  (Inl e, db') \<Rightarrow> (Inl (SqRusqlite e), db')
                | (Inr u, db') \<Rightarrow> (Inr u, db')))
      | Inr _ \<Rightarrow> (Inr (), db))"

definition ch_current_snapshot ::
  "'j json_ops \<Rightarrow> ('j, 'f) number_ops \<Rightarrow> (string \<Rightarrow> string) \<Rightarrow> ('db, 'f, 'se) sqlite_ops \<Rightarrow> string \<Rightarrow> 'db
    \<Rightarrow> ('se, 'cj) sq_error + 'j ch_snapshot" where
  "ch_current_snapshot J N lossy Q path db =
     (case ch_read_all_rows J N lossy Q db of
        Inl e \<Rightarrow> Inl e
      | Inr rows \<Rightarrow> Inr \<lparr>ch_snap_path = lossy path, ch_snap_rows = rows\<rparr>)"

fun ch_turn ::
  "'j json_ops \<Rightarrow> ('j, 'f) number_ops \<Rightarrow> (string \<Rightarrow> string) \<Rightarrow> ('db, 'f, 'se) sqlite_ops
    \<Rightarrow> (('j, 'j ch_snapshot) server_wire \<Rightarrow> 'cj + 'b) \<Rightarrow> ch_transport \<Rightarrow> 'db sq_item
    \<Rightarrow> (('se, 'cj) sq_error, 'b, ch_transport) turn" where
  "ch_turn J N lossy Q enc t (SqPanicked e) = Return (Failed (SqOther e)) t"
| "ch_turn J N lossy Q enc t (SqPoll db) =
     (let sig = ch_read_signature Q db in
      if sig = ch_last_signature t then Continue t
      else (case ch_current_snapshot J N lossy Q (ch_path t) db of
              Inl e \<Rightarrow> Return (Failed e) t
            | Inr snapshot \<Rightarrow>
                Return (emit enc SqJson (Snapshot (ch_seq t) snapshot))
                  (t\<lparr>ch_last_signature := sig, ch_seq := ch_seq t + 1\<rparr>)))"

definition ch_recv where
  "ch_recv J N lossy Q enc = recv_loop (ch_turn J N lossy Q enc)"

definition ch_connect ::
  "'j json_ops \<Rightarrow> ('j, 'f) number_ops \<Rightarrow> (string \<Rightarrow> string) \<Rightarrow> ('db, 'f, 'se) sqlite_ops
    \<Rightarrow> (string \<Rightarrow> 'se + 'db) \<Rightarrow> string \<Rightarrow> chat_log_config
    \<Rightarrow> (('se, 'cj) sq_error + ((ch_transport, 'j) connection \<times> 'j ch_snapshot)) outcome" where
  "ch_connect J N lossy Q open_db path config =
     bind_outcome (build_ddl config) (\<lambda>ddl.
       Done (case open_db path of
               Inl e \<Rightarrow> Inl (SqRusqlite e)
             | Inr db \<Rightarrow>
                 (case sql_batch Q ddl db of
                    (Inl e, _) \<Rightarrow> Inl (SqRusqlite e)
                  | (Inr _, db1) \<Rightarrow>
                      (let sig = ch_read_signature Q db1 in
                       case ch_current_snapshot J N lossy Q path db1 of
                         Inl e \<Rightarrow> Inl e
                       | Inr snapshot \<Rightarrow>
                           Inr (established
                             \<lparr>ch_path = path, ch_config = config, ch_seq = 0, ch_last_signature = sig\<rparr>
                             (sq_manifest J ''sqlite_chat'' (lossy path) ''messages''), snapshot)))))"

interpretation ch: signature_poll "ch_turn J N lossy Q enc" enc SqPoll "\<lambda>_ db. read_signature Q db ''messages''"
    ch_last_signature "\<lambda>t db. ch_current_snapshot J N lossy Q (ch_path t) db" ch_seq
proof (unfold_locales, goal_cases)
  case (1 t x t')
  then show ?case by (cases x) (auto simp: Let_def split: if_splits sum.splits)
next
  case (2 t x b t')
  then show ?case by (cases x) (auto simp: Let_def split: if_splits sum.splits)
qed simp

subsection \<open>The table definition does not depend on the iteration order\<close>

lemma names_of_map:
  assumes "map_inv cols"
  shows "distinct (map fst (filter P cols)) \<and>
    set (map fst (filter P cols)) = {n. \<exists>m. map_of cols n = Some m \<and> P (n, m)}"
proof
  show "distinct (map fst (filter P cols))"
    using assms by (induction cols) (auto simp: map_inv_def)
  show "set (map fst (filter P cols)) = {n. \<exists>m. map_of cols n = Some m \<and> P (n, m)}"
    using assms by (force simp: map_inv_def image_iff)
qed

lemma sort_names_eq:
  assumes "map_inv a" and "map_inv b" and "map_of a = map_of b"
  shows "sort (map fst (filter P a)) = sort (map fst (filter P b))"
  using names_of_map [OF assms(1), of P] names_of_map [OF assms(2), of P] assms(3)
  by (intro sorted_distinct_set_unique) (simp_all add: distinct_sort)

lemma column_defs_cong: "map_of a = map_of b \<Longrightarrow> column_defs a ns = column_defs b ns"
  by (induction ns) (simp_all add: column_def_def)

lemma column_defs_Done: "set ns \<subseteq> dom (map_of cols) \<Longrightarrow> \<exists>ds. column_defs cols ns = Done ds \<and> length ds = length ns"
  by (induction ns) (auto simp: column_def_def)

text \<open>C29: building the table definition never panics, and two iteration orders of the same hash map
  of columns give the same definition. It has one line for every column of the configuration:
  the key columns first, then the others, each group in the order of the names; and one more
  for the primary key when there is a key column.\<close>

theorem ddl_order_independent:
  assumes "map_inv a" and "map_inv b" and "map_of a = map_of b"
  shows "build_ddl a = build_ddl b \<and>
    (\<exists>ds. column_defs a (pk_cols a @ non_pk_cols a) = Done ds \<and> length ds = length a \<and>
       build_ddl a = Done (''CREATE TABLE IF NOT EXISTS messages ('' @ newline @
         join ('','' @ newline)
           (ds @ (if pk_cols a = [] then [] else [''    PRIMARY KEY ('' @ column_list (pk_cols a) @ '')''])) @
         newline @ '')'')) \<and>
    sorted (pk_cols a) \<and> sorted (non_pk_cols a) \<and> distinct (pk_cols a @ non_pk_cols a) \<and>
    set (pk_cols a @ non_pk_cols a) = dom (map_of a)"
proof -
  have p: "pk_cols a = pk_cols b" "non_pk_cols a = non_pk_cols b"
    unfolding pk_cols_def non_pk_cols_def by (rule sort_names_eq [OF assms])+
  have d: "distinct (pk_cols a @ non_pk_cols a)" and s: "set (pk_cols a @ non_pk_cols a) = dom (map_of a)"
    using names_of_map [OF assms(1), of "\<lambda>(_, m). cm_primary_key m"]
      names_of_map [OF assms(1), of "\<lambda>(_, m). \<not> cm_primary_key m"]
    by (auto simp: pk_cols_def non_pk_cols_def)
  have len: "length (pk_cols a @ non_pk_cols a) = length a"
    by (simp add: pk_cols_def non_pk_cols_def sum_length_filter_compl case_prod_unfold)
  obtain ds where ds: "column_defs a (pk_cols a @ non_pk_cols a) = Done ds" "length ds = length a"
    using column_defs_Done [of "pk_cols a @ non_pk_cols a" a] s len by auto
  have eq: "build_ddl a = build_ddl b"
    by (simp only: build_ddl_def p column_defs_cong [OF assms(3)])
  have out: "build_ddl a = Done (''CREATE TABLE IF NOT EXISTS messages ('' @ newline @
         join ('','' @ newline)
           (ds @ (if pk_cols a = [] then [] else [''    PRIMARY KEY ('' @ column_list (pk_cols a) @ '')''])) @
         newline @ '')'')"
    using ds(1) by (cases "pk_cols a = []") (simp_all add: build_ddl_def Let_def)
  have srt: "sorted (pk_cols a)" "sorted (non_pk_cols a)"
    by (simp_all add: pk_cols_def non_pk_cols_def)
  show ?thesis
    by (intro conjI exI [of _ ds] eq ds out srt d s)
qed

theorem ddl_order_independent_witness:
  "build_ddl [(''b'', mapping ''b'' ColReal False True), (''a'', mapping ''*'' ColJson True False)] =
   build_ddl [(''a'', mapping ''*'' ColJson True False), (''b'', mapping ''b'' ColReal False True)]"
proof -
  have "map_inv [(''b'', mapping ''b'' ColReal False True), (''a'', mapping ''*'' ColJson True False)]"
    "map_inv [(''a'', mapping ''*'' ColJson True False), (''b'', mapping ''b'' ColReal False True)]"
    "map_of [(''b'', mapping ''b'' ColReal False True), (''a'', mapping ''*'' ColJson True False)] =
     map_of [(''a'', mapping ''*'' ColJson True False), (''b'', mapping ''b'' ColReal False True)]"
    by (auto simp: map_inv_def fun_eq_iff)
  from ddl_order_independent [OF this] show ?thesis ..
qed

end
