(* ===== verification/Connector_Rooms.thy ===== *)
theory Connector_Rooms
  imports Room_Select Irc Telegram Zulip Maillist Github Matrix Signal Discord Slack Whatsapp Fs Sqlite_Chat
    "HOL-Library.Sublist"
begin

section \<open>The connectors inside the daemon's room tasks\<close>

text \<open>
  Each connector's \<^verbatim>\<open>impl Transport\<close> as the record of operations that the connection of a room
  task uses, and where its \<^verbatim>\<open>recv\<close> awaits something after it has taken an item from its
  environment: an IRC room while it answers a PING, a Slack room while it acknowledges an
  envelope and while it looks up the author's name, a file system room while it walks the
  directory. The other loops only await the next item. Then: what the rooms keep when the
  \<^verbatim>\<open>select!\<close> of their task drops a receive, and what becomes of intents when the decoder refuses
  objects with a repeated member.
\<close>

subsection \<open>The operations\<close>

definition irc_ops where
  "irc_ops wr dec enc = \<lparr>t_send = irc_send wr dec, t_recv = irc_recv wr enc\<rparr>"

definition tg_ops where
  "tg_ops J post dec enc = \<lparr>t_send = tg_send J post dec, t_recv = tg_recv J enc\<rparr>"

definition zulip_ops where
  "zulip_ops J post_form dec enc = \<lparr>t_send = zulip_send post_form dec, t_recv = zulip_recv J enc\<rparr>"

definition mail_ops where
  "mail_ops J post put dec enc = \<lparr>t_send = mail_send J post put dec, t_recv = mail_recv enc\<rparr>"

definition github_ops where
  "github_ops J post patch dec enc = \<lparr>t_send = github_send J post patch dec, t_recv = github_recv enc\<rparr>"

definition mx_ops where
  "mx_ops J put dec enc = \<lparr>t_send = mx_send J put dec, t_recv = mx_recv J enc\<rparr>"

definition dc_ops where
  "dc_ops create_message create_reaction dec enc =
     \<lparr>t_send = dc_send create_message create_reaction dec, t_recv = dc_recv enc\<rparr>"

definition sl_ops where
  "sl_ops J dec_env dec_payload post dec enc =
     \<lparr>t_send = sl_send J post dec, t_recv = sl_recv J dec_env dec_payload enc\<rparr>"

text \<open>The counter of Signal's requests belongs to the process: all its rooms draw from it, so \<open>ids\<close>
  stands for the number that a send gets.\<close>

definition sg_ops where
  "sg_ops J wr ids parse dec enc =
     \<lparr>t_send = (\<lambda>t data. case sg_send J wr dec (ids t) t data of (r, _, t') \<Rightarrow> (r, t')),
      t_recv = sg_recv J parse enc\<rparr>"

text \<open>The transports of files and databases, with the file system or the database beside them.\<close>

definition fs_ops where
  "fs_ops F lossy dec enc =
     \<lparr>t_send = (\<lambda>(t, fs) data. case fs_send F dec t fs data of (r, fs') \<Rightarrow> (r, (t, fs'))),
      t_recv = (\<lambda>(t, fs) ins. case fs_recv lossy enc t ins of (r, t', rest) \<Rightarrow> (r, (t', fs), rest))\<rparr>"

definition sq_ops where
  "sq_ops J N lossy Q dec enc =
     \<lparr>t_send = (\<lambda>(t, db) data. case sq_send J N Q dec t db data of (r, db') \<Rightarrow> (r, (t, db'))),
      t_recv = (\<lambda>(t, db) ins. case sq_recv J N lossy Q enc t ins of (r, t', rest) \<Rightarrow> (r, (t', db), rest))\<rparr>"

definition ch_ops where
  "ch_ops J N lossy Q dec enc =
     \<lparr>t_send = (\<lambda>(t, db) data. case ch_send J N Q dec t db data of (r, db') \<Rightarrow> (r, (t, db'))),
      t_recv = (\<lambda>(t, db) ins. case ch_recv J N lossy Q enc t ins of (r, t', rest) \<Rightarrow> (r, (t', db), rest))\<rparr>"

lemmas connector_ops_defs =
  irc_ops_def tg_ops_def zulip_ops_def mail_ops_def github_ops_def mx_ops_def dc_ops_def sl_ops_def sg_ops_def
  fs_ops_def sq_ops_def ch_ops_def wa_ops_def

subsection \<open>Where a receive can be dropped\<close>

text \<open>Writing the answer to a PING can have written any part of it.\<close>

fun irc_mid :: "irc_transport \<Rightarrow> 'io irc_item \<Rightarrow> irc_transport list" where
  "irc_mid t (IrcLine line now) =
     (case irc_classify (irc_channel t) (trim_end (CHR 0x0D) line) of
        IrcPing rest \<Rightarrow>
          (let out = ''PONG '' @ rest @ crlf
           in map (\<lambda>k. t\<lparr>irc_writer := irc_writer t @ [take k out]\<rparr>) [0..<length out])
      | _ \<Rightarrow> [])"
| "irc_mid t _ = []"

text \<open>The acknowledgement can be in the socket's buffer or not; the look-up follows it.\<close>

fun sl_mid ::
  "'j json_ops \<Rightarrow> (string \<Rightarrow> 'j socket_envelope option) \<Rightarrow> ('j \<Rightarrow> 'j option option) \<Rightarrow> sl_transport
    \<Rightarrow> ('j, 'he, 'we) sl_item \<Rightarrow> sl_transport list" where
  "sl_mid J dec_env dec_payload t (SlText text ack_outcome user_reply) =
     (case dec_env text of
        None \<Rightarrow> []
      | Some env \<Rightarrow>
          (case (case env_id env of None \<Rightarrow> (Inr () :: 'we + unit, t, [])
                 | Some eid \<Rightarrow>
                     (let t1 = t\<lparr>sl_sent := sl_sent t @ [sl_ack_text J eid]\<rparr> in (ack_outcome, t1, [t, t1]))) of
             (Inl _, _, acking) \<Rightarrow> acking
           | (Inr _, t1, acking) \<Rightarrow>
               acking @
               (case sl_event_message J dec_payload (sl_channel_id t1) user_reply env of
                  None \<Rightarrow> []
                | Some m \<Rightarrow> if sl_user_id m \<noteq> [] then [t1] else [])))"
| "sl_mid J dec_env dec_payload t _ = []"

fun fs_mid :: "fs_transport \<Rightarrow> ('te, 'we) fs_item \<Rightarrow> fs_transport list" where
  "fs_mid t (FsEvent kind walked) = (if relevant kind then [t] else [])"
| "fs_mid t FsWatcherGone = []"

definition no_mid :: "'t \<Rightarrow> 'i \<Rightarrow> 't list" where
  "no_mid t x = []"

lemma no_mid_in [simp]: "m \<in> set (no_mid t x) \<longleftrightarrow> False"
  by (simp add: no_mid_def)

subsection \<open>The histories under drops and sends\<close>

lemma irc_send_keeps:
  "irc_messages (snd (irc_send wr dec t data)) = irc_messages t \<and> irc_channel (snd (irc_send wr dec t data)) = irc_channel t"
proof (cases "\<exists>text. dec data = Inr (Intent (IrcSendMessage text))")
  case True
  then obtain x where x: "dec data = Inr (Intent (IrcSendMessage x))" by blast
  obtain r t' where raw: "irc_send_raw wr t (''PRIVMSG '' @ irc_channel t @ '' :'' @ x) = (r, t')" by fastforce
  with x irc_send_raw_keeps [OF raw] show ?thesis by (cases r) (simp_all add: irc_send_def)
next
  case False
  then have "snd (irc_send wr dec t data) = t"
    by (simp add: irc_send_def split: sum.split client_wire.split irc_intent.split)
  then show ?thesis by simp
qed

lemma irc_mid_keeps:
  assumes "m \<in> set (irc_mid t x)"
  shows "irc_messages m = irc_messages t \<and> irc_channel m = irc_channel t \<and> irc_accept t x = []"
proof (cases x)
  case (IrcLine line now)
  with assms show ?thesis
    by (cases "irc_classify (irc_channel t) (trim_end (CHR 0x0D) line)") (auto simp: Let_def)
qed (use assms in simp_all)

interpretation irc_dropped:
  droppable_room "irc_turn wr enc" irc_messages irc_accept irc_max_messages irc_mid "irc_send wr dec" "(=)"
proof unfold_locales
  fix m t x
  assume "m \<in> set (irc_mid t x)"
  from irc_mid_keeps [OF this] irc_accept_channel [of m t]
  show "irc_messages m = irc_messages t \<and> irc_accept m = irc_accept t \<and> [] = irc_accept t x" by simp
next
  fix t data
  show "irc_messages (snd (irc_send wr dec t data)) = irc_messages t \<and>
      irc_accept (snd (irc_send wr dec t data)) = irc_accept t"
    using irc_send_keeps [of wr dec t data] irc_accept_channel [of "snd (irc_send wr dec t data)" t] by simp
qed simp_all

interpretation tg_dropped:
  droppable_room "tg_turn J (\<lambda>w. Inr (f w) :: 'cj + 'b)" tg_messages "tg_accept J" tg_max_messages no_mid "tg_send J post dec" "(=)"
  by unfold_locales (auto simp: tg_send_def tg_accept_def fun_eq_iff Let_def split: sum.splits client_wire.splits tg_intent.splits)

lemma zulip_send_keeps:
  "zu_messages (snd (zulip_send post_form dec t data)) = zu_messages t \<and>
   zu_topic (snd (zulip_send post_form dec t data)) = zu_topic t \<and>
   zu_stream (snd (zulip_send post_form dec t data)) = zu_stream t"
  by (auto simp: zulip_send_def Let_def split: sum.splits client_wire.splits zulip_intent.splits)

lemma zulip_accept_cong:
  assumes "zu_topic t' = zu_topic t" and "zu_stream t' = zu_stream t"
  shows "zulip_accept J t' = zulip_accept J t"
  using zulip_matching_cong [of t' t J] assms by (simp add: zulip_accept_def fun_eq_iff split: sum.splits)

interpretation zulip_dropped:
  droppable_room "zulip_turn J enc" zu_messages "zulip_accept J" zulip_max_messages no_mid "zulip_send post_form dec" "(=)"
proof unfold_locales
  fix t data
  show "zu_messages (snd (zulip_send post_form dec t data)) = zu_messages t \<and>
      zulip_accept J (snd (zulip_send post_form dec t data)) = zulip_accept J t"
    by (rule conjI [OF _ zulip_accept_cong]) (simp_all add: zulip_send_keeps)
qed simp_all

lemma mx_send_keeps:
  "mx_messages (snd (mx_send J put dec t data)) = mx_messages t \<and> mx_room_id (snd (mx_send J put dec t data)) = mx_room_id t"
  by (auto simp: mx_send_def mx_next_txn_id_def Let_def split: sum.splits client_wire.splits mx_intent.splits)

lemma mx_accept_room: "mx_room_id t' = mx_room_id t \<Longrightarrow> mx_accept J t' = mx_accept J t"
  by (simp add: mx_accept_def fun_eq_iff split: sum.splits)

interpretation mx_dropped:
  droppable_room "mx_turn J enc" mx_messages "mx_accept J" mx_max_messages no_mid "mx_send J put dec" "(=)"
proof unfold_locales
  fix t data
  show "mx_messages (snd (mx_send J put dec t data)) = mx_messages t \<and>
      mx_accept J (snd (mx_send J put dec t data)) = mx_accept J t"
    using mx_send_keeps [of J put dec t data] mx_accept_room [of "snd (mx_send J put dec t data)" t J] by simp
qed simp_all

lemma sg_send_keeps:
  "sg_messages (snd (snd (sg_send J wr dec i t data))) = sg_messages t \<and>
   sg_recipient (snd (snd (sg_send J wr dec i t data))) = sg_recipient t"
  by (auto simp: sg_send_def sg_write_rpc_def Let_def split: sum.splits client_wire.splits sg_intent.splits)

lemma sg_accept_recipient: "sg_recipient t' = sg_recipient t \<Longrightarrow> sg_accept J parse t' = sg_accept J parse t"
proof (rule ext)
  fix x :: "'a sg_item"
  assume "sg_recipient t' = sg_recipient t"
  then show "sg_accept J parse t' x = sg_accept J parse t x" by (cases x) simp_all
qed

lemma t_send_sg: "snd (t_send (sg_ops J wr ids parse dec enc) t data) = snd (snd (sg_send J wr dec (ids t) t data))"
  by (simp add: sg_ops_def split: prod.split)

interpretation sg_dropped:
  droppable_room "sg_turn J parse enc" sg_messages "sg_accept J parse" sg_max_messages no_mid
    "t_send (sg_ops J wr ids parse dec enc)" "(=)"
proof unfold_locales
  fix t data
  show "sg_messages (snd (t_send (sg_ops J wr ids parse dec enc) t data)) = sg_messages t \<and>
      sg_accept J parse (snd (t_send (sg_ops J wr ids parse dec enc) t data)) = sg_accept J parse t"
    using sg_send_keeps [of J wr dec "ids t" t data]
      sg_accept_recipient [of "snd (snd (sg_send J wr dec (ids t) t data))" t J parse]
    by (simp add: t_send_sg)
qed simp_all

lemma dc_send_keeps:
  "dc_messages (snd (dc_send create_message create_reaction dec t data)) = dc_messages t \<and>
   dc_channel_id (snd (dc_send create_message create_reaction dec t data)) = dc_channel_id t \<and>
   dc_channel_name (snd (dc_send create_message create_reaction dec t data)) = dc_channel_name t"
  by (auto simp: dc_send_def Let_def split: sum.splits client_wire.splits dc_intent.splits option.splits)

interpretation dc_dropped:
  droppable_room "dc_turn enc" dc_messages dc_accept dc_max_messages no_mid "dc_send create_message create_reaction dec" "(=)"
proof unfold_locales
  fix t data
  show "dc_messages (snd (dc_send create_message create_reaction dec t data)) = dc_messages t \<and>
      dc_accept (snd (dc_send create_message create_reaction dec t data)) = dc_accept t"
    by (rule conjI [OF _ dc_accept_cong]) (simp_all add: dc_send_keeps)
qed simp_all

lemma sl_send_keeps:
  "sl_messages (snd (sl_send J post dec t data)) = sl_messages t \<and> sl_channel_id (snd (sl_send J post dec t data)) = sl_channel_id t"
  by (auto simp: sl_send_def Let_def split: sum.splits client_wire.splits sl_intent.splits)

lemma sl_mid_keeps:
  assumes "m \<in> set (sl_mid J dec_env dec_payload t x)"
  shows "sl_messages m = sl_messages t \<and> sl_channel_id m = sl_channel_id t"
  using assms by (cases x) (auto simp: Let_def split: option.splits sum.splits if_splits)

interpretation sl_dropped:
  droppable_room "sl_turn J dec_env dec_payload enc" sl_messages "sl_accept J dec_env dec_payload" sl_max_messages
    "sl_mid J dec_env dec_payload" "sl_send J post dec" subseq
proof unfold_locales
  fix m t x
  assume "m \<in> set (sl_mid J dec_env dec_payload t x)"
  from sl_mid_keeps [OF this] sl_accept_cong [of m t J dec_env dec_payload]
  show "sl_messages m = sl_messages t \<and> sl_accept J dec_env dec_payload m = sl_accept J dec_env dec_payload t \<and>
      subseq [] (sl_accept J dec_env dec_payload t x)" by simp
next
  fix t data
  show "sl_messages (snd (sl_send J post dec t data)) = sl_messages t \<and>
      sl_accept J dec_env dec_payload (snd (sl_send J post dec t data)) = sl_accept J dec_env dec_payload t"
    by (rule conjI [OF _ sl_accept_cong]) (simp_all add: sl_send_keeps)
qed (simp_all add: list_emb_append_mono)

text \<open>C11: an IRC, Telegram, Matrix, Signal or Discord room of the daemon loses no message to the
  \<^verbatim>\<open>select!\<close> of its task: after any sequence of receives, receives that an intent made the task drop
  at any of their awaits, and sends, the room's history is the window over its old messages and
  all the messages among the inputs that were used, in order. The same holds for a Zulip room
  and the messages it takes from a batch.\<close>

theorem select_rooms_lossless:
  "select_window (=) (Ri\<lparr>re_transport := irc_ops wr deci enci\<rparr>) (drop_points (irc_turn wr enci) irc_mid)
     irc_messages irc_accept irc_max_messages \<and>
   select_window (=) (Rt\<lparr>re_transport := tg_ops J post dect (\<lambda>w. Inr (f w) :: 'cj + 'b)\<rparr>)
     (drop_points (tg_turn J (\<lambda>w. Inr (f w) :: 'cj + 'b)) no_mid) tg_messages (tg_accept J) tg_max_messages \<and>
   select_window (=) (Rz\<lparr>re_transport := zulip_ops J post_form decz encz\<rparr>) (drop_points (zulip_turn J encz) no_mid)
     zu_messages (zulip_accept J) zulip_max_messages \<and>
   select_window (=) (Rm\<lparr>re_transport := mx_ops J put decm encm\<rparr>) (drop_points (mx_turn J encm) no_mid)
     mx_messages (mx_accept J) mx_max_messages \<and>
   select_window (=) (Rs\<lparr>re_transport := sg_ops J wrs ids parse decs encs\<rparr>) (drop_points (sg_turn J parse encs) no_mid)
     sg_messages (sg_accept J parse) sg_max_messages \<and>
   select_window (=) (Rd\<lparr>re_transport := (dc_ops create_message create_reaction decd encd :: (_, _, ('ge, 'he, 'be, 'cj) dc_error, _) transport_ops)\<rparr>)
     (drop_points (dc_turn encd :: _ \<Rightarrow> _ \<Rightarrow> (('ge, 'he, 'be, 'cj) dc_error, _, _) turn) no_mid)
     dc_messages dc_accept dc_max_messages"
proof (intro conjI)
  show "select_window (=) (Ri\<lparr>re_transport := irc_ops wr deci enci\<rparr>) (drop_points (irc_turn wr enci) irc_mid)
     irc_messages irc_accept irc_max_messages"
    by (rule irc_dropped.windowed) (simp add: irc_ops_def irc_recv_def)
  show "select_window (=) (Rt\<lparr>re_transport := tg_ops J post dect (\<lambda>w. Inr (f w) :: 'cj + 'b)\<rparr>)
     (drop_points (tg_turn J (\<lambda>w. Inr (f w) :: 'cj + 'b)) no_mid) tg_messages (tg_accept J) tg_max_messages"
    by (rule tg_dropped.windowed) (simp add: tg_ops_def tg_recv_def)
  show "select_window (=) (Rz\<lparr>re_transport := zulip_ops J post_form decz encz\<rparr>) (drop_points (zulip_turn J encz) no_mid)
     zu_messages (zulip_accept J) zulip_max_messages"
    by (rule zulip_dropped.windowed) (simp add: zulip_ops_def zulip_recv_def)
  show "select_window (=) (Rm\<lparr>re_transport := mx_ops J put decm encm\<rparr>) (drop_points (mx_turn J encm) no_mid)
     mx_messages (mx_accept J) mx_max_messages"
    by (rule mx_dropped.windowed) (simp add: mx_ops_def mx_recv_def)
  show "select_window (=) (Rs\<lparr>re_transport := sg_ops J wrs ids parse decs encs\<rparr>) (drop_points (sg_turn J parse encs) no_mid)
     sg_messages (sg_accept J parse) sg_max_messages"
    by (rule sg_dropped.windowed) (simp add: sg_ops_def sg_recv_def)
  show "select_window (=) (Rd\<lparr>re_transport := (dc_ops create_message create_reaction decd encd :: (_, _, ('ge, 'he, 'be, 'cj) dc_error, _) transport_ops)\<rparr>)
     (drop_points (dc_turn encd :: _ \<Rightarrow> _ \<Rightarrow> (('ge, 'he, 'be, 'cj) dc_error, _, _) turn) no_mid)
     dc_messages dc_accept dc_max_messages"
    by (rule dc_dropped.windowed) (simp add: dc_ops_def dc_recv_def)
qed

text \<open>C8: a Slack room can lose a message to an intent. Whenever the next envelope is a plain message of
  its channel whose acknowledgement succeeds, the task can drop the receive once the
  acknowledgement is in the socket, while it is flushed or while the author's name is looked up:
  the envelope is used up and acknowledged, so that Slack does not send it again, and the history
  and the pushes are as before. Whatever the task does then, its history is a window over the old
  messages and messages of later envelopes; had the receive gone on, the message would have been
  the newest of the history.\<close>

theorem slack_select_loses:
  assumes "dec_env text = Some env" and "env_id env = Some eid"
    and "sl_event_message J dec_payload (sl_channel_id (task_transport s)) reply env = Some m"
    and "re_transport R = sl_ops J dec_env dec_payload post dec enc"
    and "rt_running s" and "rt_inputs s = SlText text (Inr ()) reply # ins"
    and "length (sl_messages (task_transport s)) \<le> sl_max_messages"
  shows "\<exists>k s1. select_step R (drop_points (sl_turn J dec_env dec_payload enc) (sl_mid J dec_env dec_payload)) (Drop k) s = Some s1 \<and>
    rt_running s1 \<and> rt_inputs s1 = ins \<and> rt_pushed s1 = rt_pushed s \<and>
    sl_messages (task_transport s1) = sl_messages (task_transport s) \<and>
    sl_sent (task_transport s1) = sl_sent (task_transport s) @ [sl_ack_text J eid] \<and>
    (\<forall>xs s2. select_run R (drop_points (sl_turn J dec_env dec_payload enc) (sl_mid J dec_env dec_payload)) xs s1 = Some s2 \<longrightarrow>
       (\<exists>used ms. ins = used @ rt_inputs s2 \<and>
          subseq ms (concat (map (sl_accept J dec_env dec_payload (task_transport s1)) used)) \<and>
          sl_messages (task_transport s2) = last_n sl_max_messages (sl_messages (task_transport s) @ ms))) \<and>
    sl_messages (turn_state (sl_turn J dec_env dec_payload enc (task_transport s) (SlText text (Inr ()) reply))) =
      last_n sl_max_messages (sl_messages (task_transport s) @ [m])"
proof -
  let ?t = "task_transport s"
  let ?points = "drop_points (sl_turn J dec_env dec_payload enc) (sl_mid J dec_env dec_payload)"
  define t1 where "t1 = ?t\<lparr>sl_sent := sl_sent ?t @ [sl_ack_text J eid]\<rparr>"
  define s1 where "s1 = s\<lparr>rt_conn := (rt_conn s)\<lparr>conn_transport := t1\<rparr>, rt_inputs := ins\<rparr>"
  have "t1 \<in> set (sl_mid J dec_env dec_payload ?t (SlText text (Inr ()) reply))"
    using assms(1-3) by (simp add: t1_def Let_def)
  then have "(t1, ins) \<in> set (?points ?t (rt_inputs s))"
    unfolding assms(6) by (rule drop_points_mid)
  then obtain k where "k < length (?points ?t (rt_inputs s))" "?points ?t (rt_inputs s) ! k = (t1, ins)"
    by (auto simp: in_set_conv_nth)
  then have step: "select_step R ?points (Drop k) s = Some s1"
    using assms(5) by (simp add: s1_def Let_def)
  have same: "rt_running s1" "rt_inputs s1 = ins" "rt_pushed s1 = rt_pushed s" "task_transport s1 = t1"
      "sl_messages t1 = sl_messages ?t" "sl_sent t1 = sl_sent ?t @ [sl_ack_text J eid]"
    using assms(5) by (simp_all add: s1_def t1_def)
  have "re_transport R = \<lparr>t_send = sl_send J post dec, t_recv = recv_loop (sl_turn J dec_env dec_payload enc)\<rparr>"
    using assms(4) by (simp add: sl_ops_def sl_recv_def)
  note window = sl_dropped.windowed [OF this, unfolded select_window_def, rule_format]
  have later: "\<exists>used ms. ins = used @ rt_inputs s2 \<and>
          subseq ms (concat (map (sl_accept J dec_env dec_payload t1) used)) \<and>
          sl_messages (task_transport s2) = last_n sl_max_messages (sl_messages ?t @ ms)"
    if "select_run R ?points xs s1 = Some s2" for xs s2
    using window [OF that] assms(7) same by simp
  have "sl_messages (turn_state (sl_turn J dec_env dec_payload enc ?t (SlText text (Inr ()) reply))) =
      last_n sl_max_messages (sl_messages ?t @ [m])"
    using sl_lossless.turn_window [OF assms(7), of J dec_env dec_payload enc "SlText text (Inr ()) reply"] assms(1-3) by simp
  with step same later show ?thesis by (intro exI [of _ k] exI [of _ s1]) simp
qed

definition authored_envelope :: "string \<Rightarrow> json socket_envelope option" where
  "authored_envelope text = Some \<lparr>env_id = Some ''e1'', env_type = ''events_api'',
     env_payload = Some (JObj [(''type'', JStr ''message''), (''channel'', JStr ''C1''), (''user'', JStr ''U1''),
       (''text'', JStr text)])\<rparr>"

definition demo_slack_env ::
  "(sl_transport, (json, unit, unit) sl_item, (unit, unit, unit) sl_error, unit, unit, unit, (unit, unit, unit) sl_error, json, sl_snapshot, sl_intent) room_env" where
  "demo_slack_env =
     \<lparr>re_transport = sl_ops value_json authored_envelope (\<lambda>p. Some (Some p)) (\<lambda>_ _ _. Inr JNull) (\<lambda>_. Inl ()) (\<lambda>_. Inr ()),
      re_into = Other, re_enc = (\<lambda>_. Inr ()), re_dec = (\<lambda>_. Inr Pong), re_to_value = (\<lambda>_. None),
      re_from_value = (\<lambda>_. None), re_null = JNull\<rparr>"

theorem slack_select_loses_witness:
  "\<exists>k s1. select_step demo_slack_env
      (drop_points (sl_turn value_json authored_envelope (\<lambda>p. Some (Some p)) (\<lambda>_ :: (json, sl_snapshot) server_wire. Inr () :: unit + unit))
         (sl_mid value_json authored_envelope (\<lambda>p. Some (Some p)))) (Drop k)
      (room_task_start (established demo_slack (sl_manifest value_json ''C1'' [])) JNull [SlText ''hi'' (Inr ()) (Inl ())]) = Some s1 \<and>
    rt_inputs s1 = [] \<and> sl_messages (task_transport s1) = [] \<and>
    sl_sent (task_transport s1) = [sl_ack_text value_json ''e1'']"
proof -
  let ?s = "room_task_start (established demo_slack (sl_manifest value_json ''C1'' [])) JNull
      [SlText ''hi'' (Inr ()) (Inl ()) :: (json, unit, unit) sl_item]"
  obtain env where env: "authored_envelope ''hi'' = Some env" "env_id env = Some ''e1''"
    by (simp add: authored_envelope_def)
  obtain m where m: "sl_event_message value_json (\<lambda>p. Some (Some p)) (sl_channel_id (task_transport ?s)) (Inl () :: unit + json) env = Some m"
    using env by (auto simp: authored_envelope_def sl_event_message_def j_str_or_def j_index_def room_task_start_def
        established_def demo_slack_def sl_build_message_def Let_def)
  have R: "re_transport demo_slack_env =
      sl_ops value_json authored_envelope (\<lambda>p. Some (Some p)) (\<lambda>_ _ _. Inr JNull) (\<lambda>_. Inl ()) (\<lambda>_. Inr ())"
    by (simp add: demo_slack_env_def)
  have s: "rt_running ?s" "rt_inputs ?s = [SlText ''hi'' (Inr ()) (Inl ())]"
      "length (sl_messages (task_transport ?s)) \<le> sl_max_messages"
      "sl_messages (task_transport ?s) = []" "sl_sent (task_transport ?s) = []"
    by (simp_all add: room_task_start_def established_def demo_slack_def)
  from slack_select_loses [OF env m R s(1,2,3)] s(4,5) show ?thesis by auto
qed

text \<open>The same in a file system room: a drop during the walk uses up a change of the directory and
  leaves no trace of it; clients see the change with the next one.\<close>

lemma fs_select_misses:
  assumes "relevant kind"
  shows "(t, ins) \<in> set (drop_points (fs_turn lossy enc) fs_mid t (FsEvent kind walked # ins))"
  using assms by (intro drop_points_mid) simp

subsection \<open>Intents that never reach their service\<close>

text \<open>A room task that an intent leaves exactly as it was.\<close>

definition deaf :: "('t, 'i, 'te, 'b, 'we, 'cj, 'o, 'j, 's, 'q) room_env \<Rightarrow> bool" where
  "deaf R \<longleftrightarrow> (\<forall>payload s. rt_running s \<longrightarrow> room_step R (SelIntent payload) s = Some s)"

text \<open>Every connector decodes first, and returns the decoder's error.\<close>

locale decoding_transport =
  fixes snd_op :: "('b \<Rightarrow> 'cj + 'i client_wire) \<Rightarrow> 't \<Rightarrow> 'b \<Rightarrow> ('te + unit) \<times> 't"
  assumes decodes_first: "dec data = Inl e \<Longrightarrow> \<exists>e'. snd_op dec t data = (Inl e', t)"
begin

lemma deaf_room:
  assumes codec: "strict_codec J f print enc dec" and tagged: "type_tagged J f"
    and R: "re_enc R = enc" "t_send (re_transport R) = snd_op dec"
  shows "deaf R"
proof -
  have "room_step R (SelIntent payload) s = Some s" if "rt_running s" for payload s
  proof (cases "re_from_value R payload")
    case (Some i)
    obtain data e where data: "enc (Intent i) = Inr data" "dec data = Inl e"
      by (rule strict_codec_refuses [OF codec tagged])
    from decodes_first [of dec data e "conn_transport (rt_conn s)", OF data(2)]
    obtain e' where "snd_op dec (conn_transport (rt_conn s)) data = (Inl e', conn_transport (rt_conn s))" by blast
    with data(1) R have "snd (send_intent (re_transport R) (re_into R) (re_enc R) (rt_conn s) i) = rt_conn s"
      by (simp add: send_intent_def conn_send_def to_json_def)
    with Some that show ?thesis by simp
  qed (simp add: that)
  then show ?thesis by (simp add: deaf_def)
qed

end

interpretation irc_deaf: decoding_transport "irc_send wr"
  by unfold_locales (simp add: irc_send_def)

interpretation tg_deaf: decoding_transport "tg_send J post"
  by unfold_locales (simp add: tg_send_def)

interpretation zulip_deaf: decoding_transport "zulip_send post_form"
  by unfold_locales (simp add: zulip_send_def)

interpretation mail_deaf: decoding_transport "mail_send J post put"
  by unfold_locales (simp add: mail_send_def)

interpretation github_deaf: decoding_transport "github_send J post patch"
  by unfold_locales (simp add: github_send_def)

interpretation mx_deaf: decoding_transport "mx_send J put"
  by unfold_locales (simp add: mx_send_def)

interpretation sg_deaf: decoding_transport "\<lambda>dec. t_send (sg_ops J wr ids parse dec enc)"
  by unfold_locales (simp add: sg_ops_def sg_send_def)

interpretation dc_deaf: decoding_transport "dc_send create_message create_reaction"
  by unfold_locales (simp add: dc_send_def)

interpretation sl_deaf: decoding_transport "sl_send J post"
  by unfold_locales (simp add: sl_send_def)

interpretation wa_deaf: decoding_transport "wa_send J post"
  by unfold_locales (simp add: wa_send_def)

interpretation fs_deaf: decoding_transport "\<lambda>dec. t_send (fs_ops F lossy dec enc)"
  by unfold_locales (auto simp: fs_ops_def fs_send_def)

interpretation sq_deaf: decoding_transport "\<lambda>dec. t_send (sq_ops J N lossy Q dec enc)"
  by unfold_locales (auto simp: sq_ops_def sq_send_def)

interpretation ch_deaf: decoding_transport "\<lambda>dec. t_send (ch_ops J N lossy Q dec enc)"
  by unfold_locales (auto simp: ch_ops_def ch_send_def)

lemma connector_intents_tagged:
  "type_tagged J (irc_intent_fields J)" "type_tagged J (tg_intent_fields J)" "type_tagged J (mx_intent_fields J)"
  "type_tagged J (sg_intent_fields J)" "type_tagged J (dc_intent_fields J)" "type_tagged J (sl_intent_fields J)"
  "type_tagged J (wa_intent_fields J)" "type_tagged J (zulip_intent_fields J)" "type_tagged J (mail_intent_fields J)"
  "type_tagged J (github_intent_fields J)" "type_tagged J (fs_intent_fields J)" "type_tagged J (sq_intent_fields J)"
  "type_tagged J (ch_intent_fields J)"
  unfolding type_tagged_def by (intro allI; rename_tac x; case_tac x; simp; blast)+

text \<open>What a decoded intent comes to: the requests of the HTTP connectors are part of the transport.\<close>

lemma decoded_intents_requested:
  "dec data = Inr (Intent (TgSendMessage txt)) \<Longrightarrow> length (tg_http (snd (tg_send J post dec t data))) = Suc (length (tg_http t))"
  "dec' data = Inr (Intent (SlSendMessage txt)) \<Longrightarrow> length (sl_http (snd (sl_send J post dec' t' data))) = Suc (length (sl_http t'))"
  "dec'' data = Inr (Intent (DcSendMessage txt)) \<Longrightarrow>
     length (dc_http (snd (dc_send create_message create_reaction dec'' t'' data))) = Suc (length (dc_http t''))"
  by (auto simp: tg_send_def sl_send_def dc_send_def Let_def split: sum.split)

text \<open>C6: an intent that a client sends to a room of the daemon does nothing. The encoding of every
  connector's intents has a member \<open>type\<close>, and so has the envelope around it; when the decoder
  refuses a repeated \<open>type\<close>, the connector's \<^verbatim>\<open>send\<close>, which decodes first, answers with an error, the
  room task drops that error, and everything is as before: the task, its connection, and the
  transport with all that it has sent to its service, which are the requests made through its HTTP
  client, the lines written to IRC and to the Signal process, the files and the database.\<close>

theorem connector_rooms_deaf:
  "(strict_codec J (irc_intent_fields J) print_irc enc_irc dec_irc \<longrightarrow> deaf (Rirc\<lparr>re_transport := irc_ops wr dec_irc out_irc, re_enc := enc_irc\<rparr>)) \<and>
   (strict_codec J (tg_intent_fields J) print_tg enc_tg dec_tg \<longrightarrow> deaf (Rtg\<lparr>re_transport := tg_ops J post dec_tg out_tg, re_enc := enc_tg\<rparr>)) \<and>
   (strict_codec J (mx_intent_fields J) print_mx enc_mx dec_mx \<longrightarrow> deaf (Rmx\<lparr>re_transport := mx_ops J put dec_mx out_mx, re_enc := enc_mx\<rparr>)) \<and>
   (strict_codec J (sg_intent_fields J) print_sg enc_sg dec_sg \<longrightarrow> deaf (Rsg\<lparr>re_transport := sg_ops J wrs ids parse dec_sg out_sg, re_enc := enc_sg\<rparr>)) \<and>
   (strict_codec J (dc_intent_fields J) print_dc enc_dc dec_dc \<longrightarrow> deaf (Rdc\<lparr>re_transport := dc_ops create_message create_reaction dec_dc out_dc, re_enc := enc_dc\<rparr>)) \<and>
   (strict_codec J (sl_intent_fields J) print_sl enc_sl dec_sl \<longrightarrow> deaf (Rsl\<lparr>re_transport := sl_ops J dec_env dec_payload post_json dec_sl out_sl, re_enc := enc_sl\<rparr>)) \<and>
   (strict_codec J (wa_intent_fields J) print_wa enc_wa dec_wa \<longrightarrow> deaf (Rwa\<lparr>re_transport := wa_ops J post_wa dec_wa, re_enc := enc_wa\<rparr>)) \<and>
   (strict_codec J (zulip_intent_fields J) print_zu enc_zu dec_zu \<longrightarrow> deaf (Rzu\<lparr>re_transport := zulip_ops J post_form dec_zu out_zu, re_enc := enc_zu\<rparr>)) \<and>
   (strict_codec J (mail_intent_fields J) print_ml enc_ml dec_ml \<longrightarrow> deaf (Rml\<lparr>re_transport := mail_ops J post_mail put_mail dec_ml out_ml, re_enc := enc_ml\<rparr>)) \<and>
   (strict_codec J (github_intent_fields J) print_gh enc_gh dec_gh \<longrightarrow> deaf (Rgh\<lparr>re_transport := github_ops J post_gh patch_gh dec_gh out_gh, re_enc := enc_gh\<rparr>)) \<and>
   (strict_codec J (fs_intent_fields J) print_fs enc_fs dec_fs \<longrightarrow> deaf (Rfs\<lparr>re_transport := fs_ops F lossy dec_fs out_fs, re_enc := enc_fs\<rparr>)) \<and>
   (strict_codec J (sq_intent_fields J) print_sq enc_sq dec_sq \<longrightarrow> deaf (Rsq\<lparr>re_transport := sq_ops J N lossy_sq Q dec_sq out_sq, re_enc := enc_sq\<rparr>)) \<and>
   (strict_codec J (ch_intent_fields J) print_ch enc_ch dec_ch \<longrightarrow> deaf (Rch\<lparr>re_transport := ch_ops J N lossy_ch Q dec_ch out_ch, re_enc := enc_ch\<rparr>))"
proof (intro conjI impI)
  assume codec: "strict_codec J (irc_intent_fields J) print_irc enc_irc dec_irc"
  show "deaf (Rirc\<lparr>re_transport := irc_ops wr dec_irc out_irc, re_enc := enc_irc\<rparr>)"
    by (rule irc_deaf.deaf_room [OF codec]) (simp_all add: connector_intents_tagged irc_ops_def)
next
  assume codec: "strict_codec J (tg_intent_fields J) print_tg enc_tg dec_tg"
  show "deaf (Rtg\<lparr>re_transport := tg_ops J post dec_tg out_tg, re_enc := enc_tg\<rparr>)"
    by (rule tg_deaf.deaf_room [OF codec]) (simp_all add: connector_intents_tagged tg_ops_def)
next
  assume codec: "strict_codec J (mx_intent_fields J) print_mx enc_mx dec_mx"
  show "deaf (Rmx\<lparr>re_transport := mx_ops J put dec_mx out_mx, re_enc := enc_mx\<rparr>)"
    by (rule mx_deaf.deaf_room [OF codec]) (simp_all add: connector_intents_tagged mx_ops_def)
next
  assume codec: "strict_codec J (sg_intent_fields J) print_sg enc_sg dec_sg"
  show "deaf (Rsg\<lparr>re_transport := sg_ops J wrs ids parse dec_sg out_sg, re_enc := enc_sg\<rparr>)"
    by (rule sg_deaf.deaf_room [OF codec]) (simp_all add: connector_intents_tagged)
next
  assume codec: "strict_codec J (dc_intent_fields J) print_dc enc_dc dec_dc"
  show "deaf (Rdc\<lparr>re_transport := dc_ops create_message create_reaction dec_dc out_dc, re_enc := enc_dc\<rparr>)"
    by (rule dc_deaf.deaf_room [OF codec]) (simp_all add: connector_intents_tagged dc_ops_def)
next
  assume codec: "strict_codec J (sl_intent_fields J) print_sl enc_sl dec_sl"
  show "deaf (Rsl\<lparr>re_transport := sl_ops J dec_env dec_payload post_json dec_sl out_sl, re_enc := enc_sl\<rparr>)"
    by (rule sl_deaf.deaf_room [OF codec]) (simp_all add: connector_intents_tagged sl_ops_def)
next
  assume codec: "strict_codec J (wa_intent_fields J) print_wa enc_wa dec_wa"
  show "deaf (Rwa\<lparr>re_transport := wa_ops J post_wa dec_wa, re_enc := enc_wa\<rparr>)"
    by (rule wa_deaf.deaf_room [OF codec]) (simp_all add: connector_intents_tagged wa_ops_def)
next
  assume codec: "strict_codec J (zulip_intent_fields J) print_zu enc_zu dec_zu"
  show "deaf (Rzu\<lparr>re_transport := zulip_ops J post_form dec_zu out_zu, re_enc := enc_zu\<rparr>)"
    by (rule zulip_deaf.deaf_room [OF codec]) (simp_all add: connector_intents_tagged zulip_ops_def)
next
  assume codec: "strict_codec J (mail_intent_fields J) print_ml enc_ml dec_ml"
  show "deaf (Rml\<lparr>re_transport := mail_ops J post_mail put_mail dec_ml out_ml, re_enc := enc_ml\<rparr>)"
    by (rule mail_deaf.deaf_room [OF codec]) (simp_all add: connector_intents_tagged mail_ops_def)
next
  assume codec: "strict_codec J (github_intent_fields J) print_gh enc_gh dec_gh"
  show "deaf (Rgh\<lparr>re_transport := github_ops J post_gh patch_gh dec_gh out_gh, re_enc := enc_gh\<rparr>)"
    by (rule github_deaf.deaf_room [OF codec]) (simp_all add: connector_intents_tagged github_ops_def)
next
  assume codec: "strict_codec J (fs_intent_fields J) print_fs enc_fs dec_fs"
  show "deaf (Rfs\<lparr>re_transport := fs_ops F lossy dec_fs out_fs, re_enc := enc_fs\<rparr>)"
    by (rule fs_deaf.deaf_room [OF codec]) (simp_all add: connector_intents_tagged)
next
  assume codec: "strict_codec J (sq_intent_fields J) print_sq enc_sq dec_sq"
  show "deaf (Rsq\<lparr>re_transport := sq_ops J N lossy_sq Q dec_sq out_sq, re_enc := enc_sq\<rparr>)"
    by (rule sq_deaf.deaf_room [OF codec]) (simp_all add: connector_intents_tagged)
next
  assume codec: "strict_codec J (ch_intent_fields J) print_ch enc_ch dec_ch"
  show "deaf (Rch\<lparr>re_transport := ch_ops J N lossy_ch Q dec_ch out_ch, re_enc := enc_ch\<rparr>)"
    by (rule ch_deaf.deaf_room [OF codec]) (simp_all add: connector_intents_tagged)
qed

definition strict_dec :: "(string \<times> json) list \<Rightarrow> unit + irc_intent client_wire" where
  "strict_dec ms = (if 1 < count_list (map fst ms) ''type'' then Inl () else Inr Ping)"

definition strict_enc :: "irc_intent client_wire \<Rightarrow> unit + (string \<times> json) list" where
  "strict_enc w = Inr (client_wire_fields value_json (irc_intent_fields value_json) w)"

definition irc_room_env ::
  "(irc_transport, unit irc_item, (unit, unit) irc_error, (string \<times> json) list, unit, unit, (unit, unit) irc_error, json, irc_snapshot, irc_intent) room_env" where
  "irc_room_env =
     \<lparr>re_transport = irc_ops (\<lambda>_ _. Inr ()) (\<lambda>_. Inr Ping) (\<lambda>_ :: (json, irc_snapshot) server_wire. Inr []), re_into = Other,
      re_enc = (\<lambda>_. Inr []), re_dec = (\<lambda>_. Inr Pong), re_to_value = (\<lambda>_. None),
      re_from_value = (\<lambda>j. map_option IrcSendMessage (json_as_str j)), re_null = JNull\<rparr>"

theorem connector_rooms_deaf_witness:
  "room_step (irc_room_env\<lparr>re_transport :=
        irc_ops (\<lambda>_ _. Inr ()) strict_dec (\<lambda>_ :: (json, irc_snapshot) server_wire. Inr []), re_enc := strict_enc\<rparr>)
      (SelIntent (JStr ''hi'')) (room_task_start (established demo_irc (irc_manifest value_json ''s'' ''#r'')) JNull []) =
    Some (room_task_start (established demo_irc (irc_manifest value_json ''s'' ''#r'')) JNull [])"
proof -
  let ?R = "irc_room_env\<lparr>re_transport :=
        irc_ops (\<lambda>_ _. Inr ()) strict_dec (\<lambda>_ :: (json, irc_snapshot) server_wire. Inr []), re_enc := strict_enc\<rparr>"
  have "strict_codec value_json (irc_intent_fields value_json) id strict_enc strict_dec"
    by (simp add: strict_codec_def strict_enc_def strict_dec_def)
  then have "deaf ?R"
    by (rule mp [OF conjunct1 [OF connector_rooms_deaf]])
  then show ?thesis
    by (simp add: deaf_def room_task_start_def)
qed

end
