(* ===== verification/Authority.thy ===== *)
theory Authority
  imports Wire
begin

section \<open>Authorities\<close>

text \<open>
  \<^verbatim>\<open>crates/interconnect-core/src/authority.rs\<close>: sessions, import results and the two traits
  that a server implements. A trait is a record of its methods over the state \<open>'st\<close>: a
  method with \<^verbatim>\<open>&mut self\<close> returns the new state beside its result, one with \<^verbatim>\<open>&self\<close> only
  reads. \<open>of_simple\<close> is the blanket implementation. The locales state what a server relies
  on: that every method keeps the authority's invariant, and that the set of the sessions
  in the room follows the calls.
\<close>

record session =
  s_id :: u64
  s_identity :: identity
  s_name :: string

definition session_new :: "u64 \<Rightarrow> identity \<Rightarrow> string \<Rightarrow> session" where
  "session_new i who name = \<lparr>s_id = i, s_identity = who, s_name = name\<rparr>"

lemma session_new_sel [simp]:
  "s_id (session_new i who name) = i" "s_identity (session_new i who name) = who"
  "s_name (session_new i who name) = name"
  by (simp_all add: session_new_def)

record rejection =
  rej_item :: string
  rej_reason :: string

definition rejection_new :: "string \<Rightarrow> string \<Rightarrow> rejection" where
  "rejection_new item reason = \<lparr>rej_item = item, rej_reason = reason\<rparr>"

record 'p import_result =
  imp_passport :: 'p
  imp_rejected :: "rejection list"

definition import_accept :: "'p \<Rightarrow> 'p import_result" where
  "import_accept p = \<lparr>imp_passport = p, imp_rejected = []\<rparr>"

definition import_with_rejections :: "'p \<Rightarrow> rejection list \<Rightarrow> 'p import_result" where
  "import_with_rejections p rs = \<lparr>imp_passport = p, imp_rejected = rs\<rparr>"

record ('st, 'i, 's, 'p, 'e) authority =
  a_on_connect :: "session \<Rightarrow> 'st \<Rightarrow> ('e + unit) \<times> 'st"
  a_on_transfer_in :: "session \<Rightarrow> 'p \<Rightarrow> 'st \<Rightarrow> ('e + 'p import_result) \<times> 'st"
  a_on_disconnect :: "session \<Rightarrow> 'st \<Rightarrow> 'st"
  a_handle_intent :: "session \<Rightarrow> 'i \<Rightarrow> 'st \<Rightarrow> ('e + unit) \<times> 'st"
  a_snapshot_for :: "session \<Rightarrow> 'st \<Rightarrow> 's"
  a_emit_passport :: "session \<Rightarrow> 'st \<Rightarrow> 'p"
  a_validate_destination :: "string \<Rightarrow> 'st \<Rightarrow> bool"

record ('st, 'i, 's, 'p, 'e) simple_authority =
  sa_on_connect :: "session \<Rightarrow> 'st \<Rightarrow> ('e + unit) \<times> 'st"
  sa_on_transfer_in :: "session \<Rightarrow> 'p \<Rightarrow> 'st \<Rightarrow> ('e + 'p import_result) \<times> 'st"
  sa_on_disconnect :: "session \<Rightarrow> 'st \<Rightarrow> 'st"
  sa_handle_intent :: "session \<Rightarrow> 'i \<Rightarrow> 'st \<Rightarrow> ('e + unit) \<times> 'st"
  sa_snapshot :: "'st \<Rightarrow> 's"
  sa_emit_passport :: "session \<Rightarrow> 'st \<Rightarrow> 'p"
  sa_validate_destination :: "string \<Rightarrow> 'st \<Rightarrow> bool"

definition of_simple ::
  "('st, 'i, 's, 'p, 'e) simple_authority \<Rightarrow> ('st, 'i, 's, 'p, 'e) authority" where
  "of_simple S =
     \<lparr>a_on_connect = \<lambda>s st. sa_on_connect S s st,
      a_on_transfer_in = \<lambda>s p st. sa_on_transfer_in S s p st,
      a_on_disconnect = \<lambda>s st. sa_on_disconnect S s st,
      a_handle_intent = \<lambda>s i st. sa_handle_intent S s i st,
      a_snapshot_for = \<lambda>_ st. sa_snapshot S st,
      a_emit_passport = \<lambda>s st. sa_emit_passport S s st,
      a_validate_destination = \<lambda>d st. sa_validate_destination S d st\<rparr>"

lemma of_simple_sel [simp]:
  "a_on_connect (of_simple S) = sa_on_connect S"
  "a_on_transfer_in (of_simple S) = sa_on_transfer_in S"
  "a_on_disconnect (of_simple S) = sa_on_disconnect S"
  "a_handle_intent (of_simple S) = sa_handle_intent S"
  "a_snapshot_for (of_simple S) s st = sa_snapshot S st"
  "a_emit_passport (of_simple S) = sa_emit_passport S"
  "a_validate_destination (of_simple S) = sa_validate_destination S"
  by (simp_all add: of_simple_def)

subsection \<open>What a server relies on\<close>

text \<open>The calls of a server, in the order in which it makes them.\<close>

datatype ('i, 'p) authority_call =
    CallConnect session
  | CallTransferIn session 'p
  | CallDisconnect session
  | CallIntent session 'i

fun authority_step :: "('st, 'i, 's, 'p, 'e) authority \<Rightarrow> ('i, 'p) authority_call \<Rightarrow> 'st \<Rightarrow> 'st" where
  "authority_step A (CallConnect s) st = snd (a_on_connect A s st)"
| "authority_step A (CallTransferIn s p) st = snd (a_on_transfer_in A s p st)"
| "authority_step A (CallDisconnect s) st = a_on_disconnect A s st"
| "authority_step A (CallIntent s i) st = snd (a_handle_intent A s i st)"

locale authority_invariant =
  fixes A :: "('st, 'i, 's, 'p, 'e) authority" and I :: "'st \<Rightarrow> bool"
  assumes connect_keeps: "I st \<Longrightarrow> I (snd (a_on_connect A s st))"
    and transfer_keeps: "I st \<Longrightarrow> I (snd (a_on_transfer_in A s p st))"
    and disconnect_keeps: "I st \<Longrightarrow> I (a_on_disconnect A s st)"
    and intent_keeps: "I st \<Longrightarrow> I (snd (a_handle_intent A s i st))"
begin

lemmas call_keeps = connect_keeps transfer_keeps disconnect_keeps intent_keeps

lemma step_keeps: "I st \<Longrightarrow> I (authority_step A c st)"
  by (cases c) (simp_all add: call_keeps)

lemma run_keeps: "I st \<Longrightarrow> I (fold (authority_step A) cs st)"
  by (induction cs arbitrary: st) (simp_all add: step_keeps)

end

text \<open>Authorities that keep a table of the sessions in the room: \<open>present\<close> reads the set of
  their numbers off the state.\<close>

locale session_registry = authority_invariant A I
  for A :: "('st, 'i, 's, 'p, 'e) authority" and I :: "'st \<Rightarrow> bool" +
  fixes present :: "'st \<Rightarrow> u64 set"
  assumes connect_present: "I st \<Longrightarrow> present (snd (a_on_connect A s st)) = insert (s_id s) (present st)"
    and transfer_present: "I st \<Longrightarrow> present (snd (a_on_transfer_in A s p st)) = insert (s_id s) (present st)"
    and disconnect_present: "I st \<Longrightarrow> present (a_on_disconnect A s st) = present st - {s_id s}"
    and intent_present: "I st \<Longrightarrow> present (snd (a_handle_intent A s i st)) = present st"
begin

fun present_after :: "u64 set \<Rightarrow> ('i, 'p) authority_call list \<Rightarrow> u64 set" where
  "present_after S [] = S"
| "present_after S (CallConnect s # cs) = present_after (insert (s_id s) S) cs"
| "present_after S (CallTransferIn s _ # cs) = present_after (insert (s_id s) S) cs"
| "present_after S (CallDisconnect s # cs) = present_after (S - {s_id s}) cs"
| "present_after S (CallIntent _ _ # cs) = present_after S cs"

lemmas present_simps = connect_present transfer_present disconnect_present intent_present

lemma run_present: "I st \<Longrightarrow> present (fold (authority_step A) cs st) = present_after (present st) cs"
proof (induction cs arbitrary: st)
  case (Cons c cs)
  then show ?case by (cases c) (simp_all add: call_keeps present_simps)
qed simp

end

text \<open>The same contract for the simpler trait gives it for the blanket implementation.\<close>

locale simple_authority_invariant =
  fixes S :: "('st, 'i, 's, 'p, 'e) simple_authority" and I :: "'st \<Rightarrow> bool"
  assumes simple_connect_keeps: "I st \<Longrightarrow> I (snd (sa_on_connect S s st))"
    and simple_transfer_keeps: "I st \<Longrightarrow> I (snd (sa_on_transfer_in S s p st))"
    and simple_disconnect_keeps: "I st \<Longrightarrow> I (sa_on_disconnect S s st)"
    and simple_intent_keeps: "I st \<Longrightarrow> I (snd (sa_handle_intent S s i st))"

sublocale simple_authority_invariant \<subseteq> authority_invariant "of_simple S" I
  by unfold_locales
    (simp_all add: simple_connect_keeps simple_transfer_keeps simple_disconnect_keeps simple_intent_keeps)

end
