(* ===== verification/Server.thy ===== *)
theory Server
  imports Authority
begin

section \<open>Connection tasks of a web socket server\<close>

text \<open>
  What the servers under \<^verbatim>\<open>examples/\<close> share. A server spawns one task per connection; the
  tasks run concurrently over a shared state behind a lock, so a server is modelled as a
  shared state and a list of tasks, and one event lets one task take its next step: a step
  is what the task does between two points at which another task may run. What the peer
  sends, what the broadcast channel (\<^verbatim>\<open>tokio::sync::broadcast\<close>) hands out and whether a write
  to the peer succeeds are inputs of the step; what the task writes to its peer and what it
  puts into the channel are logs of its state.
\<close>

datatype 'b net = NetText 'b | NetOther | NetErr | NetEnd

datatype 'b from_channel = ChanMsg 'b | ChanLagged nat | ChanClosed

datatype 'b task_input = Proceed | FromPeer "'b net" | FromChannel "'b from_channel"

text \<open>\<^verbatim>\<open>sink.send(Message::Text(to_json_string(&msg)?.into())).await?\<close>: \<open>None\<close> is the early
  return, because the message could not be encoded or the peer could not be written to.\<close>

definition send_frame :: "bool \<Rightarrow> ('e + 'b) \<Rightarrow> 'b list \<Rightarrow> 'b list option" where
  "send_frame ok m out = (case m of Inl _ \<Rightarrow> None | Inr b \<Rightarrow> if ok then Some (out @ [b]) else None)"

lemma send_frame_Some [simp]: "send_frame ok m out = Some out' \<longleftrightarrow> ok \<and> (\<exists>b. m = Inr b \<and> out' = out @ [b])"
  by (auto simp: send_frame_def split: sum.splits)

lemma send_frame_None [simp]: "send_frame ok m out = None \<longleftrightarrow> \<not> ok \<or> (\<exists>e. m = Inl e)"
  by (auto simp: send_frame_def split: sum.splits)

text \<open>The servers name a session after the name in the authentication message, or after the
  payload of the identity.\<close>

definition display_name :: "identity \<Rightarrow> string option \<Rightarrow> string" where
  "display_name who name = (case name of Some n \<Rightarrow> n | None \<Rightarrow> payload who)"

subsection \<open>Servers as a shared state and tasks\<close>

record ('sh, 'k) server =
  srv_shared :: 'sh
  srv_tasks :: "'k list"

datatype 'x server_event = Accept | Task nat 'x

definition server_step ::
  "'k \<Rightarrow> ('x \<Rightarrow> 'sh \<Rightarrow> 'k \<Rightarrow> 'sh \<times> 'k) \<Rightarrow> 'x server_event \<Rightarrow> ('sh, 'k) server \<Rightarrow> ('sh, 'k) server" where
  "server_step fresh step ev S =
     (case ev of
        Accept \<Rightarrow> S\<lparr>srv_tasks := srv_tasks S @ [fresh]\<rparr>
      | Task i x \<Rightarrow>
          if i < length (srv_tasks S) then
            (case step x (srv_shared S) (srv_tasks S ! i) of
               (sh, k) \<Rightarrow> \<lparr>srv_shared = sh, srv_tasks = (srv_tasks S)[i := k]\<rparr>)
          else S)"

definition server_run ::
  "'k \<Rightarrow> ('x \<Rightarrow> 'sh \<Rightarrow> 'k \<Rightarrow> 'sh \<times> 'k) \<Rightarrow> 'x server_event list \<Rightarrow> ('sh, 'k) server \<Rightarrow> ('sh, 'k) server" where
  "server_run fresh step evs S = fold (server_step fresh step) evs S"

lemma server_run_Nil [simp]: "server_run fresh step [] S = S"
  by (simp add: server_run_def)

lemma server_run_snoc [simp]:
  "server_run fresh step (evs @ [ev]) S = server_step fresh step ev (server_run fresh step evs S)"
  by (simp add: server_run_def)

text \<open>A task whose own state is kept sound by each of its steps, whatever the others do.\<close>

locale task_invariant =
  fixes fresh :: 'k
    and step :: "'x \<Rightarrow> 'sh \<Rightarrow> 'k \<Rightarrow> 'sh \<times> 'k"
    and shared_ok :: "'sh \<Rightarrow> bool"
    and task_ok :: "'k \<Rightarrow> bool"
  assumes fresh_ok: "task_ok fresh"
    and step_ok: "shared_ok sh \<Longrightarrow> task_ok k \<Longrightarrow> shared_ok (fst (step x sh k)) \<and> task_ok (snd (step x sh k))"
begin

lemma server_step_ok:
  "shared_ok (srv_shared S) \<Longrightarrow> list_all task_ok (srv_tasks S) \<Longrightarrow>
     shared_ok (srv_shared (server_step fresh step ev S)) \<and>
     list_all task_ok (srv_tasks (server_step fresh step ev S))"
proof (cases ev)
  case (Task i x)
  assume ok: "shared_ok (srv_shared S)" "list_all task_ok (srv_tasks S)"
  show ?thesis
  proof (cases "i < length (srv_tasks S)")
    case True
    with ok have "task_ok (srv_tasks S ! i)" by (simp add: list_all_length)
    with ok step_ok [of "srv_shared S" "srv_tasks S ! i" x] True Task show ?thesis
      by (auto simp: server_step_def list_all_length nth_list_update split: prod.splits)
  qed (use ok Task in \<open>simp add: server_step_def\<close>)
qed (simp add: server_step_def fresh_ok)

lemma server_run_ok:
  "shared_ok (srv_shared S) \<Longrightarrow> list_all task_ok (srv_tasks S) \<Longrightarrow>
     shared_ok (srv_shared (server_run fresh step evs S)) \<and>
     list_all task_ok (srv_tasks (server_run fresh step evs S))"
  by (induction evs rule: rev_induct) (simp_all add: server_step_ok)

end

end
