(* ===== verification/Process_Room.thy ===== *)
theory Process_Room
  imports Server
begin

section \<open>The process room\<close>

text \<open>
  \<^verbatim>\<open>examples/process/src\<close>: a subprocess as a room (\<^verbatim>\<open>authority.rs\<close>), its server
  (\<^verbatim>\<open>server.rs\<close>) and the terminal client (\<^verbatim>\<open>client.rs\<close>). The subprocess is the environment:
  what it prints, and its end, are events. The channel to the task that feeds its standard
  input is a parameter, the operation \<open>tx_send\<close> on a state \<open>'ch\<close>.
\<close>

datatype process_signal = Interrupt | Terminate

datatype process_intent = SendInput string | SendSignal process_signal

fun process_signal_name :: "process_signal \<Rightarrow> string" where
  "process_signal_name Interrupt = ''interrupt''"
| "process_signal_name Terminate = ''terminate''"

fun process_intent_fields :: "'j json_ops \<Rightarrow> process_intent \<Rightarrow> (string \<times> 'j) list" where
  "process_intent_fields J (SendInput txt) = tagged J ''send_input'' [(''text'', j_str J txt)]"
| "process_intent_fields J (SendSignal s) =
     tagged J ''send_signal'' [(''signal'', j_str J (process_signal_name s))]"

record process_snapshot =
  psn_lines :: "string list"
  psn_running :: bool
  psn_exit_code :: "int option"
  psn_command :: string

record process_passport =
  pp_name :: string
  pp_origin :: string

datatype process_error = NotRunning | SendFailed string

fun process_error_text :: "process_error \<Rightarrow> string" where
  "process_error_text NotRunning = ''process has exited''"
| "process_error_text (SendFailed e) = ''stdin send failed: '' @ e"

subsection \<open>The authority\<close>

definition MAX_LINES :: nat where
  "MAX_LINES = 200"

record process_state =
  ps_lines :: "string list"
  ps_running :: bool
  ps_exit_code :: "int option"

record 'ch process_authority =
  pa_command :: string
  pa_stdin :: 'ch
  pa_state :: process_state

definition process_label :: "string \<Rightarrow> string list \<Rightarrow> string" where
  "process_label command args = (if args = [] then command else command @ '' '' @ join '' '' args)"

definition process_spawn :: "string \<Rightarrow> string list \<Rightarrow> 'ch \<Rightarrow> 'ch process_authority" where
  "process_spawn command args ch =
     \<lparr>pa_command = process_label command args, pa_stdin = ch,
      pa_state = \<lparr>ps_lines = [], ps_running = True, ps_exit_code = None\<rparr>\<rparr>"

text \<open>The three background tasks that update the state.\<close>

definition process_push_line :: "string \<Rightarrow> process_state \<Rightarrow> process_state" where
  "process_push_line line s = s\<lparr>ps_lines := push_bounded MAX_LINES (ps_lines s) line\<rparr>"

definition process_on_stdout :: "string \<Rightarrow> process_state \<Rightarrow> process_state" where
  "process_on_stdout line s = process_push_line line s"

definition process_on_stderr :: "string \<Rightarrow> process_state \<Rightarrow> process_state" where
  "process_on_stderr line s = process_push_line (''[stderr] '' @ line) s"

definition process_on_exit :: "int option \<Rightarrow> process_state \<Rightarrow> process_state" where
  "process_on_exit code s = s\<lparr>ps_running := False, ps_exit_code := code\<rparr>"

text \<open>The task that feeds the standard input: it writes the line and a line feed, and stops at the
  first write that fails; a failed flush is ignored. \<open>write\<close> is the pipe.\<close>

fun process_feed :: "('p \<Rightarrow> string \<Rightarrow> bool \<times> 'p) \<Rightarrow> 'p \<Rightarrow> string list \<Rightarrow> 'p" where
  "process_feed write p [] = p"
| "process_feed write p (line # rest) =
     (case write p line of
        (False, p1) \<Rightarrow> p1
      | (True, p1) \<Rightarrow>
          (case write p1 [CHR 0x0A] of
             (False, p2) \<Rightarrow> p2
           | (True, p2) \<Rightarrow> process_feed write p2 rest))"

definition process_on_connect ::
  "session \<Rightarrow> 'ch process_authority \<Rightarrow> (process_error + unit) \<times> 'ch process_authority" where
  "process_on_connect s a = (Inr (), a)"

definition process_on_transfer_in ::
  "session \<Rightarrow> process_passport \<Rightarrow> 'ch process_authority
    \<Rightarrow> (process_error + process_passport import_result) \<times> 'ch process_authority" where
  "process_on_transfer_in s p a = (Inr (import_accept p), a)"

definition process_on_disconnect :: "session \<Rightarrow> 'ch process_authority \<Rightarrow> 'ch process_authority" where
  "process_on_disconnect s a = a"

definition process_handle_intent ::
  "('ch \<Rightarrow> string \<Rightarrow> (string + unit) \<times> 'ch) \<Rightarrow> session \<Rightarrow> process_intent \<Rightarrow> 'ch process_authority
    \<Rightarrow> (process_error + unit) \<times> 'ch process_authority" where
  "process_handle_intent tx_send s i a =
     (if \<not> ps_running (pa_state a) then (Inl NotRunning, a)
      else (case i of
              SendInput line \<Rightarrow>
                (case tx_send (pa_stdin a) line of
                   (Inl e, ch) \<Rightarrow> (Inl (SendFailed e), a\<lparr>pa_stdin := ch\<rparr>)
                 | (Inr _, ch) \<Rightarrow> (Inr (), a\<lparr>pa_stdin := ch\<rparr>))
            | SendSignal _ \<Rightarrow> (Inr (), a)))"

definition process_room_snapshot :: "'ch process_authority \<Rightarrow> process_snapshot" where
  "process_room_snapshot a =
     \<lparr>psn_lines = ps_lines (pa_state a), psn_running = ps_running (pa_state a),
      psn_exit_code = ps_exit_code (pa_state a), psn_command = pa_command a\<rparr>"

definition process_emit_passport :: "session \<Rightarrow> 'ch process_authority \<Rightarrow> process_passport" where
  "process_emit_passport s a = \<lparr>pp_name = s_name s, pp_origin = pa_command a\<rparr>"

definition process_validate_destination :: "string \<Rightarrow> 'ch process_authority \<Rightarrow> bool" where
  "process_validate_destination d a = False"

definition process_authority_of ::
  "('ch \<Rightarrow> string \<Rightarrow> (string + unit) \<times> 'ch) \<Rightarrow>
     ('ch process_authority, process_intent, process_snapshot, process_passport, process_error) simple_authority" where
  "process_authority_of tx_send =
     \<lparr>sa_on_connect = process_on_connect,
      sa_on_transfer_in = process_on_transfer_in,
      sa_on_disconnect = process_on_disconnect,
      sa_handle_intent = process_handle_intent tx_send,
      sa_snapshot = process_room_snapshot,
      sa_emit_passport = process_emit_passport,
      sa_validate_destination = process_validate_destination\<rparr>"

lemmas process_authority_defs =
  process_on_connect_def process_on_transfer_in_def process_on_disconnect_def process_handle_intent_def
  process_authority_of_def

text \<open>No call of a session changes what the room shows.\<close>

interpretation process_shown: simple_authority_invariant "process_authority_of tx_send"
    "\<lambda>a. process_room_snapshot a = shown" for tx_send :: "'ch \<Rightarrow> string \<Rightarrow> (string + unit) \<times> 'ch" and shown
  by unfold_locales
    (auto simp: process_authority_defs process_room_snapshot_def split: process_intent.splits sum.splits prod.splits)

subsection \<open>The server\<close>

record ('j, 'b, 'e) process_env =
  pe_enc :: "('j, process_snapshot) server_wire \<Rightarrow> 'e + 'b"
  pe_dec :: "'b \<Rightarrow> 'e + process_intent client_wire"

text \<open>\<open>pr_owed\<close> counts the changes of the state whose background task has not sent its signal yet,
  \<open>pr_updates\<close> the signals that wait in the update channel.\<close>

record ('j, 'ch, 'b) process_shared =
  pr_authority :: "'ch process_authority"
  pr_manifest :: "'j manifest"
  pr_next :: u64
  pr_owed :: nat
  pr_updates :: nat
  pr_seq :: u64
  pr_log :: "'b list"

datatype process_phase =
    ProcAuth
  | ProcManifest session
  | ProcFirst session
  | ProcSubscribe session
  | ProcLive session
  | ProcLeave session
  | ProcEnded

record 'b process_task =
  pk_phase :: process_phase
  pk_out :: "'b list"

definition process_task_new :: "'b process_task" where
  "process_task_new = \<lparr>pk_phase = ProcAuth, pk_out = []\<rparr>"

definition process_shared_new ::
  "(string \<Rightarrow> 'j) \<Rightarrow> string \<Rightarrow> string \<Rightarrow> string list \<Rightarrow> 'ch \<Rightarrow> ('j, 'ch, 'b) process_shared" where
  "process_shared_new metadata name command args ch =
     \<lparr>pr_authority = process_spawn command args ch,
      pr_manifest = \<lparr>m_identity = identity_local name, m_name = name, m_substrate = None,
        m_metadata = metadata command\<rparr>,
      pr_next = 1, pr_owed = 0, pr_updates = 0, pr_seq = 1, pr_log = []\<rparr>"

text \<open>The loop that publishes: one snapshot for every signal, numbered from 1; a snapshot that
  cannot be encoded is skipped, its number is not used again.\<close>

definition process_publish ::
  "('j, 'b, 'e) process_env \<Rightarrow> ('j, 'ch, 'b) process_shared \<Rightarrow> ('j, 'ch, 'b) process_shared" where
  "process_publish E sh =
     (if pr_updates sh = 0 then sh
      else
        let sh1 = sh\<lparr>pr_updates := pr_updates sh - 1, pr_seq := pr_seq sh + 1\<rparr>
        in case pe_enc E (Snapshot (pr_seq sh) (process_room_snapshot (pr_authority sh))) of
             Inl _ \<Rightarrow> sh1
           | Inr b \<Rightarrow> sh1\<lparr>pr_log := pr_log sh @ [b]\<rparr>)"

definition process_reply :: "bool \<Rightarrow> ('e + 'b) \<Rightarrow> process_phase \<Rightarrow> 'b process_task \<Rightarrow> 'b process_task" where
  "process_reply ok m nxt k =
     (case send_frame ok m (pk_out k) of
        None \<Rightarrow> k\<lparr>pk_phase := ProcEnded\<rparr>
      | Some out \<Rightarrow> \<lparr>pk_phase = nxt, pk_out = out\<rparr>)"

definition process_wait_auth ::
  "('j, 'b, 'e) process_env \<Rightarrow> ('ch \<Rightarrow> string \<Rightarrow> (string + unit) \<times> 'ch) \<Rightarrow> 'b net
    \<Rightarrow> ('j, 'ch, 'b) process_shared \<Rightarrow> 'b process_task \<Rightarrow> ('j, 'ch, 'b) process_shared \<times> 'b process_task" where
  "process_wait_auth E tx_send msg sh k =
     (case msg of
        NetEnd \<Rightarrow> (sh, k\<lparr>pk_phase := ProcEnded\<rparr>)
      | NetErr \<Rightarrow> (sh, k\<lparr>pk_phase := ProcEnded\<rparr>)
      | NetOther \<Rightarrow> (sh, k)
      | NetText txt \<Rightarrow>
          (case from_json (pe_dec E) txt of
             Inl _ \<Rightarrow> (sh, k\<lparr>pk_phase := ProcEnded\<rparr>)
           | Inr (Auth who name _) \<Rightarrow>
               (let s = session_new (pr_next sh) who (display_name who name);
                    sh1 = sh\<lparr>pr_next := pr_next sh + 1\<rparr>
                in case a_on_connect (of_simple (process_authority_of tx_send)) s (pr_authority sh) of
                     (Inl _, a) \<Rightarrow> (sh1\<lparr>pr_authority := a\<rparr>, k\<lparr>pk_phase := ProcEnded\<rparr>)
                   | (Inr _, a) \<Rightarrow> (sh1\<lparr>pr_authority := a\<rparr>, k\<lparr>pk_phase := ProcManifest s\<rparr>))
           | Inr _ \<Rightarrow> (sh, k)))"

definition process_main ::
  "('j, 'b, 'e) process_env \<Rightarrow> ('ch \<Rightarrow> string \<Rightarrow> (string + unit) \<times> 'ch) \<Rightarrow> bool \<Rightarrow> session \<Rightarrow> 'b task_input
    \<Rightarrow> ('j, 'ch, 'b) process_shared \<Rightarrow> 'b process_task \<Rightarrow> ('j, 'ch, 'b) process_shared \<times> 'b process_task" where
  "process_main E tx_send ok s inp sh k =
     (case inp of
        Proceed \<Rightarrow> (sh, k)
      | FromPeer NetErr \<Rightarrow> (sh, k\<lparr>pk_phase := ProcLeave s\<rparr>)
      | FromPeer NetEnd \<Rightarrow> (sh, k\<lparr>pk_phase := ProcLeave s\<rparr>)
      | FromPeer NetOther \<Rightarrow> (sh, k)
      | FromPeer (NetText txt) \<Rightarrow>
          (case from_json (pe_dec E) txt of
             Inl _ \<Rightarrow> (sh, k)
           | Inr (Intent i) \<Rightarrow>
               (case a_handle_intent (of_simple (process_authority_of tx_send)) s i (pr_authority sh) of
                  (Inl e, a) \<Rightarrow>
                    (sh\<lparr>pr_authority := a\<rparr>,
                     process_reply ok (pe_enc E (wire_error ''intent_error'' (process_error_text e))) (ProcLive s) k)
                | (Inr _, a) \<Rightarrow> (sh\<lparr>pr_authority := a\<rparr>, k))
           | Inr Ping \<Rightarrow> (sh, process_reply ok (pe_enc E Pong) (ProcLive s) k)
           | Inr _ \<Rightarrow> (sh, k))
      | FromChannel (ChanMsg b) \<Rightarrow> (sh, process_reply ok (Inr b :: 'e + 'b) (ProcLive s) k)
      | FromChannel (ChanLagged _) \<Rightarrow> (sh, k)
      | FromChannel ChanClosed \<Rightarrow> (sh, k\<lparr>pk_phase := ProcLeave s\<rparr>))"

definition process_step ::
  "('j, 'b, 'e) process_env \<Rightarrow> ('ch \<Rightarrow> string \<Rightarrow> (string + unit) \<times> 'ch) \<Rightarrow> bool \<times> 'b task_input
    \<Rightarrow> ('j, 'ch, 'b) process_shared \<Rightarrow> 'b process_task \<Rightarrow> ('j, 'ch, 'b) process_shared \<times> 'b process_task" where
  "process_step E tx_send x sh k =
     (case x of (ok, inp) \<Rightarrow>
        (case pk_phase k of
           ProcAuth \<Rightarrow> (case inp of FromPeer msg \<Rightarrow> process_wait_auth E tx_send msg sh k | _ \<Rightarrow> (sh, k))
         | ProcManifest s \<Rightarrow> (sh, process_reply ok (pe_enc E (Manifest (pr_manifest sh))) (ProcFirst s) k)
         | ProcFirst s \<Rightarrow>
             (sh, process_reply ok (pe_enc E (Snapshot 0 (process_room_snapshot (pr_authority sh)))) (ProcSubscribe s) k)
         | ProcSubscribe s \<Rightarrow> (sh, k\<lparr>pk_phase := ProcLive s\<rparr>)
         | ProcLive s \<Rightarrow> process_main E tx_send ok s inp sh k
         | ProcLeave s \<Rightarrow>
             (sh\<lparr>pr_authority := a_on_disconnect (of_simple (process_authority_of tx_send)) s (pr_authority sh)\<rparr>,
              k\<lparr>pk_phase := ProcEnded\<rparr>)
         | ProcEnded \<Rightarrow> (sh, k)))"

text \<open>The events of the whole server: a connection or one of its tasks, a line or the end of the
  subprocess that a background task puts into the state, the signal that the task sends after
  it has released the state, or a turn of the publishing loop.\<close>

datatype 'b process_event =
    Connection "(bool \<times> 'b task_input) server_event"
  | Stdout string
  | Stderr string
  | Exited "int option"
  | Signalled
  | Publish

definition process_output ::
  "(process_state \<Rightarrow> process_state) \<Rightarrow> ('j, 'ch, 'b) process_shared \<Rightarrow> ('j, 'ch, 'b) process_shared" where
  "process_output f sh =
     sh\<lparr>pr_authority := (pr_authority sh)\<lparr>pa_state := f (pa_state (pr_authority sh))\<rparr>,
        pr_owed := pr_owed sh + 1\<rparr>"

definition process_signal_update :: "('j, 'ch, 'b) process_shared \<Rightarrow> ('j, 'ch, 'b) process_shared" where
  "process_signal_update sh =
     (if pr_owed sh = 0 then sh
      else sh\<lparr>pr_owed := pr_owed sh - 1, pr_updates := pr_updates sh + 1\<rparr>)"

fun process_server_step ::
  "('j, 'b, 'e) process_env \<Rightarrow> ('ch \<Rightarrow> string \<Rightarrow> (string + unit) \<times> 'ch) \<Rightarrow> 'b process_event
    \<Rightarrow> (('j, 'ch, 'b) process_shared, 'b process_task) server
    \<Rightarrow> (('j, 'ch, 'b) process_shared, 'b process_task) server" where
  "process_server_step E tx_send (Connection ev) S = server_step process_task_new (process_step E tx_send) ev S"
| "process_server_step E tx_send (Stdout line) S =
     S\<lparr>srv_shared := process_output (process_on_stdout line) (srv_shared S)\<rparr>"
| "process_server_step E tx_send (Stderr line) S =
     S\<lparr>srv_shared := process_output (process_on_stderr line) (srv_shared S)\<rparr>"
| "process_server_step E tx_send (Exited code) S =
     S\<lparr>srv_shared := process_output (process_on_exit code) (srv_shared S)\<rparr>"
| "process_server_step E tx_send Signalled S = S\<lparr>srv_shared := process_signal_update (srv_shared S)\<rparr>"
| "process_server_step E tx_send Publish S = S\<lparr>srv_shared := process_publish E (srv_shared S)\<rparr>"

abbreviation process_run ::
  "('j, 'b, 'e) process_env \<Rightarrow> ('ch \<Rightarrow> string \<Rightarrow> (string + unit) \<times> 'ch) \<Rightarrow> 'b process_event list
    \<Rightarrow> (('j, 'ch, 'b) process_shared, 'b process_task) server
    \<Rightarrow> (('j, 'ch, 'b) process_shared, 'b process_task) server" where
  "process_run E tx_send evs S \<equiv> fold (process_server_step E tx_send) evs S"

subsection \<open>The terminal client\<close>

text \<open>What the client writes to its terminal: on standard output, or as a notice.\<close>

datatype term_out = Printed string | Notice string

definition process_parse_flag :: "string list \<Rightarrow> string \<Rightarrow> string option" where
  "process_parse_flag args flag =
     (case dropWhile (\<lambda>a. a \<noteq> flag) args of _ # v # _ \<Rightarrow> Some v | _ \<Rightarrow> None)"

definition exit_code_debug :: "int option \<Rightarrow> string" where
  "exit_code_debug c = (case c of None \<Rightarrow> ''None'' | Some i \<Rightarrow> ''Some('' @ show_int i @ '')'')"

definition exit_notice :: "process_snapshot \<Rightarrow> term_out" where
  "exit_notice d = Notice (''[process exited with '' @ exit_code_debug (psn_exit_code d) @ '']'')"

definition process_client_start :: "process_snapshot \<Rightarrow> term_out list \<times> nat" where
  "process_client_start d =
     (map Printed (psn_lines d) @ (if psn_running d then [] else [exit_notice d]),
      length (psn_lines d))"

fun process_client_recv ::
  "('j, process_snapshot) server_wire \<Rightarrow> nat \<Rightarrow> term_out list \<times> nat" where
  "process_client_recv (Snapshot _ d) seen =
     (map Printed (drop seen (psn_lines d)) @
        (if \<not> psn_running d \<and> length (psn_lines d) = length (psn_lines d) then [exit_notice d] else []),
      length (psn_lines d))"
| "process_client_recv (Error code msg) seen = ([Notice (''[error '' @ code @ '']: '' @ msg)], seen)"
| "process_client_recv (System msg) seen = ([Notice (''[system]: '' @ msg)], seen)"
| "process_client_recv (Manifest _) seen = ([], seen)"
| "process_client_recv (Transfer _ _) seen = ([], seen)"
| "process_client_recv Pong seen = ([], seen)"

definition process_client_input :: "string option \<Rightarrow> process_intent option" where
  "process_client_input line = map_option SendInput line"

fun process_client_run ::
  "('j, process_snapshot) server_wire list \<Rightarrow> nat \<Rightarrow> term_out list \<times> nat" where
  "process_client_run [] seen = ([], seen)"
| "process_client_run (w # ws) seen =
     (case process_client_recv w seen of
        (out, seen1) \<Rightarrow> (case process_client_run ws seen1 of (out', seen2) \<Rightarrow> (out @ out', seen2)))"

subsection \<open>What is published\<close>

text \<open>The lines and the end of the subprocess in an event list.\<close>

fun process_io :: "'b process_event \<Rightarrow> bool" where
  "process_io (Connection _) = False"
| "process_io Publish = False"
| "process_io Signalled = False"
| "process_io _ = True"

fun process_line :: "'b process_event \<Rightarrow> string list" where
  "process_line (Stdout line) = [line]"
| "process_line (Stderr line) = [''[stderr] '' @ line]"
| "process_line _ = []"

text \<open>A task leaves alone what the publishing loop uses, and what the room shows.\<close>

definition process_view ::
  "('j, 'ch, 'b) process_shared \<Rightarrow> process_snapshot \<times> nat \<times> nat \<times> u64 \<times> 'b list" where
  "process_view sh = (process_room_snapshot (pr_authority sh), pr_owed sh, pr_updates sh, pr_seq sh, pr_log sh)"

lemma process_connect_shown [simp]:
  "process_room_snapshot (snd (sa_on_connect (process_authority_of tx) s a)) = process_room_snapshot a"
  "process_room_snapshot (sa_on_disconnect (process_authority_of tx) s a) = process_room_snapshot a"
  "process_room_snapshot (snd (sa_handle_intent (process_authority_of tx) s i a)) = process_room_snapshot a"
  using process_shown.call_keeps [of a "process_room_snapshot a"] by simp_all

lemma process_step_view: "process_view (fst (process_step E tx x sh k)) = process_view sh"
proof (cases x)
  case (Pair ok inp)
  have 1: "process_room_snapshot a' = process_room_snapshot a"
    if "sa_on_connect (process_authority_of tx) s a = (r, a')" for s a r a'
    using process_connect_shown(1) [of tx s a] that by simp
  have 2: "process_room_snapshot a' = process_room_snapshot a"
    if "sa_handle_intent (process_authority_of tx) s i a = (r, a')" for s i a r a'
    using process_connect_shown(3) [of tx s i a] that by simp
  show ?thesis
  proof (cases "pk_phase k")
    case ProcAuth
    then show ?thesis
      by (auto simp: Pair process_step_def process_wait_auth_def process_view_def Let_def 1
          split: task_input.splits net.splits sum.splits client_wire.splits prod.splits)
  next
    case (ProcLive s)
    then show ?thesis
      by (auto simp: Pair process_step_def process_main_def process_view_def 2
          split: task_input.splits net.splits sum.splits client_wire.splits from_channel.splits prod.splits)
  qed (simp_all add: Pair process_step_def process_view_def)
qed

lemma process_server_step_view:
  "process_view (srv_shared (server_step process_task_new (process_step E tx) ev S)) = process_view (srv_shared S)"
  using process_step_view [of E tx _ "srv_shared S"]
  by (auto simp: server_step_def split: server_event.splits prod.splits) (metis fst_conv)

definition process_published ::
  "('j, 'b, 'e) process_env \<Rightarrow> 'b process_event list
    \<Rightarrow> process_snapshot \<times> nat \<times> nat \<times> u64 \<times> 'b list \<Rightarrow> bool" where
  "process_published E evs v \<longleftrightarrow>
     (case v of (d, owed, updates, q, log) \<Rightarrow>
        length log + updates + owed = length (filter process_io evs) \<and> q = of_nat (length log) + 1 \<and>
        (\<forall>i < length log. \<exists>d. pe_enc E (Snapshot (of_nat i + 1) d) = Inr (log ! i)) \<and>
        (updates = 0 \<and> owed = 0 \<and> log \<noteq> [] \<longrightarrow> pe_enc E (Snapshot (of_nat (length log)) d) = Inr (last log)) \<and>
        psn_lines d = last_n MAX_LINES (concat (map process_line evs)))"

lemma published_skip:
  "\<not> process_io ev \<Longrightarrow> process_line ev = [] \<Longrightarrow> process_published E (evs @ [ev]) v = process_published E evs v"
  by (simp add: process_published_def)

lemma process_room_snapshot_lines [simp]: "psn_lines (process_room_snapshot a) = ps_lines (pa_state a)"
  by (simp add: process_room_snapshot_def)

lemma published_output:
  assumes "process_published E evs (process_view sh)" and "process_io ev"
    and "ps_lines (f (pa_state (pr_authority sh))) =
      last_n MAX_LINES (ps_lines (pa_state (pr_authority sh)) @ process_line ev)"
  shows "process_published E (evs @ [ev]) (process_view (process_output f sh))"
  using assms
  by (simp add: process_published_def process_view_def process_output_def process_room_snapshot_def
      last_n_append_last_n)

lemma published_signal:
  assumes "process_published E evs (process_view sh)"
  shows "process_published E (evs @ [Signalled]) (process_view (process_signal_update sh))"
  using assms by (auto simp: published_skip process_signal_update_def process_published_def process_view_def)

lemma published_publish:
  assumes "process_published E evs (process_view sh)" and "\<forall>m. \<exists>b. pe_enc E m = Inr b"
  shows "process_published E (evs @ [Publish]) (process_view (process_publish E sh))"
proof (cases "pr_updates sh = 0")
  case True
  with assms show ?thesis by (simp add: published_skip process_publish_def)
next
  case False
  obtain b where b: "pe_enc E (Snapshot (pr_seq sh) (process_room_snapshot (pr_authority sh))) = Inr b"
    using assms(2) by blast
  with assms(1) False show ?thesis
    by (auto simp: process_published_def process_view_def process_publish_def Let_def nth_append less_Suc_eq add.commute)
qed

lemma published_run:
  assumes "\<forall>m. \<exists>b. pe_enc E m = Inr b"
  shows "process_published E evs
    (process_view (srv_shared (process_run E tx evs
       \<lparr>srv_shared = process_shared_new metadata name command args ch, srv_tasks = []\<rparr>)))"
proof (induction evs rule: rev_induct)
  case Nil
  show ?case
    by (simp add: process_published_def process_view_def process_shared_new_def process_spawn_def
        process_room_snapshot_def last_n_def)
next
  case (snoc ev evs)
  define S where "S = process_run E tx evs
    \<lparr>srv_shared = process_shared_new metadata name command args ch, srv_tasks = []\<rparr>"
  have IH: "process_published E evs (process_view (srv_shared S))"
    using snoc.IH by (simp add: S_def)
  have len: "length (ps_lines (pa_state (pr_authority (srv_shared S)))) \<le> MAX_LINES"
    using IH by (simp add: process_published_def process_view_def process_room_snapshot_def)
  note push = process_push_line_def push_bounded_last_n [OF len]
  show ?case
  proof (cases ev)
    case (Connection c)
    with IH show ?thesis
      by (simp add: S_def [symmetric] process_server_step_view published_skip)
  next
    case (Stdout line)
    with published_output [OF IH, of ev "process_on_stdout line"] show ?thesis
      by (simp add: S_def [symmetric] process_on_stdout_def push)
  next
    case (Stderr line)
    with published_output [OF IH, of ev "process_on_stderr line"] show ?thesis
      by (simp add: S_def [symmetric] process_on_stderr_def push)
  next
    case (Exited code)
    with published_output [OF IH, of ev "process_on_exit code"] len show ?thesis
      by (simp add: S_def [symmetric] process_on_exit_def last_n_all)
  next
    case Signalled
    with published_signal [OF IH] show ?thesis
      by (simp add: S_def [symmetric])
  next
    case Publish
    with published_publish [OF IH assms] show ?thesis
      by (simp add: S_def [symmetric])
  qed
qed

text \<open>C30: when every message can be encoded, the snapshots put into the channel are numbered from 1
  without a gap, and with the signals that wait in the update channel and those still to be sent
  there are as many as there were changes of the room; whenever there are none of either, the
  last snapshot shows the room as it is; and the room shows the last 200
  lines of the subprocess's output in the order in which they were read, whatever the
  sessions did.\<close>

theorem process_snapshots_published:
  assumes "\<forall>m. \<exists>b. pe_enc E m = Inr b"
    and "process_run E tx evs \<lparr>srv_shared = process_shared_new metadata name command args ch, srv_tasks = []\<rparr> = S"
  shows "length (pr_log (srv_shared S)) + pr_updates (srv_shared S) + pr_owed (srv_shared S) = length (filter process_io evs) \<and>
    (\<forall>i < length (pr_log (srv_shared S)). \<exists>d. pe_enc E (Snapshot (of_nat i + 1) d) = Inr (pr_log (srv_shared S) ! i)) \<and>
    (pr_updates (srv_shared S) = 0 \<and> pr_owed (srv_shared S) = 0 \<and> pr_log (srv_shared S) \<noteq> [] \<longrightarrow>
      pe_enc E (Snapshot (of_nat (length (pr_log (srv_shared S)))) (process_room_snapshot (pr_authority (srv_shared S)))) =
        Inr (last (pr_log (srv_shared S)))) \<and>
    ps_lines (pa_state (pr_authority (srv_shared S))) = last_n MAX_LINES (concat (map process_line evs))"
  using published_run [OF assms(1), of evs tx metadata name command args ch]
  unfolding assms(2) process_published_def process_view_def prod.case process_room_snapshot_lines by blast

text \<open>A room whose process printed two lines and ended; the loop has taken one signal, then the two
  others.\<close>

definition demo_process_env :: "(unit, (unit, process_snapshot) server_wire, unit) process_env" where
  "demo_process_env = \<lparr>pe_enc = \<lambda>m. Inr m, pe_dec = \<lambda>_. Inl ()\<rparr>"

theorem process_snapshots_published_witness:
  "pr_log (srv_shared (process_run demo_process_env (\<lambda>(ch :: nat) _. (Inr (), ch))
       [Stdout ''a'', Signalled, Publish, Stderr ''b'', Exited (Some 0), Signalled, Signalled, Publish, Publish]
       \<lparr>srv_shared = process_shared_new (\<lambda>_. ()) ''p'' ''sh'' [] 0, srv_tasks = []\<rparr>)) ! 2 =
     Snapshot 3 \<lparr>psn_lines = [''a'', ''[stderr] b''], psn_running = False, psn_exit_code = Some 0, psn_command = ''sh''\<rparr>"
proof -
  define S where "S = process_run demo_process_env (\<lambda>(ch :: nat) _. (Inr (), ch))
       [Stdout ''a'', Signalled, Publish, Stderr ''b'', Exited (Some 0), Signalled, Signalled, Publish, Publish]
       \<lparr>srv_shared = process_shared_new (\<lambda>_. ()) ''p'' ''sh'' [] 0, srv_tasks = []\<rparr>"
  have enc: "\<forall>m. \<exists>b. pe_enc demo_process_env m = Inr b"
    by (simp add: demo_process_env_def)
  have now: "pr_updates (srv_shared S) = 0" "pr_owed (srv_shared S) = 0" "length (pr_log (srv_shared S)) = 3"
    "process_room_snapshot (pr_authority (srv_shared S)) =
       \<lparr>psn_lines = [''a'', ''[stderr] b''], psn_running = False, psn_exit_code = Some 0, psn_command = ''sh''\<rparr>"
    unfolding S_def by code_simp+
  from now(3) have "pr_log (srv_shared S) \<noteq> []" by auto
  with process_snapshots_published [OF enc S_def [symmetric]] now
  have "pe_enc demo_process_env (Snapshot (of_nat 3)
       \<lparr>psn_lines = [''a'', ''[stderr] b''], psn_running = False, psn_exit_code = Some 0, psn_command = ''sh''\<rparr>) =
     Inr (last (pr_log (srv_shared S)))"
    by simp
  moreover have "last (pr_log (srv_shared S)) = pr_log (srv_shared S) ! 2"
    using now(3) by (simp add: last_conv_nth \<open>pr_log (srv_shared S) \<noteq> []\<close>)
  ultimately show ?thesis
    unfolding S_def [symmetric] by (simp add: demo_process_env_def)
qed

subsection \<open>What the terminal shows\<close>

definition printed :: "term_out list \<Rightarrow> string list" where
  "printed out = concat (map (\<lambda>t. case t of Printed l \<Rightarrow> [l] | Notice _ \<Rightarrow> []) out)"

lemma printed_simps [simp]:
  "printed [] = []" "printed (Printed l # out) = l # printed out" "printed (Notice n # out) = printed out"
  "printed (xs @ ys) = printed xs @ printed ys" "printed (map Printed ls) = ls"
  by (simp_all add: printed_def) (induction ls, simp_all)

text \<open>The snapshots that show the room after \<open>n\<close> lines of output, for each \<open>n\<close> of a list.\<close>

definition shows_output :: "string list \<Rightarrow> nat list \<Rightarrow> ('j, process_snapshot) server_wire list \<Rightarrow> bool" where
  "shows_output ls ns ws \<longleftrightarrow>
     list_all2 (\<lambda>n w. \<exists>q d. w = Snapshot q d \<and> psn_lines d = last_n MAX_LINES (take n ls)) ns ws"

lemma sorted_bounds: "sorted (n # ns) \<Longrightarrow> m \<in> set (n # ns) \<Longrightarrow> n \<le> m \<and> m \<le> last (n # ns)"
proof (induction ns arbitrary: n m)
  case (Cons k ks)
  have k: "k \<le> last (k # ks)"
    using Cons.IH [of k k] Cons.prems(1) by simp
  show ?case
  proof (cases "m = n")
    case True
    with Cons.prems(1) k show ?thesis by (auto intro: le_trans)
  next
    case False
    with Cons.prems have "m \<in> set (k # ks)" "sorted (k # ks)" "n \<le> m" by auto
    with Cons.IH show ?thesis by fastforce
  qed
qed simp

lemma drop_take_parts:
  "n \<le> m \<Longrightarrow> m \<le> k \<Longrightarrow> m \<le> length xs \<Longrightarrow> drop n (take m xs) @ drop m (take k xs) = drop n (take k xs)"
proof -
  assume n: "n \<le> m" "m \<le> k" "m \<le> length xs"
  then have "take k xs = take m xs @ drop m (take k xs)"
    by (metis append_take_drop_id min.absorb1 take_take)
  then have "drop n (take k xs) = drop n (take m xs @ drop m (take k xs))"
    by simp
  then show ?thesis
    using n by simp
qed

lemma client_run_short:
  "shows_output ls ns ws \<Longrightarrow> sorted (n # ns) \<Longrightarrow> (\<forall>m \<in> set (n # ns). m \<le> MAX_LINES \<and> m \<le> length ls) \<Longrightarrow>
     printed (fst (process_client_run ws n)) = drop n (take (last (n # ns)) ls)"
proof (induction ns arbitrary: n ws)
  case Nil
  then show ?case by (simp add: shows_output_def)
next
  case (Cons m ns)
  then obtain q d ws' where ws: "ws = Snapshot q d # ws'" "psn_lines d = last_n MAX_LINES (take m ls)"
      "shows_output ls ns ws'"
    by (auto simp: shows_output_def list_all2_Cons1)
  have m: "m \<le> MAX_LINES" "m \<le> length ls" "n \<le> m" "m \<le> last (m # ns)"
    using Cons.prems(2,3) sorted_bounds [of m ns m] by auto
  then have d: "psn_lines d = take m ls"
    using ws(2) by (simp add: last_n_all)
  have "printed (fst (process_client_run ws' m)) = drop m (take (last (m # ns)) ls)"
    using Cons.prems by (intro Cons.IH ws(3)) auto
  with ws(1) d m drop_take_parts [OF m(3,4,2)] show ?case
    by (cases "ns = []") (simp_all add: exit_notice_def case_prod_unfold)
qed

lemma client_run_long:
  "shows_output ls ns ws \<Longrightarrow> (\<forall>m \<in> set ns. MAX_LINES \<le> m \<and> m \<le> length ls) \<Longrightarrow>
     printed (fst (process_client_run ws MAX_LINES)) = []"
proof (induction ns arbitrary: ws)
  case Nil
  then show ?case by (simp add: shows_output_def)
next
  case (Cons m ns)
  then obtain q d ws' where ws: "ws = Snapshot q d # ws'" "psn_lines d = last_n MAX_LINES (take m ls)"
      "shows_output ls ns ws'"
    by (auto simp: shows_output_def list_all2_Cons1)
  have len: "length (psn_lines d) = MAX_LINES"
    using ws(2) Cons.prems(2) by simp
  have "printed (fst (process_client_run ws' MAX_LINES)) = []"
    using Cons.prems by (intro Cons.IH ws(3)) auto
  with ws(1) len show ?case
    by (simp add: exit_notice_def case_prod_unfold)
qed

text \<open>A client whose first snapshot showed \<open>n\<close> lines of output, and the later ones more and more,
  prints each line once and in order as long as there are at most 200; but once the first
  snapshot, or a later one, shows a full window, it prints none of the lines of the snapshots
  that follow.\<close>

lemma process_client_prints:
  assumes "shows_output ls (n # ns) (Snapshot q d # ws)" and "sorted (n # ns)" and "last (n # ns) \<le> length ls"
  shows "(last (n # ns) \<le> MAX_LINES \<longrightarrow>
      printed (fst (process_client_start d) @ fst (process_client_run ws (snd (process_client_start d)))) =
        take (last (n # ns)) ls) \<and>
    (MAX_LINES \<le> n \<longrightarrow>
      printed (fst (process_client_run ws (snd (process_client_start d)))) = [])"
proof (intro conjI impI)
  have d: "psn_lines d = last_n MAX_LINES (take n ls)" and ws: "shows_output ls ns ws"
    using assms(1) by (auto simp: shows_output_def)
  have n: "n \<le> last (n # ns)" "\<forall>m \<in> set (n # ns). n \<le> m \<and> m \<le> last (n # ns)"
    using sorted_bounds [OF assms(2)] by (simp, blast)
  {
    assume "last (n # ns) \<le> MAX_LINES"
    with n assms(3) have le: "\<forall>m \<in> set (n # ns). m \<le> MAX_LINES \<and> m \<le> length ls"
      by (meson le_trans)
    then have "psn_lines d = take n ls" by (simp add: d last_n_all)
    then show "printed (fst (process_client_start d) @ fst (process_client_run ws (snd (process_client_start d)))) =
        take (last (n # ns)) ls"
      using client_run_short [OF ws assms(2) le] n(1) le drop_take_parts [of 0 n "last (n # ns)" ls]
      by (cases "ns = []") (simp_all add: process_client_start_def exit_notice_def)
  }
  assume "MAX_LINES \<le> n"
  with n assms(3) have "\<forall>m \<in> set ns. MAX_LINES \<le> m \<and> m \<le> length ls"
    by (meson le_trans list.set_intros(2))
  moreover have "length (psn_lines d) = MAX_LINES"
    using \<open>MAX_LINES \<le> n\<close> n(1) assms(3) by (simp add: d)
  ultimately show "printed (fst (process_client_run ws (snd (process_client_start d)))) = []"
    using client_run_long [OF ws] by (simp add: process_client_start_def)
qed

text \<open>A client that joins after one line and then sees two and three.\<close>

lemma process_client_prints_witness:
  "let snap = (\<lambda>ls. \<lparr>psn_lines = ls, psn_running = True, psn_exit_code = None, psn_command = ''sh''\<rparr>)
   in printed (fst (process_client_start (snap [''a''])) @
        fst (process_client_run [Snapshot 1 (snap [''a'', ''b'']), Snapshot 2 (snap [''a'', ''b'', ''c'']) :: (unit, process_snapshot) server_wire]
          (snd (process_client_start (snap [''a'']))))) = [''a'', ''b'', ''c'']"
proof -
  define snap where "snap = (\<lambda>ls. \<lparr>psn_lines = ls, psn_running = True, psn_exit_code = None, psn_command = ''sh''\<rparr>)"
  have "shows_output [''a'', ''b'', ''c''] (1 # [2, 3])
      (Snapshot 0 (snap [''a'']) # [Snapshot 1 (snap [''a'', ''b'']), Snapshot 2 (snap [''a'', ''b'', ''c'']) :: (unit, process_snapshot) server_wire])"
    by (simp add: shows_output_def snap_def MAX_LINES_def last_n_def)
  from process_client_prints [OF this] show ?thesis
    unfolding Let_def snap_def by (simp add: MAX_LINES_def)
qed

end
