(* ===== verification/Entry_Points.thy ===== *)
theory Entry_Points
  imports Room_System Connector_Rooms Process_Room
begin

section \<open>Starting the programs\<close>

text \<open>
  \<^verbatim>\<open>crates/interconnect-daemon/src/daemon_main.rs\<close>: the arguments of the daemon, its socket path
  and its configuration; the part of \<^verbatim>\<open>Daemon::run\<close> (\<^verbatim>\<open>daemon.rs\<close>) that starts the configured
  rooms one after the other; the socket path of the command line client (\<^verbatim>\<open>cli_main.rs\<close>); and
  the \<^verbatim>\<open>main\<close> functions of the example servers (\<^verbatim>\<open>examples/*/src/main.rs\<close>), which read their flags
  and call their server. The environment and the file system are parameters; the arguments
  include the program's name where the code keeps it.
\<close>

subsection \<open>The daemon's arguments and its socket\<close>

definition default_socket_path :: "(string \<Rightarrow> string option) \<Rightarrow> string" where
  "default_socket_path env =
     (case env ''INTERCONNECT_SOCK'' of
        Some val \<Rightarrow> val
      | None \<Rightarrow>
          (let home = (case env ''HOME'' of None \<Rightarrow> ''/tmp'' | Some h \<Rightarrow> h)
           in path_join (path_join home ''.interconnect'') ''daemon.sock''))"

datatype daemon_args = ArgsBail string | ArgsHelp | ArgsOk string string

fun parse_daemon_args :: "string list \<Rightarrow> string \<Rightarrow> string \<Rightarrow> daemon_args" where
  "parse_daemon_args [] config_path socket_path = ArgsOk config_path socket_path"
| "parse_daemon_args (arg # rest) config_path socket_path =
     (if arg = ''--config'' \<or> arg = ''-c'' then
        (case rest of
           [] \<Rightarrow> ArgsBail ''--config requires a path''
         | p # rest' \<Rightarrow> parse_daemon_args rest' p socket_path)
      else if arg = ''--socket'' \<or> arg = ''-s'' then
        (case rest of
           [] \<Rightarrow> ArgsBail ''--socket requires a path''
         | p # rest' \<Rightarrow> parse_daemon_args rest' config_path p)
      else if arg = ''--help'' \<or> arg = ''-h'' then ArgsHelp
      else ArgsBail (''unknown argument: '' @ arg))"

datatype ('io, 'p, 'j) launch = LaunchBail string | LaunchConfigError "('io, 'p) config_error" | LaunchHelp | Launch "'j config" string

definition daemon_main ::
  "(string \<Rightarrow> string option) \<Rightarrow> (string \<Rightarrow> bool) \<Rightarrow> (string \<Rightarrow> 'io + string) \<Rightarrow> (string \<Rightarrow> 'p + 'j config)
    \<Rightarrow> string list \<Rightarrow> ('io, 'p, 'j) launch" where
  "daemon_main env path_exists read_file parse_toml args =
     (case parse_daemon_args (drop 1 args) ''interconnect.toml'' (default_socket_path env) of
        ArgsBail e \<Rightarrow> LaunchBail e
      | ArgsHelp \<Rightarrow> LaunchHelp
      | ArgsOk config_path socket_path \<Rightarrow>
          if path_exists config_path
          then (case config_load read_file parse_toml config_path of
                  Inl e \<Rightarrow> LaunchConfigError e
                | Inr config \<Rightarrow> Launch config socket_path)
          else Launch config_default socket_path)"

text \<open>The command line client: its flag, then the variable (both by its argument parser), then its own
  default.\<close>

definition cli_socket_path :: "(string \<Rightarrow> string option) \<Rightarrow> string option \<Rightarrow> string" where
  "cli_socket_path env flag =
     (case flag of
        Some p \<Rightarrow> p
      | None \<Rightarrow>
          (case env ''INTERCONNECT_SOCK'' of
             Some p \<Rightarrow> p
           | None \<Rightarrow>
               (let home = (case env ''HOME'' of None \<Rightarrow> ''/tmp'' | Some h \<Rightarrow> h)
                in path_join (path_join home ''.interconnect'') ''daemon.sock'')))"

lemma cli_meets_daemon: "cli_socket_path env None = default_socket_path env"
  by (simp add: cli_socket_path_def default_socket_path_def split: option.split)

text \<open>The last of several paths counts; options in their long and short forms mean the same.\<close>

lemma parse_daemon_args_pairs:
  "\<forall>(f, p) \<in> set opts. f \<in> {''--config'', ''-c'', ''--socket'', ''-s''} \<Longrightarrow>
     parse_daemon_args (concat (map (\<lambda>(f, p). [f, p]) opts)) c s =
       ArgsOk (last (c # map snd (filter (\<lambda>(f, p). f \<in> {''--config'', ''-c''}) opts)))
              (last (s # map snd (filter (\<lambda>(f, p). f \<in> {''--socket'', ''-s''}) opts)))"
proof (induction opts arbitrary: c s)
  case (Cons opt opts)
  obtain f p where opt: "opt = (f, p)" by (cases opt)
  with Cons.prems have f: "f = ''--config'' \<or> f = ''-c'' \<or> f = ''--socket'' \<or> f = ''-s''"
    and rest: "\<forall>(f, p) \<in> set opts. f \<in> {''--config'', ''-c'', ''--socket'', ''-s''}" by simp_all
  from f Cons.IH [OF rest] show ?case
    unfolding opt by (elim disjE) simp_all
qed simp

subsection \<open>Starting the configured rooms\<close>

text \<open>The rooms are spawned one after the other: one that cannot be spawned is reported and left
  without a connector; a panic ends the program. The result has the rooms with the sending halves
  of their intent channels, and for each started room its connection and first snapshot.\<close>

fun start_rooms ::
  "'j json_ops \<Rightarrow> ('c, 'j, 'o) connectors \<Rightarrow> 'j room_config list \<Rightarrow> ('j, 'n, 'j list) rooms
    \<Rightarrow> (('j, 'n, 'j list) rooms \<times> (string \<times> 'c \<times> 'j) list) outcome" where
  "start_rooms J K [] rooms = Done (rooms, [])"
| "start_rooms J K (cfg # cfgs) rooms =
     (case spawn_room J K cfg of
        Panic \<Rightarrow> Panic
      | Done (Inl _) \<Rightarrow> start_rooms J K cfgs rooms
      | Done (Inr started) \<Rightarrow>
          bind_outcome (start_rooms J K cfgs (store_handle (rc_name cfg) [] rooms))
            (\<lambda>(rooms', rest). Done (rooms', (rc_name cfg, started) # rest)))"

definition daemon_boot ::
  "'j json_ops \<Rightarrow> ('c, 'j, 'o) connectors \<Rightarrow> ('j, 'n, 'k, 'j list) daemon_env \<Rightarrow> 'j config
    \<Rightarrow> (('j, 'n, 'j list) rooms \<times> (string \<times> 'c \<times> 'j) list) outcome" where
  "daemon_boot J K E config =
     (let rooms = daemon_new E config in start_rooms J K (map (rs_config \<circ> snd) rooms) rooms)"

text \<open>The room that a configuration gives a name: the last one with it.\<close>

definition configured :: "'j config \<Rightarrow> string \<Rightarrow> 'j room_config option" where
  "configured config name = find (\<lambda>rc. rc_name rc = name) (rev (cfg_room config))"

lemma configured_name: "configured config name = Some rc \<Longrightarrow> rc_name rc = name \<and> rc \<in> set (cfg_room config)"
  by (auto simp: configured_def find_Some_iff) (metis length_rev nth_mem set_rev)

lemma configured_None: "configured config name = None \<longleftrightarrow> name \<notin> rc_name ` set (cfg_room config)"
  by (auto simp: configured_def find_None_iff)

definition started_as :: "'j json_ops \<Rightarrow> ('c, 'j, 'o) connectors \<Rightarrow> 'j room_config \<Rightarrow> ('c \<times> 'j) option" where
  "started_as J K rc = (case spawn_room J K rc of Done (Inr st) \<Rightarrow> Some st | _ \<Rightarrow> None)"

lemma start_rooms_panic:
  "start_rooms J K cfgs rooms = Panic \<longleftrightarrow> (\<exists>rc \<in> set cfgs. spawn_room J K rc = Panic)"
proof (induction cfgs arbitrary: rooms)
  case (Cons cfg cfgs)
  have bind: "bind_outcome m (\<lambda>(rooms', rest). Done (rooms', x # rest)) = Panic \<longleftrightarrow> m = Panic" for m x
    by (cases m) auto
  show ?case
    by (auto simp: Cons.IH bind split: outcome.splits sum.splits)
qed simp

lemma start_rooms_started:
  assumes "start_rooms J K cfgs rooms = Done (rooms', started)"
  shows "rooms' = fold (\<lambda>(name, h). store_handle name h) (map (\<lambda>(name, _). (name, [])) started) rooms \<and>
     map fst started = map rc_name (filter (\<lambda>rc. started_as J K rc \<noteq> None) cfgs) \<and>
     (\<forall>rc st. distinct (map rc_name cfgs) \<longrightarrow> rc \<in> set cfgs \<longrightarrow>
        map_of started (rc_name rc) = started_as J K rc)"
  using assms
proof (induction cfgs arbitrary: rooms started)
  case (Cons cfg cfgs)
  have notin: "map_of st (rc_name cfg) = None" if "rc_name cfg \<notin> set (map rc_name cfgs)"
      "map fst st = map rc_name (filter (\<lambda>rc. started_as J K rc \<noteq> None) cfgs)" for st :: "(string \<times> 'c \<times> 'a) list"
  proof -
    have "fst ` set st \<subseteq> set (map rc_name cfgs)"
      using arg_cong [OF that(2), of set] by auto
    with that(1) show ?thesis by (auto simp: map_of_eq_None_iff)
  qed
  show ?case
  proof (cases "started_as J K cfg")
    case None
    with Cons.prems have "start_rooms J K cfgs rooms = Done (rooms', started)"
      by (auto simp: started_as_def split: outcome.splits sum.splits)
    from Cons.IH [OF this] None notin [of started] show ?thesis by auto
  next
    case (Some st)
    with Cons.prems obtain rest where rest: "start_rooms J K cfgs (store_handle (rc_name cfg) [] rooms) = Done (rooms', rest)"
        "started = (rc_name cfg, st) # rest"
      by (auto simp: started_as_def split: outcome.splits sum.splits)
    from Cons.IH [OF rest(1)] Some rest(2) show ?thesis
      by (auto simp del: not_None_eq) (metis imageI)+
  qed
qed simp

lemma daemon_new_configs:
  shows "map rc_name (map (rs_config \<circ> snd) (daemon_new E config)) = map fst (daemon_new E config)"
    and "distinct (map fst (daemon_new E config))"
    and "rc \<in> set (map (rs_config \<circ> snd) (daemon_new E config)) \<longleftrightarrow> configured config (rc_name rc) = Some rc"
proof -
  show d: "distinct (map fst (daemon_new E config))"
    using map_inv_daemon_new [of E config] by (simp add: map_inv_def)
  have member: "(n, st) \<in> set (daemon_new E config) \<longleftrightarrow> map_option (room_state_new E) (configured config n) = Some st" for n st
    using map_of_eq_Some_iff [OF d] by (simp add: daemon_new_lookup configured_def)
  have name: "rc_name (rs_config st) = n" if "(n, st) \<in> set (daemon_new E config)" for n st
    using that by (auto simp: member room_state_new_def dest: configured_name)
  then show "map rc_name (map (rs_config \<circ> snd) (daemon_new E config)) = map fst (daemon_new E config)"
    by auto
  show "rc \<in> set (map (rs_config \<circ> snd) (daemon_new E config)) \<longleftrightarrow> configured config (rc_name rc) = Some rc"
  proof
    assume "rc \<in> set (map (rs_config \<circ> snd) (daemon_new E config))"
    then obtain n st where "(n, st) \<in> set (daemon_new E config)" "rc = rs_config st" by auto
    with name [of n st] show "configured config (rc_name rc) = Some rc"
      by (auto simp: member room_state_new_def)
  next
    assume "configured config (rc_name rc) = Some rc"
    then have "(rc_name rc, room_state_new E rc) \<in> set (daemon_new E config)" by (simp add: member)
    then show "rc \<in> set (map (rs_config \<circ> snd) (daemon_new E config))"
      by (force simp: room_state_new_def)
  qed
qed

lemma fold_store_handles:
  "map_of (fold (\<lambda>(name, h). store_handle name h) (map (\<lambda>(name, _). (name, [])) started) rooms) name =
     map_option (\<lambda>r. if map_of started name = None then r else r\<lparr>rs_handle := Some []\<rparr>) (map_of rooms name)"
proof (induction started arbitrary: rooms)
  case Nil
  then show ?case by (cases "map_of rooms name") simp_all
next
  case (Cons x started)
  obtain n st where "x = (n, st)" by (cases x)
  with Cons.IH [of "store_handle n [] rooms"] show ?case
    by (cases "map_of rooms name") (auto simp: store_handle_def)
qed

text \<open>C16: the daemon starts with exactly the rooms its configuration names, each with the last of the
  entries of its name, empty, and with a connector exactly when that entry's connector could be
  spawned; the handles are the empty intent channels and the state is the one that the daemon's
  connections start from. It does not start at all exactly when one of these entries makes
  spawning panic.\<close>

theorem daemon_boots:
  "(daemon_boot J K E config = Panic \<longleftrightarrow>
      (\<exists>name rc. configured config name = Some rc \<and> spawn_room J K rc = Panic)) \<and>
   (\<forall>rooms started. daemon_boot J K E config = Done (rooms, started) \<longrightarrow>
      rooms = d_rooms (daemon_start E config (map (\<lambda>(name, _). (name, [])) started)) \<and>
      (\<forall>name. map_of rooms name =
         map_option (\<lambda>rc. (room_state_new E rc)\<lparr>rs_handle := map_option (\<lambda>_. []) (started_as J K rc)\<rparr>) (configured config name) \<and>
         map_of started name = Option.bind (configured config name) (started_as J K)))"
proof (intro conjI allI impI)
  let ?cfgs = "map (rs_config \<circ> snd) (daemon_new E config)"
  note cfgs = daemon_new_configs [where E = E and config = config]
  show "daemon_boot J K E config = Panic \<longleftrightarrow> (\<exists>name rc. configured config name = Some rc \<and> spawn_room J K rc = Panic)"
    unfolding daemon_boot_def Let_def start_rooms_panic Bex_def cfgs(3) using configured_name by metis
  fix rooms started
  assume "daemon_boot J K E config = Done (rooms, started)"
  then have "start_rooms J K ?cfgs (daemon_new E config) = Done (rooms, started)"
    by (simp add: daemon_boot_def Let_def)
  note st = start_rooms_started [OF this]
  have dist: "distinct (map rc_name ?cfgs)"
    unfolding cfgs(1) by (rule cfgs(2))
  show rooms: "rooms = d_rooms (daemon_start E config (map (\<lambda>(name, _). (name, [])) started))"
    using st by (simp add: daemon_start_def)
  fix name
  show started: "map_of started name = Option.bind (configured config name) (started_as J K)"
  proof (cases "configured config name")
    case (Some rc)
    with configured_name [OF Some] cfgs(3) [of rc] have "rc \<in> set ?cfgs" "rc_name rc = name" by auto
    with st dist Some show ?thesis by auto
  next
    case None
    have "name \<notin> fst ` set started"
    proof
      assume "name \<in> fst ` set started"
      then have "name \<in> set (map fst started)" by simp
      also have "map fst started = map rc_name (filter (\<lambda>rc. started_as J K rc \<noteq> None) ?cfgs)"
        using st by blast
      finally obtain rc where "rc \<in> set ?cfgs" "rc_name rc = name" by auto
      with None cfgs(3) [of rc] show False by simp
    qed
    with None show ?thesis by (simp add: map_of_eq_None_iff)
  qed
  show "map_of rooms name =
      map_option (\<lambda>rc. (room_state_new E rc)\<lparr>rs_handle := map_option (\<lambda>_. []) (started_as J K rc)\<rparr>) (configured config name)"
    using st started fold_store_handles [of started "daemon_new E config" name]
    by (cases "configured config name")
      (auto simp: daemon_new_lookup configured_def room_state_new_def split: option.splits)
qed

text \<open>Two rooms whose connectors all succeed, one of them with an unknown connector.\<close>

definition booting :: "(nat, json, unit) connectors" where
  "booting =
     \<lparr>connect_slack = (\<lambda>_ _ _. Inl []), connect_discord = (\<lambda>_ _. Inl []), connect_sqlite_generic = (\<lambda>_ _. Inl []),
      connect_sqlite_chat = (\<lambda>_ _. Inl []), connect_telegram = (\<lambda>_ _. Inl []), connect_matrix = (\<lambda>_ _ _. Inl []),
      connect_irc = (\<lambda>_ _ _ _. Inl []), connect_zulip = (\<lambda>_ _ _ _ _. Inl []), connect_maillist = (\<lambda>_ _ _ _. Inl []),
      connect_signal = (\<lambda>_ _ _. Inl []), connect_github = (\<lambda>_ _ _ _. Inl []), connect_whatsapp = (\<lambda>_ _ _. Inl []),
      connect_fs = (\<lambda>root. Inr (length root, Some (JStr root))), chat_config = (\<lambda>_. None), chat_default = ()\<rparr>"

definition boot_config :: "json config" where
  "boot_config = \<lparr>cfg_room =
     [\<lparr>rc_name = ''docs'', rc_connector = ''irc'', rc_options = JNull\<rparr>,
      \<lparr>rc_name = ''old'', rc_connector = ''gopher'', rc_options = JNull\<rparr>,
      \<lparr>rc_name = ''docs'', rc_connector = ''fs'', rc_options = JObj [(''root'', JStr ''/d'')]\<rparr>]\<rparr>"

theorem daemon_boots_witness:
  "\<exists>rooms started. daemon_boot value_json booting relay_env boot_config = Done (rooms, started) \<and>
     map_of started ''docs'' = Some (2, JStr ''/d'') \<and> map_of started ''old'' = None \<and>
     (\<exists>r. map_of rooms ''docs'' = Some r \<and> rs_handle r = Some [])"
proof -
  have st: "started_as value_json booting \<lparr>rc_name = ''docs'', rc_connector = ''fs'', rc_options = JObj [(''root'', JStr ''/d'')]\<rparr> = Some (2, JStr ''/d'')"
      "started_as value_json booting \<lparr>rc_name = ''old'', rc_connector = ''gopher'', rc_options = JNull\<rparr> = None"
    by code_simp+
  have cfg: "configured boot_config ''docs'' = Some \<lparr>rc_name = ''docs'', rc_connector = ''fs'', rc_options = JObj [(''root'', JStr ''/d'')]\<rparr>"
      "configured boot_config ''old'' = Some \<lparr>rc_name = ''old'', rc_connector = ''gopher'', rc_options = JNull\<rparr>"
    by (simp_all add: configured_def boot_config_def)
  have "map_option (map fst) (case daemon_boot value_json booting relay_env boot_config of Panic \<Rightarrow> None | Done (_, st) \<Rightarrow> Some st) = Some [''docs'']"
    by code_simp
  then obtain rooms started where boot: "daemon_boot value_json booting relay_env boot_config = Done (rooms, started)"
    by (cases "daemon_boot value_json booting relay_env boot_config") auto
  note b = mp [OF spec [OF spec [OF conjunct2 [OF daemon_boots]]] boot]
  have "map_of started ''docs'' = Some (2, JStr ''/d'')" "map_of started ''old'' = None"
    using conjunct2 [OF spec [OF conjunct2 [OF b], of "''docs''"]] conjunct2 [OF spec [OF conjunct2 [OF b], of "''old''"]] cfg st
    by simp_all
  moreover have "\<exists>r. map_of rooms ''docs'' = Some r \<and> rs_handle r = Some []"
    using conjunct1 [OF spec [OF conjunct2 [OF b], of "''docs''"]] cfg st by simp
  ultimately show ?thesis using boot by blast
qed

subsection \<open>The example servers\<close>

text \<open>Every one has the same two functions for its flags; \<open>process_parse_flag\<close> is the one for strings.\<close>

definition parse_flag_u16 :: "string list \<Rightarrow> string \<Rightarrow> nat option" where
  "parse_flag_u16 args flag = Option.bind (process_parse_flag args flag) (parse_unsigned (2 ^ 16))"

definition or_default :: "'a option \<Rightarrow> 'a \<Rightarrow> 'a" where
  "or_default x d = (case x of None \<Rightarrow> d | Some y \<Rightarrow> y)"

definition chat_main :: "string list \<Rightarrow> nat \<times> string \<times> string option" where
  "chat_main args =
     (let port = or_default (parse_flag_u16 args ''--port'') 8001
      in (port, or_default (process_parse_flag args ''--name'') (''Server:'' @ show_nat port), process_parse_flag args ''--peer''))"

definition game_main :: "string list \<Rightarrow> nat \<times> string \<times> string option" where
  "game_main args =
     (or_default (parse_flag_u16 args ''--port'') 8001, or_default (process_parse_flag args ''--name'') ''Zone'',
      process_parse_flag args ''--peer'')"

definition forum_main :: "string list \<Rightarrow> nat \<times> string" where
  "forum_main args =
     (or_default (parse_flag_u16 args ''--port'') 8001, or_default (process_parse_flag args ''--name'') ''Forum'')"

definition microblog_main :: "string list \<Rightarrow> nat \<times> string" where
  "microblog_main args =
     (or_default (parse_flag_u16 args ''--port'') 8001, or_default (process_parse_flag args ''--name'') ''user'')"

definition process_main :: "string list \<Rightarrow> string + nat \<times> string \<times> string \<times> string list" where
  "process_main args =
     (let port = or_default (parse_flag_u16 args ''--port'') 8080;
          name = or_default (process_parse_flag args ''--name'') (''process:'' @ show_nat port);
          command_args = (case dropWhile (\<lambda>a. a \<noteq> ''--'') args of [] \<Rightarrow> [''bash''] | _ # rest \<Rightarrow> rest)
      in case command_args of
           [] \<Rightarrow> Inl ''Usage: process [--port N] [--name NAME] -- <command> [args...]''
         | command # cmd_args \<Rightarrow> Inr (port, name, command, cmd_args))"

definition process_room_manifest :: "'j json_ops \<Rightarrow> string \<Rightarrow> string \<Rightarrow> 'j manifest" where
  "process_room_manifest J name command =
     \<lparr>m_identity = identity_local name, m_name = name, m_substrate = None,
      m_metadata = j_obj J [(''type'', j_str J ''process''), (''command'', j_str J command)]\<rparr>"

text \<open>The terminal client of the process room: its address, the name it connects with, and the intents
  of its lines.\<close>

definition process_client_main :: "string list \<Rightarrow> string \<times> string" where
  "process_client_main args =
     ((case drop 1 args of [] \<Rightarrow> ''ws://localhost:8080'' | url # _ \<Rightarrow> url),
      or_default (process_parse_flag args ''--name'') ''client'')"

text \<open>The flags are looked for in all the arguments, those of the command to run included: without a
  port of its own, the room takes the one meant for the command.\<close>

lemma parse_flag_append:
  "flag \<notin> set pre \<Longrightarrow> process_parse_flag (pre @ args) flag = process_parse_flag args flag"
proof -
  assume "flag \<notin> set pre"
  then have "dropWhile (\<lambda>a. a \<noteq> flag) (pre @ args) = dropWhile (\<lambda>a. a \<noteq> flag) args"
    by (subst dropWhile_append2) auto
  then show ?thesis by (simp add: process_parse_flag_def)
qed

lemma process_flags_leak:
  assumes "''--port'' \<notin> set (prog # flags @ ''--'' # command # pre)" and "n < 2 ^ 16" and "''--'' \<notin> set (prog # flags)"
  shows "\<exists>name. process_main (prog # flags @ ''--'' # command # pre @ [''--port'', show_nat n]) =
     Inr (n, name, command, pre @ [''--port'', show_nat n])"
proof -
  let ?args = "prog # flags @ ''--'' # command # pre @ [''--port'', show_nat n]"
  have "process_parse_flag ?args ''--port'' = process_parse_flag [''--port'', show_nat n] ''--port''"
    using parse_flag_append [OF assms(1), of "[''--port'', show_nat n]"] by simp
  then have "parse_flag_u16 ?args ''--port'' = Some n"
    using assms(2) by (simp add: parse_flag_u16_def process_parse_flag_def parse_unsigned_show_nat)
  moreover have "dropWhile (\<lambda>a. a \<noteq> ''--'') ((prog # flags) @ (''--'' # command # pre @ [''--port'', show_nat n])) =
      ''--'' # command # pre @ [''--port'', show_nat n]"
    by (subst dropWhile_append2) (use assms(3) in auto)
  then have "dropWhile (\<lambda>a. a \<noteq> ''--'') ?args = ''--'' # command # pre @ [''--port'', show_nat n]"
    by (simp only: append_Cons)
  ultimately show ?thesis
    by (simp only: process_main_def Let_def or_default_def option.case list.case) blast
qed

end
