(* ===== verification/Bridges.thy ===== *)
theory Bridges
  imports Connector_Rooms Room_System
begin

section \<open>From a service's messages to the daemon's clients\<close>

text \<open>
  A room of the daemon that announces every message with a snapshot of its own: the transport takes
  up at most one message with an item of its environment and returns the room's new window for it.
  The IRC, Signal and Discord rooms are of this kind. Together with \<open>Room_System\<close> this says what the
  daemon's clients see of what happens at the service, through the connector, the connection, the
  room task with its dropped receives, the channel, the log and the receive requests.
\<close>

text \<open>The windows of a room while messages arrive one by one.\<close>

fun announcements :: "nat \<Rightarrow> ('m list \<Rightarrow> 'v) \<Rightarrow> 'm list \<Rightarrow> 'm list \<Rightarrow> 'v list" where
  "announcements cap view ms [] = []"
| "announcements cap view ms (m # new) =
     (let ms' = last_n cap (ms @ [m]) in view ms' # announcements cap view ms' new)"

lemma announcements_append:
  "length ms \<le> cap \<Longrightarrow>
     announcements cap view ms (xs @ ys) = announcements cap view ms xs @ announcements cap view (last_n cap (ms @ xs)) ys"
  by (induction xs arbitrary: ms) (simp_all add: last_n_all Let_def last_n_append_last_n)

lemma length_announcements [simp]: "length (announcements cap view ms new) = length new"
  by (induction new arbitrary: ms) (simp_all add: Let_def)

lemma announcements_nth:
  "i < length new \<Longrightarrow> announcements cap view ms new ! i = view (last_n cap (ms @ take (Suc i) new))"
proof (induction new arbitrary: ms i)
  case (Cons m new)
  then show ?case
    by (cases i) (simp_all add: Let_def last_n_append_last_n)
qed simp

lemma announcements_map: "announcements cap view ms new = map view (announcements cap id ms new)"
  by (induction new arbitrary: ms) (simp_all add: Let_def)

text \<open>The turns that the room task takes on a path of the daemon.\<close>

lemma system_step_task:
  assumes "system_step E R points room ev sy = Some sy'"
  shows "\<exists>xs. select_run R points xs (sy_task sy) = Some (sy_task sy')"
proof -
  have "sy_task sy' = sy_task sy \<or> (\<exists>x. select_step R points x (sy_task sy) = Some (sy_task sy'))"
    using assms
    by (cases ev) (auto simp: after_turn_def daemon_moves_def split: option.splits list.splits outcome.splits if_splits simp del: select_step.simps)
  then show ?thesis
    by (elim disjE exE) (rule exI [of _ "[]"], simp, rule_tac x = "[x]" in exI, simp)
qed

lemma system_path_task:
  "system_path E R points room sy evs sy' \<Longrightarrow> \<exists>xs. select_run R points xs (sy_task sy) = Some (sy_task sy')"
proof (induction rule: system_path.induct)
  case (system_refl sy)
  show ?case by (rule exI [of _ "[]"]) simp
next
  case (system_snoc sy evs sy' ev sy'')
  from system_snoc.IH obtain xs where xs: "select_run R points xs (sy_task sy) = Some (sy_task sy')" ..
  from system_step_task [OF system_snoc.hyps(2)] obtain ys where
    "select_run R points ys (sy_task sy') = Some (sy_task sy'')" ..
  with xs show ?case by (intro exI [of _ "xs @ ys"]) (simp add: select_run_append)
qed

text \<open>What the room task pushes for a snapshot.\<close>

definition shown :: "('t, 'i, 'te, 'b, 'we, 'cj, 'o, 'j, 's, 'q) room_env \<Rightarrow> 's \<Rightarrow> 'j" where
  "shown R d = (case re_to_value R d of None \<Rightarrow> re_null R | Some v \<Rightarrow> v)"

locale announcing_room = droppable_room body msgs accept cap mid snd_op "(=)"
  for body :: "'t \<Rightarrow> 'i \<Rightarrow> ('e, 'b, 't) turn" and msgs :: "'t \<Rightarrow> 'm list" and accept cap mid
    and snd_op :: "'t \<Rightarrow> 'b \<Rightarrow> ('e + unit) \<times> 't" +
  fixes enc :: "('j, 's) server_wire \<Rightarrow> 'ej + 'b"
    and static :: "'t \<Rightarrow> 'c"
    and mk :: "'c \<Rightarrow> 'm list \<Rightarrow> 's"
  assumes continue_accepts: "body t x = Continue t' \<Longrightarrow> accept t x = []"
    and return_accepts:
      "body t x = Return r t' \<Longrightarrow>
         accept t x = [] \<and> (\<forall>b. r \<noteq> Frame b) \<or>
         (\<exists>m q err. accept t x = [m] \<and> r = emit enc err (Snapshot q (mk (static t') (msgs t'))))"
    and turn_static: "static (turn_state (body t x)) = static t"
    and mid_static: "m \<in> set (mid t x) \<Longrightarrow> static m = static t"
    and send_static: "static (snd (snd_op t data)) = static t"
begin

text \<open>One receive: either it took up exactly one message and returned the snapshot with it, or none.\<close>

lemma recv_announces:
  "recv_loop body t ins = (r, t', rest) \<Longrightarrow> length (msgs t) \<le> cap \<Longrightarrow> (\<And>w. \<exists>b. enc w = Inr b) \<Longrightarrow>
     static t' = static t \<and> accept t' = accept t \<and>
     (\<exists>used. ins = used @ rest \<and> msgs t' = last_n cap (msgs t @ concat (map (accept t) used)) \<and>
        (concat (map (accept t) used) = [] \<and> (\<forall>b. r \<noteq> Frame b) \<or>
         (\<exists>m q b. concat (map (accept t) used) = [m] \<and> r = Frame b \<and>
            enc (Snapshot q (mk (static t) (msgs t'))) = Inr b)))"
proof (induction ins arbitrary: t)
  case Nil
  then show ?case by (simp add: last_n_all)
next
  case (Cons x ins)
  note w = turn_window [OF Cons.prems(2), of x] and st = turn_static [of t x] and ac = turn_accept [of t x]
  show ?case
  proof (cases "body t x")
    case (Continue t1)
    with Cons.prems(1) have run: "recv_loop body t1 ins = (r, t', rest)" by simp
    have none: "accept t x = []" by (rule continue_accepts [OF Continue])
    with w Continue Cons.prems(2) have same: "msgs t1 = msgs t" "static t1 = static t" "accept t1 = accept t"
      using st ac by (simp_all add: last_n_all)
    with Cons.prems(2) have "length (msgs t1) \<le> cap" by simp
    from Cons.IH [OF run this Cons.prems(3)] obtain used where
      used: "static t' = static t" "accept t' = accept t" "ins = used @ rest"
      "msgs t' = last_n cap (msgs t @ concat (map (accept t) used))"
      "concat (map (accept t) used) = [] \<and> (\<forall>b. r \<noteq> Frame b) \<or>
         (\<exists>m q b. concat (map (accept t) used) = [m] \<and> r = Frame b \<and> enc (Snapshot q (mk (static t) (msgs t'))) = Inr b)"
      unfolding same by blast
    then show ?thesis using none by (intro conjI exI [of _ "x # used"]) simp_all
  next
    case (Return r1 t1)
    with Cons.prems(1) have r: "r1 = r" "t1 = t'" "ins = rest" by auto
    have m: "static t' = static t" "accept t' = accept t" "msgs t' = last_n cap (msgs t @ accept t x)"
      using w st ac Return r by simp_all
    from return_accepts [OF Return] show ?thesis
    proof (elim disjE conjE exE)
      assume "accept t x = []" "\<forall>b. r1 \<noteq> Frame b"
      with m r show ?thesis by (intro conjI exI [of _ "[x]"]) simp_all
    next
      fix y q err
      assume y: "accept t x = [y]" "r1 = emit enc err (Snapshot q (mk (static t1) (msgs t1)))"
      obtain b where "enc (Snapshot q (mk (static t1) (msgs t1))) = Inr b" using Cons.prems(3) by blast
      with y m r show ?thesis by (intro conjI exI [of _ "[x]"]) (auto simp: emit_def)
    qed
  qed
qed

definition announced ::
  "('t, 'i, 'e, 'b, 'we, 'cj, 'o, 'j, 's, 'q) room_env \<Rightarrow> ('t, 'i, 'j) room_task \<Rightarrow> ('t, 'i, 'j) room_task \<Rightarrow> bool" where
  "announced R s s' \<longleftrightarrow>
     static (task_transport s') = static (task_transport s) \<and> accept (task_transport s') = accept (task_transport s) \<and>
     (\<exists>used. rt_inputs s = used @ rt_inputs s' \<and>
        msgs (task_transport s') = last_n cap (msgs (task_transport s) @ concat (map (accept (task_transport s)) used)) \<and>
        rt_pushed s' = rt_pushed s @
          announcements cap (\<lambda>ms. shown R (mk (static (task_transport s)) ms)) (msgs (task_transport s))
            (concat (map (accept (task_transport s)) used)))"

lemma announced_same:
  "length (msgs (task_transport s)) \<le> cap \<Longrightarrow> static (task_transport s') = static (task_transport s) \<Longrightarrow>
     accept (task_transport s') = accept (task_transport s) \<Longrightarrow> msgs (task_transport s') = msgs (task_transport s) \<Longrightarrow>
     rt_inputs s' = rt_inputs s \<Longrightarrow> rt_pushed s' = rt_pushed s \<Longrightarrow> announced R s s'"
  by (simp add: announced_def last_n_all)

lemma announced_trans:
  assumes "announced R s1 s2" and "announced R s2 s3" and "length (msgs (task_transport s1)) \<le> cap"
  shows "announced R s1 s3"
proof -
  from assms(1,2) obtain u v where
    "rt_inputs s1 = u @ rt_inputs s2" "rt_inputs s2 = v @ rt_inputs s3"
    "msgs (task_transport s2) = last_n cap (msgs (task_transport s1) @ concat (map (accept (task_transport s1)) u))"
    "msgs (task_transport s3) = last_n cap (msgs (task_transport s2) @ concat (map (accept (task_transport s1)) v))"
    "rt_pushed s3 = (rt_pushed s1 @
          announcements cap (\<lambda>ms. shown R (mk (static (task_transport s1)) ms)) (msgs (task_transport s1))
            (concat (map (accept (task_transport s1)) u))) @
          announcements cap (\<lambda>ms. shown R (mk (static (task_transport s1)) ms)) (msgs (task_transport s2))
            (concat (map (accept (task_transport s1)) v))"
    "static (task_transport s3) = static (task_transport s1)" "accept (task_transport s3) = accept (task_transport s1)"
    unfolding announced_def by auto
  then show ?thesis
    unfolding announced_def using assms(3)
    by (intro conjI exI [of _ "u @ v"]) (simp_all add: announcements_append last_n_append_last_n)
qed

lemma announced_bound: "announced R s s' \<Longrightarrow> length (msgs (task_transport s')) \<le> cap"
  by (auto simp: announced_def)

lemma drop_silent:
  "(t', rest) \<in> set (drop_points body mid t ins) \<Longrightarrow> length (msgs t) \<le> cap \<Longrightarrow>
     static t' = static t \<and> accept t' = accept t \<and> msgs t' = msgs t \<and>
     (\<exists>used. ins = used @ rest \<and> concat (map (accept t) used) = [])"
proof (induction ins arbitrary: t)
  case (Cons x ins)
  from Cons.prems(1) show ?case
  proof (cases rule: drop_points_ConsE)
    case inside
    with mid_keeps [of t' t x] mid_static [of t' t x] show ?thesis
      by (intro conjI exI [of _ "[x]"]) simp_all
  next
    case (later t1)
    note none = continue_accepts [OF later(1)]
    have same: "msgs t1 = msgs t" "static t1 = static t" "accept t1 = accept t"
      using turn_window [OF Cons.prems(2), of x] turn_static [of t x] turn_accept [of t x] later(1) none Cons.prems(2)
      by (simp_all add: last_n_all)
    with Cons.IH [OF later(2)] Cons.prems(2) obtain used where
      "static t' = static t" "accept t' = accept t" "msgs t' = msgs t" "ins = used @ rest" "concat (map (accept t) used) = []"
      by auto
    with none show ?thesis by (intro conjI exI [of _ "x # used"]) simp_all
  qed auto
qed simp

lemma announced_dropped:
  assumes "(task_transport s', rt_inputs s') \<in> set (drop_points body mid (task_transport s) (rt_inputs s))"
    and "length (msgs (task_transport s)) \<le> cap" and "rt_pushed s' = rt_pushed s"
  shows "announced R s s'"
proof -
  from drop_silent [OF assms(1,2)] obtain used where
    "rt_inputs s = used @ rt_inputs s'" "concat (map (accept (task_transport s)) used) = []"
    "static (task_transport s') = static (task_transport s)" "accept (task_transport s') = accept (task_transport s)"
    "msgs (task_transport s') = msgs (task_transport s)" by blast
  with assms(2,3) show ?thesis
    unfolding announced_def by (intro conjI exI [of _ used]) (simp_all add: last_n_all del: concat_eq_Nil_conv)
qed

lemma select_announces:
  assumes R: "re_transport R = \<lparr>t_send = snd_op, t_recv = recv_loop body\<rparr>"
    and codec: "\<And>w. \<exists>b. enc w = Inr b \<and> re_dec R b = Inr w"
    and step: "select_step R (drop_points body mid) x s = Some s'" and bound: "length (msgs (task_transport s)) \<le> cap"
  shows "announced R s s'"
proof (cases "x = Sel SelRecv")
  case True
  obtain r t' rest where run: "recv_loop body (task_transport s) (rt_inputs s) = (r, t', rest)"
    by (cases "recv_loop body (task_transport s) (rt_inputs s)")
  have total: "\<exists>b. enc w = Inr b" for w using codec [of w] by blast
  from recv_announces [OF run bound total] obtain used where
    used: "static t' = static (task_transport s)" "accept t' = accept (task_transport s)" "rt_inputs s = used @ rest"
    "msgs t' = last_n cap (msgs (task_transport s) @ concat (map (accept (task_transport s)) used))"
    and r: "concat (map (accept (task_transport s)) used) = [] \<and> (\<forall>b. r \<noteq> Frame b) \<or>
       (\<exists>m q b. concat (map (accept (task_transport s)) used) = [m] \<and> r = Frame b \<and>
          enc (Snapshot q (mk (static (task_transport s)) (msgs t'))) = Inr b)" by blast
  from r show ?thesis
  proof (elim disjE conjE exE)
    assume none: "concat (map (accept (task_transport s)) used) = []" "\<forall>b. r \<noteq> Frame b"
    then have "rt_inputs s' = rest \<and> task_transport s' = t' \<and> rt_pushed s' = rt_pushed s"
      using step True run R by (cases r) (auto simp: conn_recv_def split: if_splits)
    with used none show ?thesis
      unfolding announced_def by (intro conjI exI [of _ used]) (simp_all del: concat_eq_Nil_conv)
  next
    fix m q b
    assume m: "concat (map (accept (task_transport s)) used) = [m]" "r = Frame b"
        "enc (Snapshot q (mk (static (task_transport s)) (msgs t'))) = Inr b"
    with codec [of "Snapshot q (mk (static (task_transport s)) (msgs t'))"]
    have "re_dec R b = Inr (Snapshot q (mk (static (task_transport s)) (msgs t')))" by auto
    then have "rt_inputs s' = rest \<and> task_transport s' = t' \<and>
        rt_pushed s' = rt_pushed s @ [shown R (mk (static (task_transport s)) (msgs t'))]"
      using step True run R m(2) by (auto simp: conn_recv_def from_json_def shown_def split: if_splits)
    with used m(1) show ?thesis unfolding announced_def by (intro conjI exI [of _ used]) (simp_all add: Let_def)
  qed
next
  case False
  show ?thesis
  proof (cases x)
    case (Drop k)
    with step have "(task_transport s', rt_inputs s') \<in> set (drop_points body mid (task_transport s) (rt_inputs s))"
        "rt_pushed s' = rt_pushed s"
      by (auto simp: Let_def split: if_splits)
    with bound announced_dropped show ?thesis by blast
  next
    case (Sel y)
    show ?thesis
    proof (cases y)
      case SelRecv
      with False Sel show ?thesis by simp
    next
      case SelGone
      with Sel step bound show ?thesis by (intro announced_same) (auto split: if_splits)
    next
      case (SelIntent v)
      show ?thesis
      proof (cases "re_from_value R v")
        case None
        with SelIntent Sel step bound show ?thesis by (intro announced_same) (auto split: if_splits)
      next
        case (Some i)
        with SelIntent Sel step have s': "rt_inputs s' = rt_inputs s" "rt_pushed s' = rt_pushed s"
            "rt_conn s' = snd (conn_send (re_transport R) (re_into R) (re_enc R) (rt_conn s) (Intent i))"
          by (auto simp: send_intent_def split: if_splits)
        with conn_send_transport [of "re_transport R" "re_into R" "re_enc R" "rt_conn s" "Intent i"] R
        have "task_transport s' = task_transport s \<or> (\<exists>data. task_transport s' = snd (snd_op (task_transport s) data))"
          by simp
        with s'(1,2) bound send_keeps send_static show ?thesis by (intro announced_same) auto
      qed
    qed
  qed
qed

lemma run_announces:
  assumes R: "re_transport R = \<lparr>t_send = snd_op, t_recv = recv_loop body\<rparr>"
    and codec: "\<And>w. \<exists>b. enc w = Inr b \<and> re_dec R b = Inr w"
  shows "select_run R (drop_points body mid) xs s = Some s' \<Longrightarrow> length (msgs (task_transport s)) \<le> cap \<Longrightarrow> announced R s s'"
proof (induction xs arbitrary: s)
  case Nil
  then show ?case by (auto intro: announced_same)
next
  case (Cons x xs)
  then obtain s1 where s1: "select_step R (drop_points body mid) x s = Some s1"
      "select_run R (drop_points body mid) xs s1 = Some s'"
    by (auto split: option.splits)
  note one = select_announces [OF R codec s1(1) Cons.prems(2)]
  from announced_trans [OF one Cons.IH [OF s1(2) announced_bound [OF one]] Cons.prems(2)] show ?case .
qed

text \<open>The same for a room of the daemon: its clients are given the windows.\<close>

lemma system_announces:
  assumes "re_transport R = \<lparr>t_send = snd_op, t_recv = recv_loop body\<rparr>"
    and "\<And>w. \<exists>b. enc w = Inr b \<and> re_dec R b = Inr w"
    and "de_tx_send E = channel_send"
    and "map_of (d_rooms (daemon_start E cfg spawned)) room = Some r0" and "rs_handle r0 = Some []"
    and path: "system_path E R (drop_points body mid) room (system_start E cfg spawned c first ins) evs sy"
    and "length (msgs (conn_transport c)) \<le> cap"
  shows "\<exists>used r. ins = used @ rt_inputs (sy_task sy) \<and> map_of (d_rooms (sy_daemon sy)) room = Some r \<and>
     delivered room (d_log (sy_daemon sy)) @ pending r @ sy_channel sy =
       first # announcements cap (\<lambda>ms. shown R (mk (static (conn_transport c)) ms)) (msgs (conn_transport c))
         (concat (map (accept (conn_transport c)) used))"
proof -
  obtain xs where "select_run R (drop_points body mid) xs (room_task_start c first ins) = Some (sy_task sy)"
    using system_path_task [OF path] by (auto simp: system_start_def)
  from run_announces [OF assms(1,2) this] assms(7) obtain used where
    "ins = used @ rt_inputs (sy_task sy)"
    "rt_pushed (sy_task sy) = first # announcements cap (\<lambda>ms. shown R (mk (static (conn_transport c)) ms))
       (msgs (conn_transport c)) (concat (map (accept (conn_transport c)) used))"
    by (auto simp: announced_def room_task_start_def)
  with system_inv_room [OF system_inv_path [OF path assms(3) system_inv_start [OF assms(4,5)]]] show ?thesis by auto
qed

end

subsection \<open>IRC\<close>

definition irc_view :: "string \<times> string \<Rightarrow> irc_message list \<Rightarrow> irc_snapshot" where
  "irc_view p ms = \<lparr>irc_snap_channel = fst p, irc_snap_server = snd p, irc_snap_messages = ms\<rparr>"

lemma irc_current_view: "irc_current_snapshot t = irc_view (irc_channel t, irc_server t) (irc_messages t)"
  by (simp add: irc_current_snapshot_def irc_view_def)

lemma irc_mid_static: "m \<in> set (irc_mid t x) \<Longrightarrow> irc_server m = irc_server t"
  by (cases x) (auto simp: Let_def split: irc_line.splits)

lemma irc_send_server: "irc_server (snd (irc_send wr dec t data)) = irc_server t"
  by (auto simp: irc_send_def irc_send_raw_def split: sum.splits client_wire.splits irc_intent.splits prod.splits)

lemma irc_turn_server: "irc_server (turn_state (irc_turn wr enc t x)) = irc_server t"
  by (cases x)
    (auto simp: Let_def irc_push_message_def dest: irc_send_raw_keeps split: irc_line.splits prod.splits sum.splits)

interpretation irc_bridge:
  announcing_room "irc_turn wr enc" irc_messages irc_accept irc_max_messages irc_mid "irc_send wr dec" enc
    "\<lambda>t. (irc_channel t, irc_server t)" irc_view
proof unfold_locales
  fix t x t'
  show "irc_turn wr enc t x = Continue t' \<Longrightarrow> irc_accept t x = []"
    by (cases x) (auto simp: Let_def split: irc_line.splits)
next
  fix t x r t'
  show "irc_turn wr enc t x = Return r t' \<Longrightarrow>
         irc_accept t x = [] \<and> (\<forall>b. r \<noteq> Frame b) \<or>
         (\<exists>m q err. irc_accept t x = [m] \<and> r = emit enc err (Snapshot q (irc_view (irc_channel t', irc_server t') (irc_messages t'))))"
    by (cases x; (auto simp: Let_def irc_current_view irc_push_message_def split: irc_line.splits prod.splits sum.splits)?)
      (intro exI, rule refl)
qed (simp_all add: irc_turn_channel irc_turn_server irc_mid_keeps irc_mid_static irc_send_keeps irc_send_server)

text \<open>C4: what happens at the IRC server reaches the daemon's clients. For a room that was spawned on a
  fresh IRC connection, with any interleaving of its task, whose receives may be dropped at any
  await, of the forwarding task and of the daemon's connections, what the clients were given for the
  room, then the pending values, then the channel, is: the empty window, and for every message to
  the room's channel among the lines that were read, in their order, one window that ends with it
  and holds the last fifty. No message is left out, none is announced twice, and nothing else is
  announced: no PING, no other command, no end of the connection.\<close>

theorem irc_room_to_clients:
  assumes "irc_connect J tcp wr server port nick channel lines = (Frame (c, snapshot), ins)"
    and "re_transport R = irc_ops wr dec enc" and "\<And>w. \<exists>b. enc w = Inr b \<and> re_dec R b = Inr w"
    and "de_tx_send E = channel_send"
    and "map_of (d_rooms (daemon_start E cfg spawned)) room = Some r0" and "rs_handle r0 = Some []"
    and "system_path E R (drop_points (irc_turn wr enc) irc_mid) room (system_start E cfg spawned c (shown R snapshot) ins) evs sy"
  shows "\<exists>used r. ins = used @ rt_inputs (sy_task sy) \<and> map_of (d_rooms (sy_daemon sy)) room = Some r \<and>
     delivered room (d_log (sy_daemon sy)) @ pending r @ sy_channel sy =
       map (shown R \<circ> irc_view (channel, server))
         ([] # announcements 50 id [] (concat (map (irc_accept (conn_transport c)) used)))"
proof -
  have c: "irc_messages (conn_transport c) = []" "irc_channel (conn_transport c) = channel"
      "irc_server (conn_transport c) = server" "snapshot = irc_view (channel, server) []"
    using assms(1)
    by (auto simp: irc_connect_def established_def irc_view_def irc_current_snapshot_def Let_def
        split: sum.splits prod.splits polled.splits)
  have R: "re_transport R = \<lparr>t_send = irc_send wr dec, t_recv = recv_loop (irc_turn wr enc)\<rparr>"
    using assms(2) by (simp add: irc_ops_def irc_recv_def)
  have "length (irc_messages (conn_transport c)) \<le> irc_max_messages" using c by simp
  from irc_bridge.system_announces [OF R assms(3-7) this] show ?thesis
    using c by (simp add: announcements_map [of 50 "\<lambda>ms. shown R (irc_view (channel, server) ms)"] irc_max_messages_def comp_def)
qed

text \<open>An IRC room between its server and two receive requests.\<close>

type_synonym bridge_wire = "irc_intent client_wire + (json, irc_snapshot) server_wire"

definition bridge_to_room :: "bridge_wire \<Rightarrow> unit + irc_intent client_wire" where
  "bridge_to_room b = (case b of Inl w \<Rightarrow> Inr w | Inr _ \<Rightarrow> Inl ())"

definition bridge_from_room :: "bridge_wire \<Rightarrow> unit + (json, irc_snapshot) server_wire" where
  "bridge_from_room b = (case b of Inl _ \<Rightarrow> Inl () | Inr w \<Rightarrow> Inr w)"

abbreviation bridge_write :: "string list \<Rightarrow> string \<Rightarrow> unit + unit" where
  "bridge_write \<equiv> \<lambda>_ _. Inr ()"

abbreviation bridge_enc :: "(json, irc_snapshot) server_wire \<Rightarrow> unit + bridge_wire" where
  "bridge_enc \<equiv> \<lambda>w. Inr (Inr w)"

definition bridge_room_env ::
  "(irc_transport, unit irc_item, (unit, unit) irc_error, bridge_wire, unit, unit, unit, json, irc_snapshot, irc_intent) room_env" where
  "bridge_room_env =
     \<lparr>re_transport = irc_ops bridge_write bridge_to_room bridge_enc,
      re_into = (\<lambda>_. WebSocket ()), re_enc = (\<lambda>w. Inr (Inl w)), re_dec = bridge_from_room,
      re_to_value = (\<lambda>s. Some (JInt (int (length (irc_snap_messages s))))),
      re_from_value = (\<lambda>_. Some (IrcSendMessage ''hey'')), re_null = JNull\<rparr>"

abbreviation bridge_connection :: "(irc_transport, json) connection" where
  "bridge_connection \<equiv> established
     \<lparr>irc_writer = [''NICK n'' @ crlf, ''USER n 0 * :Interconnect IRC Connector'' @ crlf, ''JOIN #r'' @ crlf],
      irc_channel = ''#r'', irc_server = ''s'', irc_messages = [], irc_seq = 0\<rparr> (irc_manifest value_json ''s'' ''#r'')"

definition bridge_lines :: "unit irc_item list" where
  "bridge_lines = [IrcLine ''PING x'' 1, IrcLine '':bob!u@h PRIVMSG #R :hi'' 2, IrcLine '':bob!u@h PRIVMSG #q :no'' 3,
     IrcLine '':eve!u@h PRIVMSG #r :ho'' 4]"

abbreviation bridge_start :: "(irc_transport, unit irc_item, json, nat, nat) system" where
  "bridge_start \<equiv> system_start relay_env demo_config [(''ops'', [])] bridge_connection
     (shown bridge_room_env (irc_view (''#r'', ''s'') [])) bridge_lines"

definition bridge_events :: "json system_event list" where
  "bridge_events =
     [SyForward, SyDaemon (EvRequest 1 (ReqSend ''ops'' JNull)), SyDrop 3, SyIntent, SyRecv, SyRecv, SyForward,
      SyDaemon (EvRequest 2 (ReqRecv ''ops'' False))]"

lemma bridge_run:
  "map_option (\<lambda>sy. (sy_channel sy, rt_inputs (sy_task sy), d_log (sy_daemon sy), irc_writer (task_transport (sy_task sy))))
     (system_run relay_env bridge_room_env (drop_points (irc_turn bridge_write bridge_enc) irc_mid) ''ops'' bridge_events bridge_start) =
   Some ([JInt 2], [],
     [(1, ReqSend ''ops'' JNull, RespSent True), (2, ReqRecv ''ops'' False, RespMessages True [JInt 0, JInt 1])],
     [''NICK n'' @ crlf, ''USER n 0 * :Interconnect IRC Connector'' @ crlf, ''JOIN #r'' @ crlf,
      ''PO'', ''PRIVMSG #r :hey'' @ crlf])"
  by code_simp

lemma bridge_connect:
  "irc_connect value_json (\<lambda>_ _. Inr () :: unit + unit) bridge_write ''s'' 6667 ''n'' ''#r''
      (IrcLine '':s 001 n'' 0 # bridge_lines) =
     (Frame (bridge_connection, irc_view (''#r'', ''s'') []) :: ((unit, unit) irc_error, _) polled, bridge_lines)"
  by (simp add: irc_connect_def irc_write_def irc_welcome_def irc_current_view Let_def) code_simp

lemma bridge_codec: "\<exists>b. bridge_enc w = Inr b \<and> re_dec bridge_room_env b = Inr w"
  by (simp add: bridge_room_env_def bridge_from_room_def)

theorem irc_room_to_clients_witness:
  "\<exists>sy. system_path relay_env bridge_room_env (drop_points (irc_turn bridge_write bridge_enc) irc_mid) ''ops''
       bridge_start bridge_events sy \<and>
     (\<exists>used r. bridge_lines = used \<and> map_of (d_rooms (sy_daemon sy)) ''ops'' = Some r \<and>
        [JInt 0, JInt 1] @ pending r @ [JInt 2] =
          map (shown bridge_room_env \<circ> irc_view (''#r'', ''s''))
            ([] # announcements 50 id [] (concat (map (irc_accept (conn_transport bridge_connection)) used))))"
proof -
  let ?points = "drop_points (irc_turn bridge_write bridge_enc) irc_mid"
  obtain sy where run: "system_run relay_env bridge_room_env ?points ''ops'' bridge_events bridge_start = Some sy"
      and sy: "sy_channel sy = [JInt 2]" "rt_inputs (sy_task sy) = []"
      "d_log (sy_daemon sy) =
         [(1, ReqSend ''ops'' JNull, RespSent True), (2, ReqRecv ''ops'' False, RespMessages True [JInt 0, JInt 1])]"
    using bridge_run by auto
  obtain r0 where r0: "map_of (d_rooms (daemon_start relay_env demo_config [(''ops'', [])])) ''ops'' = Some r0" "rs_handle r0 = Some []"
    by (rule relay_room)
  have R: "re_transport bridge_room_env = irc_ops bridge_write bridge_to_room bridge_enc"
    by (simp add: bridge_room_env_def)
  have "delivered ''ops'' (d_log (sy_daemon sy)) = [JInt 0, JInt 1]"
    using sy by (simp add: delivered_def)
  with irc_room_to_clients [OF bridge_connect R bridge_codec relay_tx r0 system_run_path [OF run]] system_run_path [OF run] sy(1,2)
  show ?thesis by (intro exI [of _ sy]) simp
qed

subsection \<open>An answer to a PING that is cut short\<close>

lemma select_step_Drop:
  assumes "rt_running s" and "(t', rest) \<in> set (points (task_transport s) (rt_inputs s))"
  obtains n where "select_step R points (Drop n) s =
    Some (s\<lparr>rt_conn := (rt_conn s)\<lparr>conn_transport := t'\<rparr>, rt_inputs := rest\<rparr>)"
proof -
  from assms(2) obtain n where "n < length (points (task_transport s) (rt_inputs s))"
      "points (task_transport s) (rt_inputs s) ! n = (t', rest)"
    by (auto simp: in_set_conv_nth)
  with assms(1) have "select_step R points (Drop n) s =
      Some (s\<lparr>rt_conn := (rt_conn s)\<lparr>conn_transport := t'\<rparr>, rt_inputs := rest\<rparr>)"
    by (simp add: Let_def)
  then show thesis by (rule that)
qed

lemma drop_points_next: "body t x = Continue t1 \<Longrightarrow> (t1, ins) \<in> set (drop_points body mid t (x # ins))"
  by (cases ins) simp_all

abbreviation pong :: "string \<Rightarrow> string" where
  "pong rest \<equiv> ''PONG '' @ rest @ crlf"

lemma irc_mid_ping:
  assumes "irc_classify (irc_channel t) (trim_end (CHR 0x0D) line) = IrcPing rest" and "k < length (pong rest)"
  shows "t\<lparr>irc_writer := irc_writer t @ [take k (pong rest)]\<rparr> \<in> set (irc_mid t (IrcLine line now))"
proof -
  have "k \<in> set [0..<length (pong rest)]"
    using assms(2) by (simp only: set_upt atLeastLessThan_iff le0 simp_thms)
  then show ?thesis
    unfolding irc_mid.simps Let_def assms(1) irc_line.case set_map by (rule_tac imageI)
qed

lemma irc_ping_rest: "irc_classify channel l = IrcPing rest \<Longrightarrow> l = ''PING '' @ rest"
proof (cases "strip_prefix ''PING '' l")
  case None
  then have "irc_classify channel l \<noteq> IrcPing rest"
    by (simp add: irc_classify_def Let_def split: option.split prod.split)
  then show "irc_classify channel l = IrcPing rest \<Longrightarrow> l = ''PING '' @ rest" by simp
next
  case (Some r)
  then have "irc_classify channel l = IrcPing r" by (simp add: irc_classify_def)
  with Some show "irc_classify channel l = IrcPing rest \<Longrightarrow> l = ''PING '' @ rest"
    by (simp only: irc_line.inject strip_prefix_Some)
qed

text \<open>C10: an IRC room can answer a PING with any proper beginning of the PONG, the empty one included:
  an intent that makes the task drop the receive while it writes the answer ends the writing
  there. The task reports no error and pushes nothing, the PING is used up, and the intent itself
  writes nothing, because its encoding is refused. What the room writes next, the answer to the
  next PING, comes right behind the beginning of the first: for two PINGs the server has read a
  single line, and that is not the answer to the second one either, unless nothing of the first
  was written.\<close>

theorem irc_pong_cut_short:
  assumes "rt_running s" and "rt_inputs s = IrcLine line now # IrcLine line' now' # ins"
    and "irc_classify (irc_channel (task_transport s)) (trim_end (CHR 0x0D) line) = IrcPing rest"
    and "irc_classify (irc_channel (task_transport s)) (trim_end (CHR 0x0D) line') = IrcPing rest'"
    and "CHR 0x0A \<notin> set line" and "CHR 0x0A \<notin> set line'"
    and "k < length (pong rest)"
    and "re_transport R = irc_ops (\<lambda>_ _. Inr ()) dec enc"
    and "strict_codec J (irc_intent_fields J) print (re_enc R) dec"
  shows "\<exists>n n' s'. select_run R (drop_points (irc_turn (\<lambda>_ _. Inr ()) enc) irc_mid) [Drop n, Sel (SelIntent v), Drop n'] s = Some s' \<and>
    rt_running s' \<and> rt_inputs s' = ins \<and> rt_pushed s' = rt_pushed s \<and>
    concat (irc_writer (task_transport s')) = concat (irc_writer (task_transport s)) @ take k (pong rest) @ pong rest' \<and>
    split_on (CHR 0x0A) (take k (pong rest) @ pong rest') = [take k (pong rest) @ ''PONG '' @ rest' @ [CHR 0x0D], []] \<and>
    (0 < k \<longrightarrow> take k (pong rest) @ ''PONG '' @ rest' \<noteq> ''PONG '' @ rest')"
proof -
  let ?points = "drop_points (irc_turn (\<lambda>_ _. Inr ()) enc) irc_mid"
  define t1 where "t1 = (task_transport s)\<lparr>irc_writer := irc_writer (task_transport s) @ [take k (pong rest)]\<rparr>"
  define t2 where "t2 = t1\<lparr>irc_writer := irc_writer t1 @ [pong rest']\<rparr>"
  define s1 where "s1 = s\<lparr>rt_conn := (rt_conn s)\<lparr>conn_transport := t1\<rparr>, rt_inputs := IrcLine line' now' # ins\<rparr>"
  define s2 where "s2 = s1\<lparr>rt_conn := (rt_conn s1)\<lparr>conn_transport := t2\<rparr>, rt_inputs := ins\<rparr>"
  have "(t1, IrcLine line' now' # ins) \<in> set (?points (task_transport s) (rt_inputs s))"
    unfolding assms(2) t1_def by (rule drop_points_mid) (rule irc_mid_ping [OF assms(3,7)])
  from select_step_Drop [where R = R and points = ?points, OF assms(1) this] obtain n where n: "select_step R ?points (Drop n) s = Some s1"
    unfolding s1_def by blast
  have "t_send (re_transport R) = irc_send (\<lambda>_ _. Inr ()) dec"
    using assms(8) by (simp add: irc_ops_def)
  from irc_deaf.deaf_room [OF assms(9) connector_intents_tagged(1) refl this] assms(1)
  have v: "select_step R ?points (Sel (SelIntent v)) s1 = Some s1"
    by (simp add: deaf_def s1_def del: room_step.simps)
  have "irc_turn (\<lambda>_ _. Inr () :: 'a + unit) enc t1 (IrcLine line' now') = Continue t2"
    using assms(4) by (simp add: t1_def t2_def irc_send_raw_def irc_write_def)
  then have "(t2, ins) \<in> set (?points (task_transport s1) (rt_inputs s1))"
    using drop_points_next [of "irc_turn (\<lambda>_ _. Inr ()) enc" t1 "IrcLine line' now'" t2 ins irc_mid] by (simp add: s1_def)
  moreover have "rt_running s1" using assms(1) by (simp add: s1_def)
  ultimately obtain n' where n': "select_step R ?points (Drop n') s1 = Some s2"
    unfolding s2_def using select_step_Drop [where R = R and points = ?points] by blast
  have "select_run R ?points [Drop n, Sel (SelIntent v), Drop n'] s = Some s2"
    using n v n' by (simp del: select_step.simps)
  moreover have "rt_running s2 \<and> rt_inputs s2 = ins \<and> rt_pushed s2 = rt_pushed s \<and>
      concat (irc_writer (task_transport s2)) = concat (irc_writer (task_transport s)) @ take k (pong rest) @ pong rest'"
    using assms(1) by (simp add: s2_def s1_def t2_def t1_def)
  moreover have "split_on (CHR 0x0A) (take k (pong rest) @ pong rest') = [take k (pong rest) @ ''PONG '' @ rest' @ [CHR 0x0D], []]"
  proof -
    have sub: "set (trim_end c x) \<subseteq> set x" for c x by (auto simp: trim_end_def dest: set_dropWhileD)
    have "CHR 0x0A \<notin> set rest" "CHR 0x0A \<notin> set rest'"
      using irc_ping_rest [OF assms(3)] irc_ping_rest [OF assms(4)] sub [of "CHR 0x0D" line] sub [of "CHR 0x0D" line'] assms(5,6)
      by auto
    moreover have "take k (pong rest) = take k (''PONG '' @ rest @ [CHR 0x0D])"
    proof -
      have "j \<le> length xs \<Longrightarrow> take j (xs @ ys) = take j xs" for j and xs ys :: string by simp
      from this [of k "''PONG '' @ rest @ [CHR 0x0D]" "[CHR 0x0A]"] assms(7) show ?thesis by simp
    qed
    ultimately have "CHR 0x0A \<notin> set (take k (pong rest) @ ''PONG '' @ rest' @ [CHR 0x0D])"
      by (auto dest: in_set_takeD)
    from split_on_append [OF this, of "[]"] show ?thesis by simp
  qed
  moreover have "0 < k \<longrightarrow> take k (pong rest) @ ''PONG '' @ rest' \<noteq> ''PONG '' @ rest'"
    by simp
  ultimately show ?thesis by blast
qed

abbreviation strict_out :: "(json, irc_snapshot) server_wire \<Rightarrow> unit + (string \<times> json) list" where
  "strict_out \<equiv> \<lambda>_. Inr []"

definition strict_room_env ::
  "(irc_transport, unit irc_item, (unit, unit) irc_error, (string \<times> json) list, unit, unit, (unit, unit) irc_error, json, irc_snapshot, irc_intent) room_env" where
  "strict_room_env = irc_room_env\<lparr>re_transport :=
     irc_ops (\<lambda>_ _. Inr ()) strict_dec strict_out, re_enc := strict_enc\<rparr>"

abbreviation pinged_task :: "(irc_transport, unit irc_item, json) room_task" where
  "pinged_task \<equiv> room_task_start bridge_connection JNull [IrcLine ''PING x'' 1, IrcLine ''PING y'' 2]"

theorem irc_pong_cut_short_witness:
  "\<exists>n n' s'. select_run strict_room_env
      (drop_points (irc_turn (\<lambda>_ _. Inr ()) strict_out) irc_mid)
      [Drop n, Sel (SelIntent (JStr ''hi'')), Drop n'] pinged_task = Some s' \<and>
    rt_running s' \<and>
    concat (irc_writer (task_transport s')) = concat (irc_writer (task_transport pinged_task)) @ ''POPONG y'' @ crlf"
proof -
  have start: "rt_running pinged_task" "rt_inputs pinged_task = IrcLine ''PING x'' 1 # IrcLine ''PING y'' 2 # []"
    by (simp_all add: room_task_start_def)
  have ping: "irc_classify (irc_channel (task_transport pinged_task)) (trim_end (CHR 0x0D) ''PING x'') = IrcPing ''x''"
      "irc_classify (irc_channel (task_transport pinged_task)) (trim_end (CHR 0x0D) ''PING y'') = IrcPing ''y''"
    by code_simp+
  have lines: "CHR 0x0A \<notin> set ''PING x''" "CHR 0x0A \<notin> set ''PING y''" "2 < length (pong ''x'')" by simp_all
  have R: "re_transport strict_room_env = irc_ops (\<lambda>_ _. Inr ()) strict_dec strict_out"
      "strict_codec value_json (irc_intent_fields value_json) id (re_enc strict_room_env) strict_dec"
    by (simp_all add: strict_room_env_def strict_codec_def strict_enc_def strict_dec_def)
  from irc_pong_cut_short [OF start ping lines R, of "JStr ''hi''"] obtain n n' s' where
    "select_run strict_room_env
      (drop_points (irc_turn (\<lambda>_ _. Inr ()) strict_out) irc_mid)
      [Drop n, Sel (SelIntent (JStr ''hi'')), Drop n'] pinged_task = Some s'"
    "rt_running s'"
    "concat (irc_writer (task_transport s')) = concat (irc_writer (task_transport pinged_task)) @ take 2 (pong ''x'') @ pong ''y''"
    by (elim exE conjE) (rule that)
  moreover have "take 2 (pong ''x'') @ pong ''y'' = ''POPONG y'' @ crlf"
    by (simp add: numeral_2_eq_2)
  ultimately show ?thesis by (intro exI [of _ n] exI [of _ n'] exI [of _ s']) (simp only: simp_thms)
qed

subsection \<open>Signal and Discord\<close>

definition sg_view :: "string \<times> string \<Rightarrow> sg_message list \<Rightarrow> sg_snapshot" where
  "sg_view p ms = \<lparr>sg_snap_account = fst p, sg_snap_recipient = snd p, sg_snap_messages = ms\<rparr>"

lemma sg_current_view: "sg_current_snapshot t = sg_view (sg_account t, sg_recipient t) (sg_messages t)"
  by (simp add: sg_current_snapshot_def sg_view_def)

lemma sg_send_account: "sg_account (snd (snd (sg_send J wr dec i t data))) = sg_account t"
  by (auto simp: sg_send_def sg_write_rpc_def Let_def split: sum.splits client_wire.splits sg_intent.splits)

lemma sg_turn_account: "sg_account (turn_state (sg_turn J parse enc t x)) = sg_account t"
  by (cases x) (auto simp: sg_push_message_def Let_def split: option.splits)

interpretation sg_bridge:
  announcing_room "sg_turn J parse enc" sg_messages "sg_accept J parse" sg_max_messages no_mid
    "t_send (sg_ops J wr ids parse dec enc)" enc "\<lambda>t. (sg_account t, sg_recipient t)" sg_view
proof unfold_locales
  fix t x t'
  show "sg_turn J parse enc t x = Continue t' \<Longrightarrow> sg_accept J parse t x = []"
    by (cases x) (auto simp: Let_def split: option.splits)
next
  fix t x r t'
  show "sg_turn J parse enc t x = Return r t' \<Longrightarrow>
         sg_accept J parse t x = [] \<and> (\<forall>b. r \<noteq> Frame b) \<or>
         (\<exists>m q err. sg_accept J parse t x = [m] \<and> r = emit enc err (Snapshot q (sg_view (sg_account t', sg_recipient t') (sg_messages t'))))"
    by (cases x; (auto simp: Let_def sg_current_view sg_push_message_def split: option.splits)?)
      (intro exI, rule refl)
qed (simp_all add: sg_turn_recipient sg_turn_account t_send_sg sg_send_keeps sg_send_account)

definition dc_view :: "u64 \<times> string \<Rightarrow> dc_message list \<Rightarrow> dc_snapshot" where
  "dc_view p ms = \<lparr>dc_snap_channel_id = show_nat (unat (fst p)), dc_snap_channel_name = snd p, dc_snap_messages = ms\<rparr>"

lemma dc_current_view: "dc_current_snapshot t = dc_view (dc_channel_id t, dc_channel_name t) (dc_messages t)"
  by (simp add: dc_current_snapshot_def dc_view_def)

lemma dc_turn_name: "dc_channel_name (turn_state (dc_turn enc t x)) = dc_channel_name t"
  by (cases x) (simp_all add: dc_push_message_def Let_def)

interpretation dc_bridge:
  announcing_room "dc_turn enc" dc_messages dc_accept dc_max_messages no_mid
    "dc_send create_message create_reaction dec" enc "\<lambda>t. (dc_channel_id t, dc_channel_name t)" dc_view
proof unfold_locales
  fix t x t'
  show "dc_turn enc t x = Continue t' \<Longrightarrow> dc_accept t x = []"
    by (cases x) (auto simp: Let_def split: if_splits)
next
  fix t x r t'
  show "dc_turn enc t x = Return r t' \<Longrightarrow>
         dc_accept t x = [] \<and> (\<forall>b. r \<noteq> Frame b) \<or>
         (\<exists>m q err. dc_accept t x = [m] \<and> r = emit enc err (Snapshot q (dc_view (dc_channel_id t', dc_channel_name t') (dc_messages t'))))"
    by (cases x; (auto simp: Let_def dc_current_view dc_push_message_def split: if_splits)?)
      (intro exI, rule refl)
qed (simp_all add: dc_turn_keeps dc_turn_name dc_send_keeps dc_send_keeps [THEN conjunct2, THEN conjunct1])

text \<open>The clients of a Signal room, which begins with an empty window.\<close>

lemma sg_room_to_clients:
  assumes "sg_connect J spawn account recipient = (Inr (c, snapshot) :: ('io, 'cj) sg_error + _)"
    and "re_transport R = sg_ops J wr ids parse dec enc" and "\<And>w. \<exists>b. enc w = Inr b \<and> re_dec R b = Inr w"
    and "de_tx_send E = channel_send"
    and "map_of (d_rooms (daemon_start E cfg spawned)) room = Some r0" and "rs_handle r0 = Some []"
    and "system_path E R (drop_points (sg_turn J parse enc) no_mid) room (system_start E cfg spawned c (shown R snapshot) ins) evs sy"
  shows "\<exists>used r. ins = used @ rt_inputs (sy_task sy) \<and> map_of (d_rooms (sy_daemon sy)) room = Some r \<and>
     delivered room (d_log (sy_daemon sy)) @ pending r @ sy_channel sy =
       map (shown R \<circ> sg_view (account, recipient))
         ([] # announcements sg_max_messages id [] (concat (map (sg_accept J parse (conn_transport c)) used)))"
proof -
  have c: "sg_messages (conn_transport c) = []" "sg_account (conn_transport c) = account"
      "sg_recipient (conn_transport c) = recipient" "snapshot = sg_view (account, recipient) []"
    using assms(1) by (auto simp: sg_connect_def established_def sg_current_view Let_def split: sg_child.splits)
  have R: "re_transport R = \<lparr>t_send = t_send (sg_ops J wr ids parse dec enc), t_recv = recv_loop (sg_turn J parse enc)\<rparr>"
    using assms(2) by (simp add: sg_ops_def sg_recv_def)
  have "length (sg_messages (conn_transport c)) \<le> sg_max_messages" using c by simp
  from sg_bridge.system_announces [OF R assms(3-7) this] show ?thesis
    using c by (simp add: announcements_map [of sg_max_messages "\<lambda>ms. shown R (sg_view (account, recipient) ms)"] comp_def)
qed

text \<open>Those of a Discord room, which begins with the messages that connecting fetched.\<close>

lemma dc_room_to_clients:
  assumes "dc_connect J channel_id channel_reply (Inr (Inr history)) = (Inr (c, snapshot) :: ('ge, 'he, 'be, 'cj) dc_error + _)"
    and "length history \<le> dc_max_messages"
    and "re_transport R = (dc_ops create_message create_reaction dec enc :: (_, _, ('ge, 'he, 'be, 'cj) dc_error, _) transport_ops)"
    and "\<And>w. \<exists>b. enc w = Inr b \<and> re_dec R b = Inr w"
    and "de_tx_send E = channel_send"
    and "map_of (d_rooms (daemon_start E cfg spawned)) room = Some r0" and "rs_handle r0 = Some []"
    and "system_path E R (drop_points (dc_turn enc :: _ \<Rightarrow> _ \<Rightarrow> (('ge, 'he, 'be, 'cj) dc_error, _, _) turn) no_mid) room
      (system_start E cfg spawned c (shown R snapshot) ins) evs sy"
  shows "\<exists>used r. ins = used @ rt_inputs (sy_task sy) \<and> map_of (d_rooms (sy_daemon sy)) room = Some r \<and>
     delivered room (d_log (sy_daemon sy)) @ pending r @ sy_channel sy =
       map (shown R \<circ> dc_view (channel_id, dc_channel_name (conn_transport c)))
         (map dc_convert (rev history) # announcements dc_max_messages id (map dc_convert (rev history))
            (concat (map (dc_accept (conn_transport c)) used)))"
proof -
  have c: "dc_messages (conn_transport c) = map dc_convert (rev history)" "dc_channel_id (conn_transport c) = channel_id"
      "snapshot = dc_view (channel_id, dc_channel_name (conn_transport c)) (map dc_convert (rev history))"
    using assms(1)
    by (auto simp: dc_connect_def dc_call_def dc_fetch_initial_snapshot_def established_def dc_current_view Let_def
        split: sum.splits option.splits)
  have R: "re_transport R = \<lparr>t_send = dc_send create_message create_reaction dec,
      t_recv = recv_loop (dc_turn enc :: _ \<Rightarrow> _ \<Rightarrow> (('ge, 'he, 'be, 'cj) dc_error, _, _) turn)\<rparr>"
    using assms(3) by (simp add: dc_ops_def dc_recv_def)
  have "length (dc_messages (conn_transport c)) \<le> dc_max_messages" using c assms(2) by simp
  from dc_bridge.system_announces [OF R assms(4-8) this] show ?thesis
    using c by (simp add: comp_def
        announcements_map [of dc_max_messages "\<lambda>ms. shown R (dc_view (channel_id, dc_channel_name (conn_transport c)) ms)"])
qed

end
