(* ===== verification/Cli.thy ===== *)
theory Cli
  imports Daemon
begin

section \<open>The command line client and the hook preset\<close>

text \<open>
  \<^verbatim>\<open>crates/interconnect-daemon/src\<close>: the commands and the watch loop (\<^verbatim>\<open>cli_main.rs\<close>), one
  exchange with the daemon (\<^verbatim>\<open>cli.rs\<close>) and the generated settings (\<^verbatim>\<open>preset/claude.rs\<close>). Requests
  and responses cross the socket as JSON values; the pretty printer, the child processes and
  the socket are parameters.
\<close>

datatype 'j command =
    CmdRecv string bool
  | CmdSend string string
  | CmdState string
  | CmdList

text \<open>The request of a command; \<^verbatim>\<open>send\<close> parses its payload first.\<close>

fun command_request :: "(string \<Rightarrow> string + 'j) \<Rightarrow> 'j command \<Rightarrow> string + 'j request" where
  "command_request parse CmdList = Inr ReqList"
| "command_request parse (CmdState room) = Inr (ReqState room)"
| "command_request parse (CmdSend room json) =
     (case parse json of
        Inl e \<Rightarrow> Inl (''invalid JSON payload: '' @ e)
      | Inr payload \<Rightarrow> Inr (ReqSend room payload))"
| "command_request parse (CmdRecv room nowait) = Inr (ReqRecv room (\<not> nowait))"

text \<open>\<^verbatim>\<open>cli::send_request\<close>: \<open>exchange\<close> is the socket, it answers the line that was written with
  the next line of the daemon, with nothing at the end of the stream, or fails.\<close>

definition send_request ::
  "'j json_ops \<Rightarrow> ('j \<Rightarrow> string + 'j option) \<Rightarrow> 'j request \<Rightarrow> string + 'j response" where
  "send_request J exchange req =
     (case exchange (request_encode J req) of
        Inl e \<Rightarrow> Inl e
      | Inr None \<Rightarrow> Inl ''daemon closed connection without responding''
      | Inr (Some line) \<Rightarrow>
          (case response_decode J line of
             None \<Rightarrow> Inl ''data did not match any variant of untagged enum Response''
           | Some r \<Rightarrow> Inr r))"

fun print_response :: "'j json_ops \<Rightarrow> ('j \<Rightarrow> string) \<Rightarrow> 'j response \<Rightarrow> string list" where
  "print_response J pretty (RespMessages ok msgs) = map pretty msgs"
| "print_response J pretty (RespRooms ok rooms) = rooms"
| "print_response J pretty r = [pretty (response_encode J r)]"

definition run_command ::
  "'j json_ops \<Rightarrow> (string \<Rightarrow> string + 'j) \<Rightarrow> ('j \<Rightarrow> string) \<Rightarrow> ('j \<Rightarrow> string + 'j option) \<Rightarrow> 'j command
    \<Rightarrow> string + string list" where
  "run_command J parse pretty exchange cmd =
     (case command_request parse cmd of
        Inl e \<Rightarrow> Inl e
      | Inr req \<Rightarrow>
          (case send_request J exchange req of
             Inl e \<Rightarrow> Inl e
           | Inr r \<Rightarrow> Inr (print_response J pretty r)))"

text \<open>The watch loop: what one answer makes it do, and the loop over the answers of the daemon.
  Running the command on one message may fail; the result is the messages handed to the command
  and the error that ended the loop, if any did.\<close>

definition watch_messages :: "'j json_ops \<Rightarrow> 'j response \<Rightarrow> string + 'j list" where
  "watch_messages J r =
     (case r of
        RespMessages _ msgs \<Rightarrow> Inr msgs
      | RespError _ err \<Rightarrow> Inl (''daemon error: '' @ err)
      | other \<Rightarrow> Inl (''unexpected response: '' @ j_text J (response_encode J other)))"

fun watch_exec :: "('j \<Rightarrow> string + unit) \<Rightarrow> 'j list \<Rightarrow> 'j list \<times> string option" where
  "watch_exec run [] = ([], None)"
| "watch_exec run (m # ms) =
     (case run m of
        Inl e \<Rightarrow> ([], Some e)
      | Inr _ \<Rightarrow> (case watch_exec run ms of (fin, err) \<Rightarrow> (m # fin, err)))"

fun handle_watch ::
  "'j json_ops \<Rightarrow> ('j \<Rightarrow> string + unit) \<Rightarrow> (string + 'j response) list \<Rightarrow> 'j list \<times> string option" where
  "handle_watch J run [] = ([], None)"
| "handle_watch J run (a # as) =
     (case a of
        Inl e \<Rightarrow> ([], Some e)
      | Inr r \<Rightarrow>
          (case watch_messages J r of
             Inl e \<Rightarrow> ([], Some e)
           | Inr msgs \<Rightarrow>
               (case watch_exec run msgs of
                  (fin, Some e) \<Rightarrow> (fin, Some e)
                | (fin, None) \<Rightarrow> (case handle_watch J run as of (rest, err) \<Rightarrow> (fin @ rest, err)))))"

subsection \<open>The preset\<close>

definition preset_rooms :: "'j config \<Rightarrow> string list" where
  "preset_rooms cfg = map rc_name (cfg_room cfg)"

definition quoted :: "string \<Rightarrow> string" where
  "quoted s = [CHR 0x22] @ s @ [CHR 0x22]"

definition silenced :: "string \<Rightarrow> string" where
  "silenced cmd = cmd @ '' 2>/dev/null || true''"

definition reply_room :: string where
  "reply_room = quoted ''$INTERCONNECT_REPLY_TO''"

definition post_tool_use_cmd :: string where
  "post_tool_use_cmd = silenced (''interconnect send '' @ reply_room @ '' '' @ quoted ''$(cat)'')"

definition stop_cmd :: string where
  "stop_cmd = silenced (''interconnect send '' @ reply_room @ '' '' @ [CHR 0x27] @
     [CHR 0x7B] @ quoted ''type'' @ '':'' @ quoted ''stop'' @ [CHR 0x7D] @ [CHR 0x27])"

definition inject_cmd :: string where
  "inject_cmd = silenced (''interconnect recv --nowait '' @ reply_room)"

definition matched_hook :: "'j json_ops \<Rightarrow> bool \<Rightarrow> string \<Rightarrow> 'j" where
  "matched_hook J matcher cmd =
     j_arr J [j_obj J ((if matcher then [(''matcher'', j_str J [])] else []) @
       [(''hooks'', j_arr J [j_obj J [(''type'', j_str J ''command''), (''command'', j_str J cmd)]])])]"

definition preset_render :: "'j json_ops \<Rightarrow> string list \<Rightarrow> 'j" where
  "preset_render J rooms =
     j_obj J
       [(''hooks'', j_obj J
          [(''PreToolUse'', matched_hook J True inject_cmd),
           (''PostToolUse'', matched_hook J True post_tool_use_cmd),
           (''UserPromptSubmit'', matched_hook J False inject_cmd),
           (''Stop'', matched_hook J False stop_cmd)]),
        (''_interconnect_rooms'', j_arr J (map (j_str J) rooms)),
        (''_interconnect_note'',
           j_str J ''Set INTERCONNECT_REPLY_TO=<room-name> before invoking claude to route events.'')]"

definition handle_init :: "'j json_ops \<Rightarrow> string \<Rightarrow> (unit \<Rightarrow> string + 'j config option) \<Rightarrow> string + 'j" where
  "handle_init J preset load =
     (if preset = ''claude'' then
        (case load () of
           Inl e \<Rightarrow> Inl e
         | Inr None \<Rightarrow> Inr (preset_render J (preset_rooms config_default))
         | Inr (Some cfg) \<Rightarrow> Inr (preset_render J (preset_rooms cfg)))
      else Inl (''unknown preset: '' @ preset @ '' (available: claude)''))"

subsection \<open>A command against the daemon\<close>

text \<open>The daemon's side of one exchange that does not wait: the line is decoded and dispatched,
  the reply encoded.\<close>

definition serve_value ::
  "('j, 'n, 'k, 'h) daemon_env \<Rightarrow> ('j, 'n, 'h) rooms \<Rightarrow> 'j \<Rightarrow> string + 'j option" where
  "serve_value E rooms v =
     (case request_decode (de_json E) v of
        None \<Rightarrow> Inr (Some (response_encode (de_json E) (response_error ''invalid request'')))
      | Some req \<Rightarrow>
          (case dispatch E req rooms of
             Done (Reply r, _) \<Rightarrow> Inr (Some (response_encode (de_json E) r))
           | _ \<Rightarrow> Inr None))"

lemma run_command_reply:
  assumes J: "json_value (de_json E)" and req: "command_request parse cmd = Inr req"
    and reply: "dispatch E req rooms = Done (Reply r, rooms')"
  shows "run_command (de_json E) parse pretty (serve_value E rooms) cmd =
    Inr (case r of RespMessages _ ms \<Rightarrow> map pretty ms
         | _ \<Rightarrow> [pretty (j_obj (de_json E) [(''ok'', j_bool (de_json E) (response_ok r))])])"
  using assms json_value.decode_encode_request [OF J, of req] json_value.decode_encode_response [OF J, of r]
  by (cases r) (simp_all add: run_command_def send_request_def serve_value_def response_encode_def)

text \<open>C18: against a daemon that has the room, the commands \<^verbatim>\<open>state\<close> and \<^verbatim>\<open>list\<close> print the bare
  acknowledgement instead of the snapshot and the room names, and on an unknown room they print
  a bare refusal without the reason, whichever command it is; only the messages of a receive
  are shown. The watch loop ends on an unknown room with \<^verbatim>\<open>unexpected response\<close>, its branch for
  the daemon's errors is not reached.\<close>

theorem cli_shows_only_messages:
  assumes J: "json_value (de_json E)" and r: "map_of rooms room = Some r" "room_ok r"
    and unknown: "map_of rooms other = None"
  shows "run_command (de_json E) parse pretty (serve_value E rooms) (CmdState room) =
      Inr [pretty (j_obj (de_json E) [(''ok'', j_bool (de_json E) True)])] \<and>
    run_command (de_json E) parse pretty (serve_value E rooms) CmdList =
      Inr [pretty (j_obj (de_json E) [(''ok'', j_bool (de_json E) True)])] \<and>
    run_command (de_json E) parse pretty (serve_value E rooms) (CmdRecv room True) = Inr (map pretty (pending r)) \<and>
    (\<forall>cmd \<in> {CmdState other, CmdRecv other True, CmdRecv other False}.
      run_command (de_json E) parse pretty (serve_value E rooms) cmd =
        Inr [pretty (j_obj (de_json E) [(''ok'', j_bool (de_json E) False)])]) \<and>
    handle_watch (de_json E) run
        [send_request (de_json E) (serve_value E rooms) (ReqRecv other True)] =
      ([], Some (''unexpected response: '' @ j_text (de_json E) (j_obj (de_json E) [(''ok'', j_bool (de_json E) False)])))"
proof -
  have watch: "send_request (de_json E) (serve_value E rooms) (ReqRecv other True) = Inr (RespSent False)"
    using json_value.decode_encode_request [OF J, of "ReqRecv other True"]
      json_value.decode_encode_response [OF J, of "response_error (room_not_found other)"] unknown
    by (simp add: send_request_def serve_value_def response_defs)
  show ?thesis
    using r unknown watch
    by (auto simp: run_command_reply [OF J] drain_ok response_defs watch_messages_def response_encode_def)
qed

theorem cli_shows_only_messages_witness:
  "run_command value_json (\<lambda>_. Inl []) json_text
     (serve_value \<lparr>de_json = value_json, de_notify = count_notify, de_tx_send = (\<lambda>h p. h @ [p])\<rparr>
        [(''ops'', \<lparr>rs_config = \<lparr>rc_name = ''ops'', rc_connector = ''irc'', rc_options = JNull\<rparr>,
            rs_messages = [JInt 1], rs_cursor = 0, rs_notify = 0, rs_handle = Some []\<rparr>)])
     (CmdState ''ops'')
   = Inr [json_text (JObj [(''ok'', JBool True)])]"
  using cli_shows_only_messages [of "\<lparr>de_json = value_json, de_notify = count_notify, de_tx_send = (\<lambda>h p. h @ [p])\<rparr>"
      "[(''ops'', \<lparr>rs_config = \<lparr>rc_name = ''ops'', rc_connector = ''irc'', rc_options = JNull\<rparr>,
            rs_messages = [JInt 1], rs_cursor = 0, rs_notify = 0, rs_handle = Some []\<rparr>)]" "''ops''" _ "''x''"
      "\<lambda>_. Inl []" json_text]
  by (simp add: value_json_laws room_ok_def)

end
