(* ===== verification/Chat.thy ===== *)
theory Chat
  imports Server
begin

section \<open>The chat server\<close>

text \<open>
  \<^verbatim>\<open>examples/chat/src/server.rs\<close> and \<^verbatim>\<open>protocol.rs\<close>: the room as a \<^verbatim>\<open>SimpleAuthority\<close> and
  the task of one connection. The wall clock is an input of the operations that read it
  (seconds since the epoch; a clock set before the epoch panics in the code); the codecs of
  the messages and of the passport are the record \<open>chat_env\<close>.
\<close>

record chat_message =
  cm_from :: string
  cm_text :: string
  cm_timestamp :: u64

record chat_snapshot =
  csn_messages :: "chat_message list"
  csn_users :: "string list"

record chat_passport =
  cp_name :: string
  cp_origin :: string

definition chat_passport_new :: "string \<Rightarrow> string \<Rightarrow> chat_passport" where
  "chat_passport_new name origin = \<lparr>cp_name = name, cp_origin = origin\<rparr>"

datatype chat_intent = ChatMessage string

text \<open>The tag of an intent is \<^verbatim>\<open>action\<close>.\<close>

fun chat_intent_fields :: "'j json_ops \<Rightarrow> chat_intent \<Rightarrow> (string \<times> 'j) list" where
  "chat_intent_fields J (ChatMessage txt) = [(''action'', j_str J ''message''), (''text'', j_str J txt)]"

datatype chat_error = ChatNotFound

subsection \<open>The room\<close>

record chat_room =
  cr_name :: string
  cr_peer :: "string option"
  cr_messages :: "chat_message list"
  cr_users :: "(u64 \<times> identity \<times> string) list"

definition chat_room_new :: "string \<Rightarrow> string option \<Rightarrow> chat_room" where
  "chat_room_new name peer = \<lparr>cr_name = name, cr_peer = peer, cr_messages = [], cr_users = []\<rparr>"

definition chat_add_message :: "u64 \<Rightarrow> string \<Rightarrow> string \<Rightarrow> chat_room \<Rightarrow> chat_room" where
  "chat_add_message now from txt r =
     r\<lparr>cr_messages := push_bounded 100 (cr_messages r) \<lparr>cm_from = from, cm_text = txt, cm_timestamp = now\<rparr>\<rparr>"

definition chat_on_connect :: "session \<Rightarrow> chat_room \<Rightarrow> (chat_error + unit) \<times> chat_room" where
  "chat_on_connect s r =
     (Inr (), r\<lparr>cr_users := AList.update (s_id s) (s_identity s, s_name s) (cr_users r)\<rparr>)"

definition chat_on_transfer_in ::
  "session \<Rightarrow> chat_passport \<Rightarrow> chat_room \<Rightarrow> (chat_error + chat_passport import_result) \<times> chat_room" where
  "chat_on_transfer_in s p r =
     (Inr (import_accept p), r\<lparr>cr_users := AList.update (s_id s) (s_identity s, cp_name p) (cr_users r)\<rparr>)"

definition chat_on_disconnect :: "session \<Rightarrow> chat_room \<Rightarrow> chat_room" where
  "chat_on_disconnect s r = r\<lparr>cr_users := AList.delete (s_id s) (cr_users r)\<rparr>"

text \<open>\<^verbatim>\<open>self.users.get(&session.id).map(|(_, n)| n.clone()).unwrap_or_else(..)\<close>.\<close>

definition chat_user_name :: "string \<Rightarrow> session \<Rightarrow> chat_room \<Rightarrow> string" where
  "chat_user_name other s r =
     (case map_of (cr_users r) (s_id s) of None \<Rightarrow> other | Some (_, n) \<Rightarrow> n)"

definition chat_handle_intent ::
  "u64 \<Rightarrow> session \<Rightarrow> chat_intent \<Rightarrow> chat_room \<Rightarrow> (chat_error + unit) \<times> chat_room" where
  "chat_handle_intent now s i r =
     (case i of ChatMessage txt \<Rightarrow>
        (Inr (), chat_add_message now (chat_user_name ''unknown'' s r) txt r))"

definition chat_room_snapshot :: "chat_room \<Rightarrow> chat_snapshot" where
  "chat_room_snapshot r =
     \<lparr>csn_messages = last_n 50 (cr_messages r), csn_users = map (\<lambda>(_, _, n). n) (cr_users r)\<rparr>"

definition chat_emit_passport :: "session \<Rightarrow> chat_room \<Rightarrow> chat_passport" where
  "chat_emit_passport s r = chat_passport_new (chat_user_name (s_name s) s r) (cr_name r)"

definition chat_validate_destination :: "string \<Rightarrow> chat_room \<Rightarrow> bool" where
  "chat_validate_destination d r \<longleftrightarrow> cr_peer r = Some d"

definition chat_authority ::
  "u64 \<Rightarrow> (chat_room, chat_intent, chat_snapshot, chat_passport, chat_error) simple_authority" where
  "chat_authority now =
     \<lparr>sa_on_connect = chat_on_connect,
      sa_on_transfer_in = chat_on_transfer_in,
      sa_on_disconnect = chat_on_disconnect,
      sa_handle_intent = chat_handle_intent now,
      sa_snapshot = chat_room_snapshot,
      sa_emit_passport = chat_emit_passport,
      sa_validate_destination = chat_validate_destination\<rparr>"

lemmas chat_room_defs =
  chat_room_new_def chat_add_message_def chat_on_connect_def chat_on_transfer_in_def
  chat_on_disconnect_def chat_handle_intent_def chat_authority_def

subsection \<open>What the room keeps\<close>

definition chat_room_ok :: "chat_room \<Rightarrow> bool" where
  "chat_room_ok r \<longleftrightarrow> length (cr_messages r) \<le> 100 \<and> map_inv (cr_users r)"

definition chat_present :: "chat_room \<Rightarrow> u64 set" where
  "chat_present r = dom (map_of (cr_users r))"

interpretation chat_room: simple_authority_invariant "chat_authority now" chat_room_ok for now
  by unfold_locales
    (auto simp: chat_room_ok_def chat_room_defs push_bounded_length split: chat_intent.splits)

interpretation chat_registry: session_registry "of_simple (chat_authority now)" chat_room_ok chat_present for now
  by unfold_locales
    (auto simp: chat_room_ok_def chat_room_defs chat_present_def split: chat_intent.splits)

subsection \<open>The task of a connection\<close>

text \<open>What the codecs do; and the state that the connections share. \<open>ch_log\<close> holds what was put
  into the broadcast channel.\<close>

record ('j, 'b, 'e) chat_env =
  ce_enc :: "('j, chat_snapshot) server_wire \<Rightarrow> 'e + 'b"
  ce_dec :: "'b \<Rightarrow> 'e + chat_intent client_wire"
  ce_passport_enc :: "chat_passport \<Rightarrow> 'e + bytes"
  ce_passport_dec :: "bytes \<Rightarrow> 'e + chat_passport"

record ('j, 'b) chat_shared =
  ch_room :: chat_room
  ch_manifest :: "'j manifest"
  ch_next :: u64
  ch_log :: "'b list"

text \<open>Where a task is: waiting for the authentication, before each of the four steps that follow
  it, in the main loop with its sequence number, before the two steps of the clean-up, or
  over.\<close>

datatype chat_phase =
    ChatAuth
  | ChatManifest session
  | ChatJoin session
  | ChatFirst session
  | ChatSubscribe session
  | ChatLive session u64
  | ChatLeave session
  | ChatGone session
  | ChatEnded

record 'b chat_task =
  ck_phase :: chat_phase
  ck_out :: "'b list"

definition chat_manifest :: "'j \<Rightarrow> string \<Rightarrow> 'j manifest" where
  "chat_manifest metadata name =
     \<lparr>m_identity = identity_local name, m_name = name, m_substrate = None, m_metadata = metadata\<rparr>"

definition chat_shared_new :: "'j \<Rightarrow> string \<Rightarrow> string option \<Rightarrow> ('j, 'b) chat_shared" where
  "chat_shared_new metadata name peer =
     \<lparr>ch_room = chat_room_new name peer,
      ch_manifest = chat_manifest metadata name, ch_next = 1, ch_log = []\<rparr>"

definition chat_task_new :: "'b chat_task" where
  "chat_task_new = \<lparr>ck_phase = ChatAuth, ck_out = []\<rparr>"

text \<open>Send a message to the peer and go on, or return early.\<close>

definition chat_reply :: "bool \<Rightarrow> ('e + 'b) \<Rightarrow> chat_phase \<Rightarrow> 'b chat_task \<Rightarrow> 'b chat_task" where
  "chat_reply ok m nxt k =
     (case send_frame ok m (ck_out k) of
        None \<Rightarrow> k\<lparr>ck_phase := ChatEnded\<rparr>
      | Some out \<Rightarrow> \<lparr>ck_phase = nxt, ck_out = out\<rparr>)"

text \<open>Put a message into the channel, if it can be encoded, and go on.\<close>

definition chat_broadcast ::
  "('e + 'b) \<Rightarrow> chat_phase \<Rightarrow> ('j, 'b) chat_shared \<Rightarrow> 'b chat_task \<Rightarrow> ('j, 'b) chat_shared \<times> 'b chat_task" where
  "chat_broadcast m nxt sh k =
     (case m of
        Inl _ \<Rightarrow> (sh, k\<lparr>ck_phase := ChatEnded\<rparr>)
      | Inr b \<Rightarrow> (sh\<lparr>ch_log := ch_log sh @ [b]\<rparr>, k\<lparr>ck_phase := nxt\<rparr>))"

definition chat_authenticate ::
  "('j, 'b, 'e) chat_env \<Rightarrow> bool \<Rightarrow> u64 \<Rightarrow> identity \<Rightarrow> string option \<Rightarrow> bytes option
    \<Rightarrow> ('j, 'b) chat_shared \<Rightarrow> 'b chat_task \<Rightarrow> ('j, 'b) chat_shared \<times> 'b chat_task" where
  "chat_authenticate E ok now who name pass sh k =
     (let s = session_new (ch_next sh) who (display_name who name);
          A = of_simple (chat_authority now);
          sh1 = sh\<lparr>ch_next := ch_next sh + 1\<rparr>;
          connect = (case a_on_connect A s (ch_room sh) of
             (Inl _, r) \<Rightarrow> (sh1\<lparr>ch_room := r\<rparr>, k\<lparr>ck_phase := ChatEnded\<rparr>)
           | (Inr _, r) \<Rightarrow> (sh1\<lparr>ch_room := r\<rparr>, k\<lparr>ck_phase := ChatManifest s\<rparr>))
      in case pass of
           None \<Rightarrow> connect
         | Some data \<Rightarrow>
             (case ce_passport_dec E data of
                Inl _ \<Rightarrow> connect
              | Inr p \<Rightarrow>
                  (case a_on_transfer_in A s p (ch_room sh) of
                     (Inl _, r) \<Rightarrow> (sh1\<lparr>ch_room := r\<rparr>, k\<lparr>ck_phase := ChatEnded\<rparr>)
                   | (Inr res, r) \<Rightarrow>
                       (sh1\<lparr>ch_room := r\<rparr>,
                        if imp_rejected res \<noteq> [] then
                          chat_reply ok
                            (ce_enc E (wire_system
                               (''Import: '' @ show_nat (length (imp_rejected res)) @ '' items rejected'')))
                            (ChatManifest s) k
                        else k\<lparr>ck_phase := ChatManifest s\<rparr>))))"

definition chat_wait_auth ::
  "('j, 'b, 'e) chat_env \<Rightarrow> bool \<Rightarrow> u64 \<Rightarrow> 'b net
    \<Rightarrow> ('j, 'b) chat_shared \<Rightarrow> 'b chat_task \<Rightarrow> ('j, 'b) chat_shared \<times> 'b chat_task" where
  "chat_wait_auth E ok now msg sh k =
     (case msg of
        NetEnd \<Rightarrow> (sh, k\<lparr>ck_phase := ChatEnded\<rparr>)
      | NetErr \<Rightarrow> (sh, k\<lparr>ck_phase := ChatEnded\<rparr>)
      | NetOther \<Rightarrow> (sh, k)
      | NetText txt \<Rightarrow>
          (case from_json (ce_dec E) txt of
             Inl _ \<Rightarrow> (sh, k\<lparr>ck_phase := ChatEnded\<rparr>)
           | Inr (Auth who name pass) \<Rightarrow> chat_authenticate E ok now who name pass sh k
           | Inr _ \<Rightarrow> (sh, k)))"

definition chat_wire ::
  "('j, 'b, 'e) chat_env \<Rightarrow> bool \<Rightarrow> u64 \<Rightarrow> session \<Rightarrow> u64 \<Rightarrow> chat_intent client_wire
    \<Rightarrow> ('j, 'b) chat_shared \<Rightarrow> 'b chat_task \<Rightarrow> ('j, 'b) chat_shared \<times> 'b chat_task" where
  "chat_wire E ok now s q w sh k =
     (let A = of_simple (chat_authority now) in
      case w of
        Intent i \<Rightarrow>
          (case a_handle_intent A s i (ch_room sh) of
             (Inl _, r) \<Rightarrow>
               (sh\<lparr>ch_room := r\<rparr>,
                chat_reply ok (ce_enc E (wire_error ''intent_error'' ''not found'')) (ChatLive s q) k)
           | (Inr _, r) \<Rightarrow>
               chat_broadcast (ce_enc E (Snapshot q (a_snapshot_for A s r))) (ChatLive s (q + 1))
                 (sh\<lparr>ch_room := r\<rparr>) k)
      | TransferRequest d \<Rightarrow>
          if a_validate_destination A d (ch_room sh) then
            (case ce_passport_enc E (a_emit_passport A s (ch_room sh)) of
               Inl _ \<Rightarrow> (sh, k\<lparr>ck_phase := ChatEnded\<rparr>)
             | Inr p \<Rightarrow> (sh, chat_reply ok (ce_enc E (Transfer d p)) (ChatLive s q) k))
          else
            (sh, chat_reply ok (ce_enc E (wire_error ''invalid_destination'' (''Unknown destination: '' @ d)))
                   (ChatLive s q) k)
      | Ping \<Rightarrow> (sh, chat_reply ok (ce_enc E Pong) (ChatLive s q) k)
      | _ \<Rightarrow> (sh, k))"

definition chat_main ::
  "('j, 'b, 'e) chat_env \<Rightarrow> bool \<Rightarrow> u64 \<Rightarrow> session \<Rightarrow> u64 \<Rightarrow> 'b task_input
    \<Rightarrow> ('j, 'b) chat_shared \<Rightarrow> 'b chat_task \<Rightarrow> ('j, 'b) chat_shared \<times> 'b chat_task" where
  "chat_main E ok now s q inp sh k =
     (case inp of
        Proceed \<Rightarrow> (sh, k)
      | FromPeer NetErr \<Rightarrow> (sh, k\<lparr>ck_phase := ChatLeave s\<rparr>)
      | FromPeer NetEnd \<Rightarrow> (sh, k\<lparr>ck_phase := ChatLeave s\<rparr>)
      | FromPeer NetOther \<Rightarrow> (sh, k)
      | FromPeer (NetText txt) \<Rightarrow>
          (case from_json (ce_dec E) txt of
             Inl _ \<Rightarrow> (sh, k)
           | Inr w \<Rightarrow> chat_wire E ok now s q w sh k)
      | FromChannel (ChanMsg b) \<Rightarrow> (sh, chat_reply ok (Inr b :: 'e + 'b) (ChatLive s q) k)
      | FromChannel _ \<Rightarrow> (sh, k))"

text \<open>One step of a task: an input that does not fit the phase has no effect. \<open>ok\<close> says whether
  a write to the peer succeeds in this step.\<close>

definition chat_step ::
  "('j, 'b, 'e) chat_env \<Rightarrow> bool \<times> u64 \<times> 'b task_input
    \<Rightarrow> ('j, 'b) chat_shared \<Rightarrow> 'b chat_task \<Rightarrow> ('j, 'b) chat_shared \<times> 'b chat_task" where
  "chat_step E x sh k =
     (case x of (ok, now, inp) \<Rightarrow>
        (case ck_phase k of
           ChatAuth \<Rightarrow> (case inp of FromPeer msg \<Rightarrow> chat_wait_auth E ok now msg sh k | _ \<Rightarrow> (sh, k))
         | ChatManifest s \<Rightarrow> (sh, chat_reply ok (ce_enc E (Manifest (ch_manifest sh))) (ChatJoin s) k)
         | ChatJoin s \<Rightarrow>
             chat_broadcast (ce_enc E (wire_system (s_name s @ '' joined''))) (ChatFirst s) sh k
         | ChatFirst s \<Rightarrow>
             (sh, chat_reply ok
                (ce_enc E (Snapshot 0 (a_snapshot_for (of_simple (chat_authority now)) s (ch_room sh))))
                (ChatSubscribe s) k)
         | ChatSubscribe s \<Rightarrow> (sh, k\<lparr>ck_phase := ChatLive s 1\<rparr>)
         | ChatLive s q \<Rightarrow> chat_main E ok now s q inp sh k
         | ChatLeave s \<Rightarrow>
             (sh\<lparr>ch_room := a_on_disconnect (of_simple (chat_authority now)) s (ch_room sh)\<rparr>,
              k\<lparr>ck_phase := ChatGone s\<rparr>)
         | ChatGone s \<Rightarrow>
             chat_broadcast (ce_enc E (wire_system (s_name s @ '' left''))) ChatEnded sh k
         | ChatEnded \<Rightarrow> (sh, k)))"

abbreviation chat_run ::
  "('j, 'b, 'e) chat_env \<Rightarrow> (bool \<times> u64 \<times> 'b task_input) server_event list \<Rightarrow> 'j \<Rightarrow> string \<Rightarrow> string option
    \<Rightarrow> (('j, 'b) chat_shared, 'b chat_task) server" where
  "chat_run E evs metadata name peer \<equiv>
     server_run chat_task_new (chat_step E) evs
       \<lparr>srv_shared = chat_shared_new metadata name peer, srv_tasks = []\<rparr>"

end
