(* ===== verification/Chat_Sessions.thy ===== *)
theory Chat_Sessions
  imports Chat
begin

section \<open>Who is in the chat room, and what a client of it receives\<close>

text \<open>
  Two facts about every interleaving of the connection tasks: the table of users against the
  tasks that are still between authentication and clean-up, and the messages that a peer
  has received. Each step of a task is first reduced to its effect on the table
  (\<open>chat_effect\<close>), and the invariant is proved on the effects alone.
\<close>

text \<open>The session that a task has entered into the room and not yet removed.\<close>

fun chat_session :: "chat_phase \<Rightarrow> session option" where
  "chat_session ChatAuth = None"
| "chat_session (ChatManifest s) = Some s"
| "chat_session (ChatJoin s) = Some s"
| "chat_session (ChatFirst s) = Some s"
| "chat_session (ChatSubscribe s) = Some s"
| "chat_session (ChatLive s _) = Some s"
| "chat_session (ChatLeave s) = Some s"
| "chat_session (ChatGone _) = None"
| "chat_session ChatEnded = None"

text \<open>The codecs never fail: then no early return is taken but for a failed write.\<close>

definition codecs_total :: "('j, 'b, 'e) chat_env \<Rightarrow> bool" where
  "codecs_total E \<longleftrightarrow>
     (\<forall>m. \<exists>b. ce_enc E m = Inr b) \<and> (\<forall>p. \<exists>b. ce_passport_enc E p = Inr b)"

subsection \<open>Effects on the table\<close>

type_synonym chat_users = "u64 \<Rightarrow> (identity \<times> string) option"

inductive chat_effect ::
  "bool \<Rightarrow> chat_users \<times> u64 \<times> session option \<Rightarrow> chat_users \<times> u64 \<times> session option \<Rightarrow> bool" where
  quiet: "chat_effect cl (m, nx, x) (m, nx, x)"
| enter: "s_id s = nx \<Longrightarrow> chat_effect cl (m, nx, None) (m(nx \<mapsto> (s_identity s, nm)), nx + 1, Some s)"
| leave: "chat_effect cl (m, nx, Some s) (m(s_id s := None), nx, None)"
| abort: "\<not> cl \<Longrightarrow> chat_effect cl (m, nx, Some s) (m, nx, None)"

inductive_cases chat_effectE: "chat_effect cl (m, nx, x) (m', nx', x')"

definition chat_view :: "('j, 'b) chat_shared \<times> 'b chat_task \<Rightarrow> chat_users \<times> u64 \<times> session option" where
  "chat_view p = (map_of (cr_users (ch_room (fst p))), ch_next (fst p), chat_session (ck_phase (snd p)))"

lemma chat_reply_cases:
  "chat_reply ok m nxt k =
     (case m of Inl _ \<Rightarrow> k\<lparr>ck_phase := ChatEnded\<rparr>
      | Inr b \<Rightarrow> if ok then \<lparr>ck_phase = nxt, ck_out = ck_out k @ [b]\<rparr> else k\<lparr>ck_phase := ChatEnded\<rparr>)"
  by (simp add: chat_reply_def send_frame_def split: sum.splits)

lemma codecs_total_enc: "codecs_total E \<Longrightarrow> \<exists>b. ce_enc E m = Inr b"
  by (simp add: codecs_total_def)

lemma codecs_total_passport: "codecs_total E \<Longrightarrow> ce_passport_enc E p \<noteq> Inl e"
  unfolding codecs_total_def by (metis sum.distinct(1))

lemma view_same:
  "chat_session (ck_phase k') = chat_session (ck_phase k) \<Longrightarrow>
     chat_effect cl (chat_view (sh, k)) (chat_view (sh, k'))"
  by (simp add: chat_view_def quiet)

lemma view_refl [simp]: "chat_effect cl (chat_view p) (chat_view p)"
  by (simp add: chat_view_def quiet)

lemma view_reply:
  assumes "chat_session nxt = Some s" and "chat_session (ck_phase k) = Some s"
    and "cl \<longrightarrow> ok \<and> (\<exists>b. m = Inr b)"
  shows "chat_effect cl (chat_view (sh, k)) (chat_view (sh, chat_reply ok m nxt k))"
  using assms
  by (auto simp: chat_view_def chat_reply_cases split: sum.splits intro: chat_effect.intros)

lemma view_broadcast:
  assumes "chat_session nxt = chat_session (ck_phase k)" and "cl \<longrightarrow> (\<exists>b. m = Inr b)"
    and "cr_users (ch_room sh') = cr_users (ch_room sh)" and "ch_next sh' = ch_next sh"
  shows "chat_effect cl (chat_view (sh, k)) (chat_view (chat_broadcast m nxt sh' k))"
  using assms
  by (cases "chat_session (ck_phase k)")
    (auto simp: chat_view_def chat_broadcast_def split: sum.splits intro: chat_effect.intros)

lemma view_authenticate:
  assumes "chat_session (ck_phase k) = None"
  shows "chat_effect cl (chat_view (sh, k)) (chat_view (chat_authenticate E ok now who name pass sh k))"
  using assms enter [of "session_new (ch_next sh) who (display_name who name)" "ch_next sh" cl]
  by (auto simp: chat_authenticate_def chat_authority_def chat_on_connect_def chat_on_transfer_in_def
      import_accept_def chat_view_def Let_def split: option.splits sum.splits)

lemma view_wire:
  assumes "ck_phase k = ChatLive s q" and "cl \<longrightarrow> ok \<and> codecs_total E"
  shows "chat_effect cl (chat_view (sh, k)) (chat_view (chat_wire E ok now s q w sh k))"
proof -
  have reply: "chat_effect cl (chat_view (sh, k)) (chat_view (sh, chat_reply ok (ce_enc E m) (ChatLive s q) k))" for m
    using assms by (intro view_reply [where s = s]) (auto simp: codecs_total_def)
  show ?thesis
  proof (cases w)
    case (Intent i)
    then show ?thesis
      using assms
      by (cases i) (auto simp: chat_wire_def chat_authority_def chat_handle_intent_def chat_add_message_def
          codecs_total_def intro!: view_broadcast)
  next
    case (TransferRequest d)
    have "chat_effect cl (chat_view (sh, k)) (chat_view (sh, k\<lparr>ck_phase := ChatEnded\<rparr>))"
      if "ce_passport_enc E p = Inl e" for p e
      using assms that by (auto simp: chat_view_def dest: codecs_total_passport intro: chat_effect.intros)
    with TransferRequest reply show ?thesis
      by (auto simp: chat_wire_def split: sum.splits)
  qed (use reply in \<open>simp_all add: chat_wire_def\<close>)
qed

lemma view_step:
  assumes "cl \<longrightarrow> ok \<and> codecs_total E"
  shows "chat_effect cl (chat_view (sh, k)) (chat_view (chat_step E (ok, now, inp) sh k))"
proof (cases "ck_phase k")
  case ChatAuth
  then show ?thesis
    by (auto simp: chat_step_def chat_wait_auth_def view_authenticate intro!: view_same
        split: task_input.splits net.splits sum.splits client_wire.splits)
next
  case (ChatLive s q)
  have fwd: "chat_effect cl (chat_view (sh, k)) (chat_view (sh, chat_reply ok (Inr b) (ChatLive s q) k))" for b
    using ChatLive assms by (intro view_reply [where s = s]) auto
  have leaving: "chat_effect cl (chat_view (sh, k)) (chat_view (sh, k\<lparr>ck_phase := ChatLeave s\<rparr>))"
    using ChatLive by (simp add: view_same)
  show ?thesis
    using ChatLive assms fwd leaving
    by (auto simp: chat_step_def chat_main_def view_wire
        split: task_input.splits net.splits sum.splits from_channel.splits)
next
  case (ChatLeave s)
  then show ?thesis
    by (simp add: chat_step_def chat_authority_def chat_on_disconnect_def chat_view_def leave)
next
  case (ChatManifest s)
  then show ?thesis
    using assms by (auto simp: chat_step_def codecs_total_enc intro!: view_reply [where s = s])
next
  case (ChatFirst s)
  then show ?thesis
    using assms by (auto simp: chat_step_def codecs_total_enc intro!: view_reply [where s = s])
qed (use assms in \<open>auto simp: chat_step_def codecs_total_enc view_same intro!: view_broadcast\<close>)

subsection \<open>The invariant\<close>

text \<open>The table against the sessions \<open>xs\<close> of the tasks (\<open>None\<close> for a task without one), after
  \<open>n\<close> events.\<close>

definition chat_table_ok :: "nat \<Rightarrow> bool \<Rightarrow> chat_users \<Rightarrow> u64 \<Rightarrow> session option list \<Rightarrow> bool" where
  "chat_table_ok n cl m nx xs \<longleftrightarrow>
     unat nx \<le> n + 1 \<and>
     (\<forall>i \<in> dom m. i < nx) \<and>
     (\<forall>i < length xs. \<forall>s. xs ! i = Some s \<longrightarrow> (\<exists>nm. m (s_id s) = Some (s_identity s, nm))) \<and>
     (\<forall>i < length xs. \<forall>j < length xs. \<forall>s t.
        xs ! i = Some s \<longrightarrow> xs ! j = Some t \<longrightarrow> s_id s = s_id t \<longrightarrow> i = j) \<and>
     (cl \<longrightarrow> dom m \<subseteq> {s_id s | s. Some s \<in> set xs})"

lemma table_okD:
  assumes "chat_table_ok n cl m nx xs"
  shows "unat nx \<le> n + 1" "i \<in> dom m \<Longrightarrow> i < nx"
    "k < length xs \<Longrightarrow> xs ! k = Some s \<Longrightarrow> \<exists>nm. m (s_id s) = Some (s_identity s, nm)"
    "k < length xs \<Longrightarrow> j < length xs \<Longrightarrow> xs ! k = Some s \<Longrightarrow> xs ! j = Some t \<Longrightarrow> s_id s = s_id t \<Longrightarrow> k = j"
    "cl \<Longrightarrow> i \<in> dom m \<Longrightarrow> \<exists>k s. k < length xs \<and> xs ! k = Some s \<and> i = s_id s"
proof -
  show "cl \<Longrightarrow> i \<in> dom m \<Longrightarrow> \<exists>k s. k < length xs \<and> xs ! k = Some s \<and> i = s_id s"
    using assms unfolding chat_table_ok_def in_set_conv_nth by fast
qed (use assms in \<open>auto simp: chat_table_ok_def\<close>)

lemma table_okI:
  assumes "unat nx \<le> n + 1" "\<And>i. i \<in> dom m \<Longrightarrow> i < nx"
    "\<And>k s. k < length xs \<Longrightarrow> xs ! k = Some s \<Longrightarrow> \<exists>nm. m (s_id s) = Some (s_identity s, nm)"
    "\<And>k j s t. k < length xs \<Longrightarrow> j < length xs \<Longrightarrow> xs ! k = Some s \<Longrightarrow> xs ! j = Some t \<Longrightarrow> s_id s = s_id t \<Longrightarrow> k = j"
    "\<And>i. cl \<Longrightarrow> i \<in> dom m \<Longrightarrow> \<exists>k s. k < length xs \<and> xs ! k = Some s \<and> i = s_id s"
  shows "chat_table_ok n cl m nx xs"
  unfolding chat_table_ok_def
proof (intro conjI)
  show "cl \<longrightarrow> dom m \<subseteq> {s_id s | s. Some s \<in> set xs}"
  proof (intro impI subsetI)
    fix i assume "cl" "i \<in> dom m"
    then obtain k s where "k < length xs" "xs ! k = Some s" "i = s_id s"
      using assms(5) by blast
    then show "i \<in> {s_id s | s. Some s \<in> set xs}"
      by (metis (mono_tags, lifting) mem_Collect_eq nth_mem)
  qed
  show "\<forall>i \<in> dom m. i < nx"
    using assms(2) by blast
qed (rule assms(1), (intro allI impI, rule assms(3), assumption+), (intro allI impI, rule assms(4), assumption+))

lemma table_effect:
  assumes ok: "chat_table_ok n cl m nx xs" and eff: "chat_effect cl (m, nx, xs ! i) (m', nx', x')"
    and i: "i < length xs" and n: "n + 2 < 2 ^ 64"
  shows "chat_table_ok (Suc n) cl m' nx' (xs[i := x'])"
  using eff
proof cases
  case quiet
  with ok show ?thesis by (auto simp: chat_table_ok_def)
next
  case (enter s nm)
  have "unat nx + 1 < 2 ^ LENGTH(64)"
    using table_okD(1) [OF ok] n by simp
  then have nx: "nx < nx + 1" "unat (nx + 1) = unat nx + 1"
    by (simp_all add: word_less_nat_alt unat_word_ariths)
  have fresh: "nx \<notin> dom m" "k < length xs \<Longrightarrow> xs ! k = Some t \<Longrightarrow> s_id t \<noteq> nx" for k t
    using table_okD(2,3) [OF ok] by fastforce+
  show ?thesis
  proof (rule table_okI)
    show "unat nx' \<le> Suc n + 1"
      using enter nx table_okD(1) [OF ok] by simp
    show "\<And>j. j \<in> dom m' \<Longrightarrow> j < nx'"
      using enter nx table_okD(2) [OF ok] by (auto dest: less_trans)
    show "\<exists>nm. m' (s_id t) = Some (s_identity t, nm)"
      if "k < length (xs[i := x'])" "xs[i := x'] ! k = Some t" for k t
      using that enter fresh table_okD(3) [OF ok] i by (auto simp: nth_list_update split: if_splits)
    show "k = j" if "k < length (xs[i := x'])" "j < length (xs[i := x'])"
      "xs[i := x'] ! k = Some t" "xs[i := x'] ! j = Some u" "s_id t = s_id u" for k j t u
      using that enter fresh table_okD(4) [OF ok] i by (auto simp: nth_list_update split: if_splits)
    show "\<exists>k t. k < length (xs[i := x']) \<and> xs[i := x'] ! k = Some t \<and> j = s_id t"
      if "cl" "j \<in> dom m'" for j
    proof (cases "j = nx")
      case True
      with enter i show ?thesis by (intro exI [of _ i]) simp
    next
      case False
      with that enter have "j \<in> dom m" by auto
      then obtain k t where "k < length xs" "xs ! k = Some t" "j = s_id t"
        using table_okD(5) [OF ok \<open>cl\<close>] by blast
      with enter i show ?thesis by (intro exI [of _ k] exI [of _ t]) (auto simp: nth_list_update)
    qed
  qed
next
  case (leave s)
  show ?thesis
  proof (rule table_okI)
    show "unat nx' \<le> Suc n + 1"
      using leave table_okD(1) [OF ok] by simp
    show "\<And>j. j \<in> dom m' \<Longrightarrow> j < nx'"
      using leave table_okD(2) [OF ok] by (auto split: if_splits)
    show "\<exists>nm. m' (s_id t) = Some (s_identity t, nm)"
      if "k < length (xs[i := x'])" "xs[i := x'] ! k = Some t" for k t
      using that leave table_okD(3) [OF ok] table_okD(4) [OF ok, of k i t s] i
      by (auto simp: nth_list_update split: if_splits)
    show "k = j" if "k < length (xs[i := x'])" "j < length (xs[i := x'])"
      "xs[i := x'] ! k = Some t" "xs[i := x'] ! j = Some u" "s_id t = s_id u" for k j t u
      using that leave table_okD(4) [OF ok] i by (auto simp: nth_list_update split: if_splits)
    show "\<exists>k t. k < length (xs[i := x']) \<and> xs[i := x'] ! k = Some t \<and> j = s_id t"
      if "cl" "j \<in> dom m'" for j
    proof -
      have "j \<in> dom m" "j \<noteq> s_id s"
        using that leave by (auto split: if_splits)
      then obtain k t where "k < length xs" "xs ! k = Some t" "j = s_id t" "k \<noteq> i"
        using table_okD(5) [OF ok \<open>cl\<close>] leave by force
      then show ?thesis by (intro exI [of _ k] exI [of _ t]) simp
    qed
  qed
next
  case (abort s)
  show ?thesis
    by (rule table_okI)
      (use abort ok i table_okD(1-4) [OF ok] in \<open>auto simp: nth_list_update split: if_splits intro: le_SucI\<close>)
qed

lemma table_accept: "chat_table_ok n cl m nx xs \<Longrightarrow> chat_table_ok (Suc n) cl m nx (xs @ [None])"
  by (auto simp: chat_table_ok_def nth_append less_Suc_eq)

text \<open>The sessions of the server's tasks, and whether an event list has no failed write.\<close>

abbreviation chat_sessions :: "(('j, 'b) chat_shared, 'b chat_task) server \<Rightarrow> session option list" where
  "chat_sessions S \<equiv> map (\<lambda>k. chat_session (ck_phase k)) (srv_tasks S)"

abbreviation chat_users_of :: "(('j, 'b) chat_shared, 'b chat_task) server \<Rightarrow> chat_users" where
  "chat_users_of S \<equiv> map_of (cr_users (ch_room (srv_shared S)))"

fun writes_ok :: "(bool \<times> u64 \<times> 'b task_input) server_event \<Rightarrow> bool" where
  "writes_ok Accept = True"
| "writes_ok (Task i x) = fst x"

lemma table_run:
  assumes "length evs + 1 < 2 ^ 64" and "cl \<longrightarrow> codecs_total E \<and> list_all writes_ok evs"
  shows "chat_table_ok (length evs) cl (chat_users_of (chat_run E evs md name peer))
    (ch_next (srv_shared (chat_run E evs md name peer))) (chat_sessions (chat_run E evs md name peer))"
  using assms
proof (induction evs rule: rev_induct)
  case Nil
  then show ?case
    by (simp add: chat_table_ok_def chat_shared_new_def chat_room_new_def)
next
  case (snoc ev evs)
  define S where "S = chat_run E evs md name peer"
  have ok: "chat_table_ok (length evs) cl (chat_users_of S) (ch_next (srv_shared S)) (chat_sessions S)"
    unfolding S_def by (rule snoc.IH) (use snoc.prems in auto)
  show ?case
  proof (cases ev)
    case Accept
    with table_accept [OF ok] show ?thesis
      by (simp add: server_step_def chat_task_new_def S_def)
  next
    case (Task i x)
    obtain w now inp where x: "x = (w, now, inp)" by (cases x)
    show ?thesis
    proof (cases "i < length (srv_tasks S)")
      case True
      obtain sh k where step: "chat_step E x (srv_shared S) (srv_tasks S ! i) = (sh, k)"
        by fastforce
      have "cl \<longrightarrow> w \<and> codecs_total E"
        using snoc.prems Task x by simp
      from view_step [OF this, of "srv_shared S" "srv_tasks S ! i" now inp]
      have "chat_effect cl (chat_users_of S, ch_next (srv_shared S), chat_sessions S ! i)
          (map_of (cr_users (ch_room sh)), ch_next sh, chat_session (ck_phase k))"
        using step True x by (simp add: chat_view_def)
      from table_effect [OF ok this] snoc.prems True have
        "chat_table_ok (Suc (length evs)) cl (map_of (cr_users (ch_room sh))) (ch_next sh)
          ((chat_sessions S)[i := chat_session (ck_phase k)])"
        by simp
      then show ?thesis
        using Task True step by (simp add: server_step_def S_def [symmetric] map_update)
    next
      case False
      with Task ok show ?thesis
        by (auto simp: server_step_def S_def [symmetric] chat_table_ok_def)
    qed
  qed
qed

text \<open>C24: at every point of every interleaving, a task between authentication and clean-up has its
  session in the room's table under its own number, no two tasks share a number, and, as long
  as no write to a peer has failed and every message can be encoded, the table holds nobody
  else.\<close>

theorem chat_sessions_registered:
  assumes "length evs + 1 < 2 ^ 64"
  shows "(\<forall>i < length (chat_sessions (chat_run E evs md name peer)). \<forall>s.
      chat_sessions (chat_run E evs md name peer) ! i = Some s \<longrightarrow>
        (\<exists>nm. chat_users_of (chat_run E evs md name peer) (s_id s) = Some (s_identity s, nm)) \<and>
        (\<forall>j < length (chat_sessions (chat_run E evs md name peer)). \<forall>t.
           chat_sessions (chat_run E evs md name peer) ! j = Some t \<longrightarrow> s_id s = s_id t \<longrightarrow> i = j)) \<and>
    (codecs_total E \<and> list_all writes_ok evs \<longrightarrow>
      chat_present (ch_room (srv_shared (chat_run E evs md name peer))) =
        {s_id s | s. Some s \<in> set (chat_sessions (chat_run E evs md name peer))})"
proof (intro conjI impI)
  show "\<forall>i < length (chat_sessions (chat_run E evs md name peer)). \<forall>s.
      chat_sessions (chat_run E evs md name peer) ! i = Some s \<longrightarrow>
        (\<exists>nm. chat_users_of (chat_run E evs md name peer) (s_id s) = Some (s_identity s, nm)) \<and>
        (\<forall>j < length (chat_sessions (chat_run E evs md name peer)). \<forall>t.
           chat_sessions (chat_run E evs md name peer) ! j = Some t \<longrightarrow> s_id s = s_id t \<longrightarrow> i = j)"
  proof -
    have ok: "chat_table_ok (length evs) False (chat_users_of (chat_run E evs md name peer))
        (ch_next (srv_shared (chat_run E evs md name peer))) (chat_sessions (chat_run E evs md name peer))"
      by (rule table_run [OF assms]) simp
    show ?thesis
      using table_okD(3,4) [OF ok] by blast
  qed
next
  assume "codecs_total E \<and> list_all writes_ok evs"
  then have ok: "chat_table_ok (length evs) True (chat_users_of (chat_run E evs md name peer))
      (ch_next (srv_shared (chat_run E evs md name peer))) (chat_sessions (chat_run E evs md name peer))"
    by (intro table_run [OF assms] impI)
  have "dom (chat_users_of (chat_run E evs md name peer)) \<subseteq>
      {s_id s | s. Some s \<in> set (chat_sessions (chat_run E evs md name peer))}"
    using ok by (simp add: chat_table_ok_def)
  moreover have "{s_id s | s. Some s \<in> set (chat_sessions (chat_run E evs md name peer))} \<subseteq>
      dom (chat_users_of (chat_run E evs md name peer))"
    using table_okD(3) [OF ok] unfolding in_set_conv_nth by blast
  ultimately show "chat_present (ch_room (srv_shared (chat_run E evs md name peer))) =
      {s_id s | s. Some s \<in> set (chat_sessions (chat_run E evs md name peer))}"
    by (simp add: chat_present_def)
qed

text \<open>Codecs that never fail, on messages as they are; two clients, of which the first has left.\<close>

type_synonym demo_frame = "(unit, chat_snapshot) server_wire + chat_intent client_wire"

definition demo_chat_env :: "(unit, demo_frame, unit) chat_env" where
  "demo_chat_env =
     \<lparr>ce_enc = \<lambda>m. Inr (Inl m),
      ce_dec = \<lambda>b. (case b of Inl _ \<Rightarrow> Inl () | Inr w \<Rightarrow> Inr w),
      ce_passport_enc = \<lambda>_. Inr [],
      ce_passport_dec = \<lambda>_. Inl ()\<rparr>"

abbreviation demo_auth :: "string \<Rightarrow> demo_frame task_input" where
  "demo_auth who \<equiv> FromPeer (NetText (Inr (Auth (identity_local who) None None)))"

definition demo_chat_events :: "(bool \<times> u64 \<times> demo_frame task_input) server_event list" where
  "demo_chat_events =
     [Accept, Task 0 (True, 0, demo_auth ''ann''), Accept, Task 1 (True, 0, demo_auth ''bob''),
      Task 0 (True, 0, Proceed), Task 0 (True, 0, Proceed), Task 0 (True, 0, Proceed),
      Task 0 (True, 0, Proceed), Task 0 (True, 0, FromPeer NetEnd), Task 0 (True, 0, Proceed)]"

lemma demo_chat_sessions:
  "chat_sessions (chat_run demo_chat_env demo_chat_events () ''hall'' None) =
     [None, Some (session_new 2 (identity_local ''bob'') ''bob'')]"
  by code_simp

theorem chat_sessions_registered_witness:
  "chat_present (ch_room (srv_shared (chat_run demo_chat_env demo_chat_events () ''hall'' None))) = {2}"
proof -
  have "codecs_total demo_chat_env \<and> list_all writes_ok demo_chat_events"
    by (simp add: codecs_total_def demo_chat_env_def demo_chat_events_def)
  moreover have "length demo_chat_events + 1 < 2 ^ 64"
    by (simp add: demo_chat_events_def)
  ultimately have "chat_present (ch_room (srv_shared (chat_run demo_chat_env demo_chat_events () ''hall'' None))) =
      {s_id s | s. Some s \<in> set (chat_sessions (chat_run demo_chat_env demo_chat_events () ''hall'' None))}"
    using chat_sessions_registered [of demo_chat_events demo_chat_env "()" "''hall''" None] by blast
  then show ?thesis
    unfolding demo_chat_sessions by auto
qed

text \<open>When the manifest cannot be written, the task ends without the clean-up: the user stays in the
  table, and in every snapshot, although no task is left.\<close>

lemma chat_ghost_user:
  "let S = chat_run demo_chat_env [Accept, Task 0 (True, 0, demo_auth ''ann''), Task 0 (False, 0, Proceed)]
         () ''hall'' None
   in map ck_phase (srv_tasks S) = [ChatEnded] \<and>
      csn_users (chat_room_snapshot (ch_room (srv_shared S))) = [''ann'']"
  by code_simp

subsection \<open>What a peer has received\<close>

fun chat_greeted :: "chat_phase \<Rightarrow> bool" where
  "chat_greeted (ChatSubscribe _) = True"
| "chat_greeted (ChatLive _ _) = True"
| "chat_greeted (ChatLeave _) = True"
| "chat_greeted (ChatGone _) = True"
| "chat_greeted _ = False"

fun chat_half_greeted :: "chat_phase \<Rightarrow> bool" where
  "chat_half_greeted (ChatJoin _) = True"
| "chat_half_greeted (ChatFirst _) = True"
| "chat_half_greeted _ = False"

definition chat_out_ok :: "('j, 'b, 'e) chat_env \<Rightarrow> 'j manifest \<Rightarrow> 'b chat_task \<Rightarrow> bool" where
  "chat_out_ok E M k \<longleftrightarrow>
     (ck_phase k = ChatAuth \<or> (\<exists>s. ck_phase k = ChatManifest s) \<longrightarrow> ck_out k = []) \<and>
     (chat_half_greeted (ck_phase k) \<longrightarrow> (\<exists>bm. ce_enc E (Manifest M) = Inr bm \<and> ck_out k = [bm])) \<and>
     (chat_greeted (ck_phase k) \<longrightarrow>
        (\<exists>bm r bs rest. ce_enc E (Manifest M) = Inr bm \<and> ce_enc E (Snapshot 0 (chat_room_snapshot r)) = Inr bs \<and>
           ck_out k = bm # bs # rest))"

lemma out_ended [simp]: "chat_out_ok E M (k\<lparr>ck_phase := ChatEnded\<rparr>)"
  by (simp add: chat_out_ok_def)

lemma out_leaving: "chat_out_ok E M k \<Longrightarrow> ck_phase k = ChatLive s q \<Longrightarrow> chat_out_ok E M (k\<lparr>ck_phase := ChatLeave s\<rparr>)"
  by (simp add: chat_out_ok_def)

lemma out_live_reply:
  "chat_out_ok E M k \<Longrightarrow> chat_greeted (ck_phase k) \<Longrightarrow> chat_greeted nxt \<Longrightarrow> chat_out_ok E M (chat_reply ok m nxt k)"
  by (cases nxt) (auto simp: chat_out_ok_def chat_reply_cases split: sum.splits)

lemma out_wire:
  assumes "chat_out_ok E M k" and "ck_phase k = ChatLive s q"
  shows "chat_out_ok E M (snd (chat_wire E ok now s q w sh k)) \<and>
    ch_manifest (fst (chat_wire E ok now s q w sh k)) = ch_manifest sh"
  using assms out_live_reply [OF assms(1), of "ChatLive s q"]
  by (auto simp: chat_wire_def chat_broadcast_def Let_def chat_out_ok_def
      split: client_wire.splits sum.splits prod.splits)

interpretation chat_out: task_invariant chat_task_new "chat_step E" "\<lambda>sh. ch_manifest sh = M" "chat_out_ok E M" for E M
proof (unfold_locales, goal_cases)
  case 1
  then show ?case by (simp add: chat_out_ok_def chat_task_new_def)
next
  case (2 sh k x)
  obtain ok now inp where x: "x = (ok, now, inp)" by (cases x)
  show ?case
  proof (cases "ck_phase k")
    case ChatAuth
    with 2 x show ?thesis
      by (auto simp: chat_step_def chat_wait_auth_def chat_authenticate_def chat_authority_def
          chat_on_connect_def chat_on_transfer_in_def import_accept_def chat_out_ok_def Let_def
          split: task_input.splits net.splits sum.splits client_wire.splits option.splits)
  next
    case (ChatLive s q)
    with 2 x out_wire [OF 2(2) ChatLive] out_live_reply [OF 2(2), of "ChatLive s q"] show ?thesis
      by (auto simp: chat_step_def chat_main_def out_leaving
          split: task_input.splits net.splits sum.splits from_channel.splits)
  qed (use 2 x in \<open>auto simp: chat_step_def chat_reply_cases chat_broadcast_def chat_out_ok_def chat_authority_def
        split: sum.splits\<close>)
qed

text \<open>A peer whose task has reached the main loop has the manifest and the first snapshot, in this
  order and before everything else.\<close>

lemma chat_greeting:
  assumes "k \<in> set (srv_tasks (chat_run E evs md name peer))" and "chat_greeted (ck_phase k)"
  shows "\<exists>bm r bs rest. ce_enc E (Manifest (chat_manifest md name)) = Inr bm \<and>
    ce_enc E (Snapshot 0 (chat_room_snapshot r)) = Inr bs \<and> ck_out k = bm # bs # rest"
proof -
  have "ch_manifest (srv_shared \<lparr>srv_shared = chat_shared_new md name peer, srv_tasks = []\<rparr>) = chat_manifest md name"
    by (simp add: chat_shared_new_def)
  from chat_out.server_run_ok [OF this, of E evs] have "chat_out_ok E (chat_manifest md name) k"
    using assms(1) by (simp add: list_all_iff)
  with assms(2) show ?thesis
    by (auto simp: chat_out_ok_def)
qed

end
