(* ===== verification/Game.thy ===== *)
theory Game
  imports Server "HOL-Library.Multiset"
begin

section \<open>The game server\<close>

text \<open>
  \<^verbatim>\<open>examples/game/src\<close>: the world (\<^verbatim>\<open>world.rs\<close>), its protocol (\<^verbatim>\<open>protocol.rs\<close>) and the server
  (\<^verbatim>\<open>server.rs\<close>), which has wire messages of its own and does not use the authority trait.
  Coordinates are \<^verbatim>\<open>f32\<close>: the operations on them are the record \<open>f32_ops\<close>.
\<close>

record 'f f32_ops =
  f_of_int :: "int \<Rightarrow> 'f"
  f_add :: "'f \<Rightarrow> 'f \<Rightarrow> 'f"
  f_sub :: "'f \<Rightarrow> 'f \<Rightarrow> 'f"
  f_clamp :: "'f \<Rightarrow> 'f \<Rightarrow> 'f \<Rightarrow> 'f"
  f_powi :: "'f \<Rightarrow> int \<Rightarrow> 'f"
  f_sqrt :: "'f \<Rightarrow> 'f"
  f_less :: "'f \<Rightarrow> 'f \<Rightarrow> bool"

subsection \<open>Protocol types\<close>

datatype item_kind = Sword | Shield | Potion | Key | Gem | Torch

fun is_weapon :: "item_kind \<Rightarrow> bool" where
  "is_weapon Sword = True"
| "is_weapon _ = False"

fun kind_debug :: "item_kind \<Rightarrow> string" where
  "kind_debug Sword = ''Sword''"
| "kind_debug Shield = ''Shield''"
| "kind_debug Potion = ''Potion''"
| "kind_debug Key = ''Key''"
| "kind_debug Gem = ''Gem''"
| "kind_debug Torch = ''Torch''"

record inventory_item =
  ii_kind :: item_kind
  ii_count :: u32

record 'f world_item =
  wi_id :: u64
  wi_kind :: item_kind
  wi_x :: 'f
  wi_y :: 'f

datatype 'f game_intent =
    Move 'f 'f
  | UseItem nat
  | PickUp u64
  | Drop nat
  | TransferTo string

record 'f player_state =
  pst_identity :: identity
  pst_name :: string
  pst_x :: 'f
  pst_y :: 'f
  pst_health :: u32
  pst_equipped :: "item_kind option"

record 'f game_snapshot =
  gs_tick :: u64
  gs_players :: "'f player_state list"
  gs_items :: "'f world_item list"
  gs_zone_name :: string

record game_passport =
  gp_identity :: identity
  gp_name :: string
  gp_health :: u32
  gp_max_health :: u32
  gp_inventory :: "inventory_item list"
  gp_origin_zone :: string

record game_import =
  gi_accepted :: "inventory_item list"
  gi_rejected :: "(inventory_item \<times> string) list"
  gi_health :: u32

subsection \<open>Players\<close>

record 'f player =
  pl_identity :: identity
  pl_name :: string
  pl_x :: 'f
  pl_y :: 'f
  pl_health :: u32
  pl_max_health :: u32
  pl_inventory :: "inventory_item list"

definition player_new :: "'f f32_ops \<Rightarrow> identity \<Rightarrow> string \<Rightarrow> 'f player" where
  "player_new F who name =
     \<lparr>pl_identity = who, pl_name = name, pl_x = f_of_int F 0, pl_y = f_of_int F 0,
      pl_health = 100, pl_max_health = 100, pl_inventory = []\<rparr>"

definition player_from_passport :: "'f f32_ops \<Rightarrow> game_passport \<Rightarrow> game_import \<Rightarrow> 'f player" where
  "player_from_passport F p im =
     \<lparr>pl_identity = gp_identity p, pl_name = gp_name p, pl_x = f_of_int F 0, pl_y = f_of_int F 0,
      pl_health = gi_health im, pl_max_health = gp_max_health p, pl_inventory = gi_accepted im\<rparr>"

definition player_to_passport :: "'f player \<Rightarrow> string \<Rightarrow> game_passport" where
  "player_to_passport p zone =
     \<lparr>gp_identity = pl_identity p, gp_name = pl_name p, gp_health = pl_health p,
      gp_max_health = pl_max_health p, gp_inventory = pl_inventory p, gp_origin_zone = zone\<rparr>"

definition player_to_state :: "'f player \<Rightarrow> 'f player_state" where
  "player_to_state p =
     \<lparr>pst_identity = pl_identity p, pst_name = pl_name p, pst_x = pl_x p, pst_y = pl_y p,
      pst_health = pl_health p,
      pst_equipped = (case pl_inventory p of [] \<Rightarrow> None | i # _ \<Rightarrow> Some (ii_kind i))\<rparr>"

definition player_move_by :: "'f f32_ops \<Rightarrow> 'f \<Rightarrow> 'f \<Rightarrow> 'f player \<Rightarrow> 'f player" where
  "player_move_by F dx dy p =
     p\<lparr>pl_x := f_clamp F (f_add F (pl_x p) dx) (f_of_int F (-100)) (f_of_int F 100),
       pl_y := f_clamp F (f_add F (pl_y p) dy) (f_of_int F (-100)) (f_of_int F 100)\<rparr>"

subsection \<open>The world\<close>

record 'f world =
  w_name :: string
  w_tick :: u64
  w_players :: "(identity \<times> 'f player) list"
  w_items :: "'f world_item list"
  w_allow_weapons :: bool
  w_next_item_id :: u64

definition spawn_item :: "item_kind \<Rightarrow> 'f \<Rightarrow> 'f \<Rightarrow> 'f world \<Rightarrow> 'f world" where
  "spawn_item kind x y w =
     w\<lparr>w_items := w_items w @ [\<lparr>wi_id = w_next_item_id w, wi_kind = kind, wi_x = x, wi_y = y\<rparr>],
       w_next_item_id := w_next_item_id w + 1\<rparr>"

text \<open>\<^verbatim>\<open>str::contains\<close>. Of the letters of the word, no other character than the ASCII capital is
  turned into it by \<^verbatim>\<open>to_lowercase\<close>, so the ASCII lower case decides the same.\<close>

fun contains_str :: "string \<Rightarrow> string \<Rightarrow> bool" where
  "contains_str p [] \<longleftrightarrow> p = []"
| "contains_str p (c # cs) \<longleftrightarrow> starts_with p (c # cs) \<or> contains_str p cs"

definition world_new :: "'f f32_ops \<Rightarrow> string \<Rightarrow> 'f world" where
  "world_new F name =
     (let w = \<lparr>w_name = name, w_tick = 0, w_players = [], w_items = [],
               w_allow_weapons = (\<not> contains_str ''cave'' (map ascii_lower name)), w_next_item_id = 1\<rparr>
      in spawn_item Gem (f_of_int F 10) (f_of_int F 10)
           (spawn_item Torch (f_of_int F 0) (f_of_int F (-5))
             (spawn_item Sword (f_of_int F (-5)) (f_of_int F 3)
               (spawn_item Potion (f_of_int F 5) (f_of_int F 5) w))))"

text \<open>The import policy: one pass over the inventory that fills the two lists.\<close>

definition item_admitted :: "'f world \<Rightarrow> inventory_item \<Rightarrow> bool" where
  "item_admitted w i \<longleftrightarrow> \<not> (\<not> w_allow_weapons w \<and> is_weapon (ii_kind i))"

definition apply_import_policy :: "'f world \<Rightarrow> game_passport \<Rightarrow> game_import" where
  "apply_import_policy w p =
     (case fold (\<lambda>i (acc, rej).
             if \<not> item_admitted w i then (acc, rej @ [(i, ''Weapons not allowed in this zone'')])
             else (acc @ [i], rej)) (gp_inventory p) ([], []) of
        (acc, rej) \<Rightarrow>
          \<lparr>gi_accepted = acc, gi_rejected = rej, gi_health = max 1 (min 100 (gp_health p))\<rparr>)"

definition add_player :: "'f player \<Rightarrow> 'f world \<Rightarrow> 'f world" where
  "add_player p w = w\<lparr>w_players := AList.update (pl_identity p) p (w_players w)\<rparr>"

definition remove_player :: "identity \<Rightarrow> 'f world \<Rightarrow> 'f world" where
  "remove_player who w = w\<lparr>w_players := AList.delete who (w_players w)\<rparr>"

definition world_tick :: "'f world \<Rightarrow> 'f world" where
  "world_tick w = w\<lparr>w_tick := w_tick w + 1\<rparr>"

definition world_snapshot :: "'f world \<Rightarrow> 'f game_snapshot" where
  "world_snapshot w =
     \<lparr>gs_tick = w_tick w, gs_players = map (\<lambda>(_, p). player_to_state p) (w_players w),
      gs_items = w_items w, gs_zone_name = w_name w\<rparr>"

subsection \<open>Intents\<close>

text \<open>\<^verbatim>\<open>iter().position(..)\<close>, and \<^verbatim>\<open>Vec::remove\<close> at an index within the list.\<close>

fun position :: "('a \<Rightarrow> bool) \<Rightarrow> 'a list \<Rightarrow> nat option" where
  "position P [] = None"
| "position P (x # xs) = (if P x then Some 0 else map_option Suc (position P xs))"

definition remove_at :: "nat \<Rightarrow> 'a list \<Rightarrow> 'a list" where
  "remove_at i xs = take i xs @ drop (Suc i) xs"

definition update_player :: "identity \<Rightarrow> ('f player \<Rightarrow> 'f player) \<Rightarrow> 'f world \<Rightarrow> 'f world" where
  "update_player who f w = w\<lparr>w_players := map_modify who f (w_players w)\<rparr>"

definition intent_move :: "'f f32_ops \<Rightarrow> identity \<Rightarrow> 'f \<Rightarrow> 'f \<Rightarrow> 'f world \<Rightarrow> 'f world" where
  "intent_move F who dx dy w = update_player who (player_move_by F dx dy) w"

definition within_reach :: "'f f32_ops \<Rightarrow> 'f player \<Rightarrow> 'f world_item \<Rightarrow> bool" where
  "within_reach F p i \<longleftrightarrow>
     f_less F (f_sqrt F (f_add F (f_powi F (f_sub F (pl_x p) (wi_x i)) 2) (f_powi F (f_sub F (pl_y p) (wi_y i)) 2)))
       (f_of_int F 2)"

definition intent_pick_up :: "'f f32_ops \<Rightarrow> identity \<Rightarrow> u64 \<Rightarrow> 'f world \<Rightarrow> 'f world" where
  "intent_pick_up F who item w =
     (case (map_of (w_players w) who, position (\<lambda>i. wi_id i = item) (w_items w)) of
        (Some p, Some idx) \<Rightarrow>
          if within_reach F p (w_items w ! idx) then
            update_player who
              (\<lambda>p. p\<lparr>pl_inventory := pl_inventory p @ [\<lparr>ii_kind = wi_kind (w_items w ! idx), ii_count = 1\<rparr>]\<rparr>)
              (w\<lparr>w_items := remove_at idx (w_items w)\<rparr>)
          else w
      | _ \<Rightarrow> w)"

definition intent_use_item :: "identity \<Rightarrow> nat \<Rightarrow> 'f world \<Rightarrow> 'f world" where
  "intent_use_item who slot w =
     update_player who
       (\<lambda>p. if slot < length (pl_inventory p) \<and> ii_kind (pl_inventory p ! slot) = Potion then
              p\<lparr>pl_health := min (pl_health p + 25) (pl_max_health p),
                pl_inventory := remove_at slot (pl_inventory p)\<rparr>
            else p) w"

definition intent_drop :: "identity \<Rightarrow> nat \<Rightarrow> 'f world \<Rightarrow> 'f world" where
  "intent_drop who slot w =
     (case map_of (w_players w) who of
        None \<Rightarrow> w
      | Some p \<Rightarrow>
          if slot < length (pl_inventory p) then
            (let w1 = update_player who (\<lambda>p. p\<lparr>pl_inventory := remove_at slot (pl_inventory p)\<rparr>) w
             in w1\<lparr>w_items := w_items w1 @
                  [\<lparr>wi_id = w_tick w1, wi_kind = ii_kind (pl_inventory p ! slot), wi_x = pl_x p, wi_y = pl_y p\<rparr>]\<rparr>)
          else w)"

subsection \<open>The server\<close>

datatype 'f game_wire =
    GAuth identity string "bytes option"
  | GIntent "'f game_intent"
  | GWelcome string bool
  | GSnapshot "'f game_snapshot"
  | GTransfer string bytes
  | GImportReport "string list" "string list"
  | GError string

record ('f, 'b, 'e) game_env =
  ge_f32 :: "'f f32_ops"
  ge_enc :: "'f game_wire \<Rightarrow> 'e + 'b"
  ge_dec :: "'b \<Rightarrow> 'e + 'f game_wire"
  ge_passport_bytes :: "game_passport \<Rightarrow> bytes"
  ge_passport_from :: "bytes \<Rightarrow> game_passport option"
  ge_peer :: "string option"

datatype game_phase =
    GameAuth
  | GameWelcome identity
  | GameSubscribe identity
  | GameLive identity
  | GameLeave identity
  | GameEnded

record 'b game_task =
  gk_phase :: game_phase
  gk_out :: "'b list"

definition game_task_new :: "'b game_task" where
  "game_task_new = \<lparr>gk_phase = GameAuth, gk_out = []\<rparr>"

definition game_reply :: "bool \<Rightarrow> ('e + 'b) \<Rightarrow> game_phase \<Rightarrow> 'b game_task \<Rightarrow> 'b game_task" where
  "game_reply ok m nxt k =
     (case send_frame ok m (gk_out k) of
        None \<Rightarrow> k\<lparr>gk_phase := GameEnded\<rparr>
      | Some out \<Rightarrow> \<lparr>gk_phase = nxt, gk_out = out\<rparr>)"

text \<open>The intents of the player that authenticated as \<open>who\<close>; only a transfer answers.\<close>

definition game_handle_intent ::
  "('f, 'b, 'e) game_env \<Rightarrow> bool \<Rightarrow> identity \<Rightarrow> 'f game_intent \<Rightarrow> 'f world \<Rightarrow> 'b game_task
    \<Rightarrow> 'f world \<times> 'b game_task" where
  "game_handle_intent E ok who i w k =
     (case i of
        Move dx dy \<Rightarrow> (intent_move (ge_f32 E) who dx dy w, k)
      | PickUp item \<Rightarrow> (intent_pick_up (ge_f32 E) who item w, k)
      | UseItem slot \<Rightarrow> (intent_use_item who slot w, k)
      | Drop slot \<Rightarrow> (intent_drop who slot w, k)
      | TransferTo d \<Rightarrow>
          if ge_peer E \<noteq> Some d then
            (w, game_reply ok (ge_enc E (GError (''Unknown destination: '' @ d))) (gk_phase k) k)
          else
            (case map_of (w_players w) who of
               None \<Rightarrow> (w, k)
             | Some p \<Rightarrow>
                 (w, game_reply ok (ge_enc E (GTransfer d (ge_passport_bytes E (player_to_passport p (w_name w)))))
                       (gk_phase k) k)))"

text \<open>The authentication: a passport that can be read is put through the import policy and
  reported on before the player is added; the task goes on under the identity of the message.\<close>

definition import_report :: "game_import \<Rightarrow> 'f game_wire" where
  "import_report im =
     GImportReport (map (\<lambda>i. kind_debug (ii_kind i)) (gi_accepted im))
       (map (\<lambda>(i, reason). kind_debug (ii_kind i) @ '': '' @ reason) (gi_rejected im))"

definition game_authenticate ::
  "('f, 'b, 'e) game_env \<Rightarrow> bool \<Rightarrow> identity \<Rightarrow> string \<Rightarrow> bytes option \<Rightarrow> 'f world \<Rightarrow> 'b game_task
    \<Rightarrow> 'f world \<times> 'b game_task" where
  "game_authenticate E ok who name pass w k =
     (case Option.bind pass (ge_passport_from E) of
        None \<Rightarrow> (add_player (player_new (ge_f32 E) who name) w, k\<lparr>gk_phase := GameWelcome who\<rparr>)
      | Some p \<Rightarrow>
          (let im = apply_import_policy w p in
           case send_frame ok (ge_enc E (import_report im)) (gk_out k) of
             None \<Rightarrow> (w, k\<lparr>gk_phase := GameEnded\<rparr>)
           | Some out \<Rightarrow>
               (add_player (player_from_passport (ge_f32 E) p im) w,
                \<lparr>gk_phase = GameWelcome who, gk_out = out\<rparr>)))"

text \<open>The inputs of a task's step: the peer's next message, or what the tick channel hands out.\<close>

datatype ('f, 'b) game_input = GamePeer "'b net" | GameTick "'f game_snapshot" | GameLagged | GameProceed

definition game_wait_auth ::
  "('f, 'b, 'e) game_env \<Rightarrow> bool \<Rightarrow> 'b net \<Rightarrow> 'f world \<Rightarrow> 'b game_task \<Rightarrow> 'f world \<times> 'b game_task" where
  "game_wait_auth E ok msg w k =
     (case msg of
        NetText txt \<Rightarrow>
          (case ge_dec E txt of
             Inl _ \<Rightarrow> (w, k\<lparr>gk_phase := GameEnded\<rparr>)
           | Inr (GAuth who name pass) \<Rightarrow> game_authenticate E ok who name pass w k
           | Inr _ \<Rightarrow> (w, k))
      | NetOther \<Rightarrow> (w, k)
      | _ \<Rightarrow> (w, k\<lparr>gk_phase := GameEnded\<rparr>))"

definition game_main ::
  "('f, 'b, 'e) game_env \<Rightarrow> bool \<Rightarrow> identity \<Rightarrow> ('f, 'b) game_input \<Rightarrow> 'f world \<Rightarrow> 'b game_task
    \<Rightarrow> 'f world \<times> 'b game_task" where
  "game_main E ok who inp w k =
     (case inp of
        GamePeer (NetText txt) \<Rightarrow>
          (case ge_dec E txt of
             Inl _ \<Rightarrow> (w, k)
           | Inr (GIntent i) \<Rightarrow> game_handle_intent E ok who i w k
           | Inr _ \<Rightarrow> (w, k))
      | GamePeer NetOther \<Rightarrow> (w, k)
      | GamePeer _ \<Rightarrow> (w, k\<lparr>gk_phase := GameLeave who\<rparr>)
      | GameTick d \<Rightarrow> (w, game_reply ok (ge_enc E (GSnapshot d)) (GameLive who) k)
      | GameLagged \<Rightarrow> (w, k)
      | GameProceed \<Rightarrow> (w, k))"

definition game_step ::
  "('f, 'b, 'e) game_env \<Rightarrow> bool \<times> ('f, 'b) game_input \<Rightarrow> 'f world \<Rightarrow> 'b game_task
    \<Rightarrow> 'f world \<times> 'b game_task" where
  "game_step E x w k =
     (case x of (ok, inp) \<Rightarrow>
        (case gk_phase k of
           GameAuth \<Rightarrow> (case inp of GamePeer msg \<Rightarrow> game_wait_auth E ok msg w k | _ \<Rightarrow> (w, k))
         | GameWelcome who \<Rightarrow>
             (w, game_reply ok (ge_enc E (GWelcome (w_name w) (w_allow_weapons w))) (GameSubscribe who) k)
         | GameSubscribe who \<Rightarrow> (w, k\<lparr>gk_phase := GameLive who\<rparr>)
         | GameLive who \<Rightarrow> game_main E ok who inp w k
         | GameLeave who \<Rightarrow> (remove_player who w, k\<lparr>gk_phase := GameEnded\<rparr>)
         | GameEnded \<Rightarrow> (w, k)))"

text \<open>A turn of the tick loop: the world, and the snapshot that goes into the channel.\<close>

definition tick_loop :: "'f world \<Rightarrow> 'f world \<times> 'f game_snapshot" where
  "tick_loop w = (world_tick w, world_snapshot (world_tick w))"

subsection \<open>The invariant of the world\<close>

text \<open>What the code uses of \<^verbatim>\<open>f32::clamp\<close>, and of its constants.\<close>

definition f32_laws :: "'f f32_ops \<Rightarrow> bool" where
  "f32_laws F \<longleftrightarrow>
     (\<forall>x. \<not> f_less F (f_clamp F x (f_of_int F (-100)) (f_of_int F 100)) (f_of_int F (-100)) \<and>
          \<not> f_less F (f_of_int F 100) (f_clamp F x (f_of_int F (-100)) (f_of_int F 100))) \<and>
     \<not> f_less F (f_of_int F 0) (f_of_int F (-100)) \<and> \<not> f_less F (f_of_int F 100) (f_of_int F 0)"

definition inside :: "'f f32_ops \<Rightarrow> 'f \<Rightarrow> bool" where
  "inside F x \<longleftrightarrow> \<not> f_less F x (f_of_int F (-100)) \<and> \<not> f_less F (f_of_int F 100) x"

definition player_ok :: "'f f32_ops \<Rightarrow> 'f player \<Rightarrow> bool" where
  "player_ok F p \<longleftrightarrow> inside F (pl_x p) \<and> inside F (pl_y p) \<and> pl_health p \<le> max 100 (pl_max_health p)"

definition world_ok :: "'f f32_ops \<Rightarrow> 'f world \<Rightarrow> bool" where
  "world_ok F w \<longleftrightarrow> map_inv (w_players w) \<and>
     (\<forall>who p. map_of (w_players w) who = Some p \<longrightarrow> pl_identity p = who \<and> player_ok F p)"

lemma update_player_ok:
  "world_ok F w \<Longrightarrow> (\<And>p. player_ok F p \<Longrightarrow> player_ok F (f p) \<and> pl_identity (f p) = pl_identity p) \<Longrightarrow>
     world_ok F (update_player who f w)"
  by (auto simp: world_ok_def update_player_def)

lemma world_ok_items [simp]: "world_ok F (w\<lparr>w_items := is\<rparr>) = world_ok F w"
  by (simp add: world_ok_def)

lemma remove_player_ok: "world_ok F w \<Longrightarrow> world_ok F (remove_player who w)"
  by (simp add: world_ok_def remove_player_def)

lemma add_player_ok: "world_ok F w \<Longrightarrow> player_ok F p \<Longrightarrow> world_ok F (add_player p w)"
  by (simp add: world_ok_def add_player_def)

lemma intents_keep_ok:
  assumes "world_ok F w"
  shows "world_ok F (intent_pick_up F who item w)" "world_ok F (intent_use_item who slot w)"
    "world_ok F (intent_drop who slot w)"
  using assms
  by (auto simp: intent_pick_up_def intent_use_item_def intent_drop_def Let_def player_ok_def
      le_max_iff_disj min.coboundedI2 split: option.splits intro!: update_player_ok)

lemma move_ok: "f32_laws F \<Longrightarrow> world_ok F w \<Longrightarrow> world_ok F (intent_move F who dx dy w)"
  unfolding intent_move_def
  by (rule update_player_ok) (simp_all add: player_ok_def player_move_by_def inside_def f32_laws_def)

lemma player_new_ok: "f32_laws F \<Longrightarrow> player_ok F (player_new F who name)"
  by (simp add: player_ok_def player_new_def inside_def f32_laws_def)

lemma player_from_passport_ok:
  "f32_laws F \<Longrightarrow> player_ok F (player_from_passport F p (apply_import_policy w p))"
  by (auto simp: player_ok_def player_from_passport_def apply_import_policy_def inside_def f32_laws_def
      le_max_iff_disj split: prod.splits)

lemma handle_intent_ok:
  "f32_laws (ge_f32 E) \<Longrightarrow> world_ok (ge_f32 E) w \<Longrightarrow> world_ok (ge_f32 E) (fst (game_handle_intent E ok who i w k))"
  by (simp add: game_handle_intent_def move_ok intents_keep_ok split: game_intent.splits option.splits)

lemma game_step_ok:
  "f32_laws (ge_f32 E) \<Longrightarrow> world_ok (ge_f32 E) w \<Longrightarrow> world_ok (ge_f32 E) (fst (game_step E x w k))"
  by (auto simp: game_step_def game_wait_auth_def game_main_def game_authenticate_def handle_intent_ok
      remove_player_ok add_player_ok player_new_ok player_from_passport_ok Let_def
      split: prod.splits game_phase.splits game_input.splits net.splits sum.splits game_wire.splits option.splits)

interpretation game_served: task_invariant game_task_new "game_step E"
    "\<lambda>w. f32_laws (ge_f32 E) \<longrightarrow> world_ok (ge_f32 E) w" "\<lambda>_. True" for E
  by unfold_locales (simp_all add: game_step_ok)

text \<open>Whatever the connections do between two turns of the tick loop, the world stays well formed.\<close>

lemma game_run_ok:
  assumes "f32_laws (ge_f32 E)" and "world_ok (ge_f32 E) w"
  shows "world_ok (ge_f32 E) (srv_shared (server_run game_task_new (game_step E) evs
      \<lparr>srv_shared = fst (tick_loop w), srv_tasks = ks\<rparr>))"
proof -
  let ?S = "\<lparr>srv_shared = fst (tick_loop w), srv_tasks = ks\<rparr>"
  have "f32_laws (ge_f32 E) \<longrightarrow> world_ok (ge_f32 E) (srv_shared ?S)"
    using assms(2) by (simp add: tick_loop_def world_tick_def world_ok_def)
  moreover have "list_all (\<lambda>_. True) (srv_tasks ?S)"
    by (simp add: list_all_iff)
  ultimately show ?thesis
    using game_served.server_run_ok assms(1) by blast
qed

subsection \<open>Where the items go\<close>

text \<open>The items of a world, an inventory entry as often as its count says.\<close>

definition entry_items :: "inventory_item \<Rightarrow> item_kind multiset" where
  "entry_items e = replicate_mset (unat (ii_count e)) (ii_kind e)"

definition carried :: "'f player \<Rightarrow> item_kind multiset" where
  "carried p = (\<Sum>e \<in># mset (pl_inventory p). entry_items e)"

definition item_units :: "'f world \<Rightarrow> item_kind multiset" where
  "item_units w = image_mset wi_kind (mset (w_items w)) + (\<Sum>(_, p)\<leftarrow>w_players w. carried p)"

lemma map_modify_other: "k \<notin> fst ` set m \<Longrightarrow> map_modify k f m = m"
  by (induction m) (auto simp: map_modify_def)

lemma sum_modify:
  "map_inv m \<Longrightarrow> map_of m k = Some p \<Longrightarrow>
     (\<Sum>(_, x)\<leftarrow>map_modify k f m. g x) + g p = (\<Sum>(_, x)\<leftarrow>m. g x) + (g (f p) :: 'a multiset)"
proof (induction m)
  case (Cons kv m)
  obtain k' v where kv: "kv = (k', v)" by (cases kv)
  show ?case
  proof (cases "k' = k")
    case True
    then have "map_modify k f m = m"
      using Cons.prems(1) kv by (intro map_modify_other) (simp add: map_inv_def)
    with True Cons.prems(2) kv show ?thesis
      by (simp add: map_modify_def ac_simps)
  next
    case False
    with Cons kv show ?thesis
      by (simp add: map_modify_def map_inv_def add.assoc)
  qed
qed simp

lemma kinds_update_player:
  "world_ok F w \<Longrightarrow> map_of (w_players w) who = Some p \<Longrightarrow>
     item_units (update_player who f w) + carried p = item_units w + carried (f p)"
  using sum_modify [where m = "w_players w" and k = who and p = p and f = f and g = carried]
  by (simp add: item_units_def update_player_def world_ok_def add.assoc)

lemma update_player_absent: "map_of (w_players w) who = None \<Longrightarrow> update_player who f w = w"
  by (simp add: update_player_def map_modify_other map_of_eq_None_iff)

lemma remove_at_mset: "i < length xs \<Longrightarrow> add_mset (xs ! i) (mset (remove_at i xs)) = mset xs"
  by (metis add_mset_add_single id_take_nth_drop mset.simps(2) mset_append remove_at_def union_mset_add_mset_right)

lemma position_Some: "position P xs = Some i \<Longrightarrow> i < length xs \<and> P (xs ! i)"
  by (induction xs arbitrary: i) (auto split: if_splits)

text \<open>What an intent takes out of an inventory for good, and what a drop puts into the world.\<close>

definition slot_entry :: "identity \<Rightarrow> nat \<Rightarrow> 'f world \<Rightarrow> inventory_item option" where
  "slot_entry who slot w =
     (case map_of (w_players w) who of
        None \<Rightarrow> None
      | Some p \<Rightarrow> if slot < length (pl_inventory p) then Some (pl_inventory p ! slot) else None)"

definition items_taken :: "identity \<Rightarrow> 'f game_intent \<Rightarrow> 'f world \<Rightarrow> item_kind multiset" where
  "items_taken who i w =
     (case i of
        UseItem slot \<Rightarrow>
          (case slot_entry who slot w of
             None \<Rightarrow> {#}
           | Some e \<Rightarrow> if ii_kind e = Potion then entry_items e else {#})
      | Drop slot \<Rightarrow> (case slot_entry who slot w of None \<Rightarrow> {#} | Some e \<Rightarrow> entry_items e)
      | _ \<Rightarrow> {#})"

definition items_dropped :: "identity \<Rightarrow> 'f game_intent \<Rightarrow> 'f world \<Rightarrow> item_kind multiset" where
  "items_dropped who i w =
     (case i of
        Drop slot \<Rightarrow> (case slot_entry who slot w of None \<Rightarrow> {#} | Some e \<Rightarrow> {#ii_kind e#})
      | _ \<Rightarrow> {#})"

text \<open>Integers with their order are one instance.\<close>

definition int_f32 :: "int f32_ops" where
  "int_f32 =
     \<lparr>f_of_int = \<lambda>i. i, f_add = (+), f_sub = (-), f_clamp = \<lambda>x lo hi. max lo (min hi x),
      f_powi = \<lambda>x n. x ^ nat n, f_sqrt = \<lambda>x. x, f_less = (<)\<rparr>"

lemma int_f32_laws: "f32_laws int_f32"
  by (auto simp: f32_laws_def int_f32_def)

lemma pick_up_kinds:
  assumes "world_ok F w"
  shows "item_units (intent_pick_up F who item w) = item_units w"
proof (cases "map_of (w_players w) who")
  case (Some p)
  show ?thesis
  proof (cases "position (\<lambda>i. wi_id i = item) (w_items w)")
    case (Some idx)
    then have idx: "idx < length (w_items w)" by (blast dest: position_Some)
    let ?w = "w\<lparr>w_items := remove_at idx (w_items w)\<rparr>"
    let ?f = "\<lambda>p. p\<lparr>pl_inventory := pl_inventory p @ [\<lparr>ii_kind = wi_kind (w_items w ! idx), ii_count = 1\<rparr>]\<rparr>"
    have "item_units (update_player who ?f ?w) + carried p = item_units ?w + carried (?f p)"
      using assms \<open>map_of (w_players w) who = Some p\<close> by (intro kinds_update_player) simp_all
    also have "\<dots> = add_mset (wi_kind (w_items w ! idx)) (item_units ?w) + carried p"
      by (simp add: carried_def entry_items_def)
    also have "add_mset (wi_kind (w_items w ! idx)) (item_units ?w) = item_units w"
      using arg_cong [OF remove_at_mset [OF idx], of "image_mset wi_kind"] by (simp add: item_units_def)
    finally show ?thesis
      using Some \<open>map_of (w_players w) who = Some p\<close> by (simp add: intent_pick_up_def)
  qed (simp add: intent_pick_up_def Some)
qed (simp add: intent_pick_up_def)

lemma remove_slot_kinds:
  assumes "world_ok F w" and "map_of (w_players w) who = Some p" and "slot < length (pl_inventory p)"
    and "pl_inventory (f p) = remove_at slot (pl_inventory p)"
  shows "item_units w = item_units (update_player who f w) + entry_items (pl_inventory p ! slot)"
proof -
  have "carried p = entry_items (pl_inventory p ! slot) + carried (f p)"
    unfolding carried_def assms(4) by (simp flip: remove_at_mset [OF assms(3)])
  with kinds_update_player [OF assms(1,2), of f] show ?thesis by (simp add: ac_simps)
qed

lemma drop_kinds:
  assumes "world_ok F w"
  shows "item_units w + items_dropped who (Drop slot :: 'f game_intent) w =
    item_units (intent_drop who slot w) + items_taken who (Drop slot :: 'f game_intent) (w :: 'f world)"
proof (cases "slot_entry who slot w")
  case None
  then have "intent_drop who slot w = w"
    by (auto simp: slot_entry_def intent_drop_def split: option.splits if_splits)
  with None show ?thesis by (simp add: items_taken_def items_dropped_def)
next
  case (Some e)
  then obtain p where p: "map_of (w_players w) who = Some p" "slot < length (pl_inventory p)" "e = pl_inventory p ! slot"
    by (auto simp: slot_entry_def split: option.splits if_splits)
  have "item_units (x\<lparr>w_items := w_items x @ [i]\<rparr>) = add_mset (wi_kind i) (item_units x)" for x and i :: "'f world_item"
    by (simp add: item_units_def)
  with remove_slot_kinds [OF assms p(1,2), of "\<lambda>p. p\<lparr>pl_inventory := remove_at slot (pl_inventory p)\<rparr>"] Some p
  show ?thesis by (simp add: intent_drop_def items_taken_def items_dropped_def Let_def)
qed

lemma use_item_kinds:
  assumes "world_ok F w"
  shows "item_units w = item_units (intent_use_item who slot w) + items_taken who (UseItem slot :: 'f game_intent) (w :: 'f world)"
proof (cases "map_of (w_players w) who")
  case None
  then show ?thesis by (simp add: intent_use_item_def update_player_absent items_taken_def slot_entry_def)
next
  case (Some p)
  let ?f = "\<lambda>p. if slot < length (pl_inventory p) \<and> ii_kind (pl_inventory p ! slot) = Potion then
      p\<lparr>pl_health := min (pl_health p + 25) (pl_max_health p), pl_inventory := remove_at slot (pl_inventory p)\<rparr>
    else p"
  show ?thesis
  proof (cases "slot < length (pl_inventory p) \<and> ii_kind (pl_inventory p ! slot) = Potion")
    case True
    with remove_slot_kinds [OF assms Some, of slot ?f] Some show ?thesis
      by (simp add: intent_use_item_def items_taken_def slot_entry_def)
  next
    case False
    with kinds_update_player [OF assms Some, of ?f] Some show ?thesis
      by (auto simp: intent_use_item_def items_taken_def slot_entry_def)
  qed
qed

lemma move_kinds:
  assumes "world_ok F w"
  shows "item_units (intent_move F who dx dy w) = item_units w"
proof (cases "map_of (w_players w) who")
  case (Some p)
  then show ?thesis
    using kinds_update_player [OF assms Some, of "player_move_by F dx dy"]
    by (simp add: intent_move_def carried_def player_move_by_def)
qed (simp add: intent_move_def update_player_absent)

text \<open>C40: an intent keeps the world well formed (players under their own identity and within the
  field, nobody above the larger of 100 and their maximal health) and changes no other player.
  Counting an inventory entry as often as its count says, it keeps the items of the world and of
  all inventories together, whether they are carried or lie about, up to two exceptions, which
  are exact: a potion that is used takes its whole entry with it, and a drop takes the whole
  entry out of the inventory but puts a single item into the world, so that of an entry of
  several all but one are lost, and of an entry of none one is made. An item within the player's
  reach that is picked up leaves the world and becomes the last entry of the inventory.\<close>

theorem game_intent_sound:
  assumes "f32_laws (ge_f32 E)" and "world_ok (ge_f32 E) w" and "game_handle_intent E ok who i w k = (w', k')"
  shows "world_ok (ge_f32 E) w' \<and>
    item_units w + items_dropped who i w = item_units w' + items_taken who i w \<and>
    (\<forall>item idx p. i = PickUp item \<and> map_of (w_players w) who = Some p \<and>
       position (\<lambda>x. wi_id x = item) (w_items w) = Some idx \<and> within_reach (ge_f32 E) p (w_items w ! idx) \<longrightarrow>
       w_items w' = remove_at idx (w_items w) \<and>
       map_option pl_inventory (map_of (w_players w') who) =
         Some (pl_inventory p @ [\<lparr>ii_kind = wi_kind (w_items w ! idx), ii_count = 1\<rparr>])) \<and>
    (\<forall>other. other \<noteq> who \<longrightarrow> map_of (w_players w') other = map_of (w_players w) other)"
proof (intro conjI)
  show "world_ok (ge_f32 E) w'"
    using handle_intent_ok [OF assms(1,2), of ok who i k] assms(3) by simp
  show "item_units w + items_dropped who i w = item_units w' + items_taken who i w"
  proof (cases i)
    case (UseItem slot)
    with use_item_kinds [OF assms(2), of who slot] assms(3) show ?thesis
      by (simp add: game_handle_intent_def items_dropped_def)
  next
    case (Drop slot)
    with drop_kinds [OF assms(2), of who slot] assms(3) show ?thesis
      by (simp add: game_handle_intent_def)
  qed (use assms(3) move_kinds [OF assms(2)] pick_up_kinds [OF assms(2)] in
    \<open>auto simp: game_handle_intent_def items_taken_def items_dropped_def split: if_splits option.splits\<close>)
  show "\<forall>item idx p. i = PickUp item \<and> map_of (w_players w) who = Some p \<and>
       position (\<lambda>x. wi_id x = item) (w_items w) = Some idx \<and> within_reach (ge_f32 E) p (w_items w ! idx) \<longrightarrow>
       w_items w' = remove_at idx (w_items w) \<and>
       map_option pl_inventory (map_of (w_players w') who) =
         Some (pl_inventory p @ [\<lparr>ii_kind = wi_kind (w_items w ! idx), ii_count = 1\<rparr>])"
    using assms(3) by (auto simp: game_handle_intent_def intent_pick_up_def update_player_def)
  show "\<forall>other. other \<noteq> who \<longrightarrow> map_of (w_players w') other = map_of (w_players w) other"
    using assms(3)
    by (cases i) (auto simp: game_handle_intent_def intent_move_def intent_pick_up_def intent_use_item_def
        intent_drop_def update_player_def Let_def split: if_splits option.splits)
qed

text \<open>A player who drops the three keys that a passport brought: two of them are gone.\<close>

definition demo_game_env :: "(int, int game_wire, unit) game_env" where
  "demo_game_env =
     \<lparr>ge_f32 = int_f32, ge_enc = Inr, ge_dec = Inr, ge_passport_bytes = \<lambda>_. [],
      ge_passport_from = \<lambda>_. Some \<lparr>gp_identity = identity_local ''ann'', gp_name = ''Ann'', gp_health = 80,
        gp_max_health = 0, gp_inventory = [\<lparr>ii_kind = Key, ii_count = 3\<rparr>, \<lparr>ii_kind = Potion, ii_count = 1\<rparr>],
        gp_origin_zone = ''hill''\<rparr>,
      ge_peer = None\<rparr>"

definition demo_world :: "int world" where
  "demo_world = add_player (player_from_passport int_f32
     \<lparr>gp_identity = identity_local ''ann'', gp_name = ''Ann'', gp_health = 80, gp_max_health = 0,
      gp_inventory = [\<lparr>ii_kind = Key, ii_count = 3\<rparr>], gp_origin_zone = ''hill''\<rparr>
     \<lparr>gi_accepted = [\<lparr>ii_kind = Key, ii_count = 3\<rparr>], gi_rejected = [], gi_health = 80\<rparr>)
     (world_new int_f32 ''Cave'')"

theorem game_intent_sound_witness:
  "item_units demo_world =
     item_units (fst (game_handle_intent demo_game_env True (identity_local ''ann'') (Drop 0) demo_world
       (game_task_new :: int game_wire game_task))) + {#Key, Key#}"
proof -
  have E: "ge_f32 demo_game_env = int_f32" by (simp add: demo_game_env_def)
  have laws: "f32_laws (ge_f32 demo_game_env)" by (simp add: E int_f32_laws)
  have ok: "world_ok (ge_f32 demo_game_env) demo_world"
    by (simp add: E demo_world_def world_ok_def map_inv_def add_player_def player_from_passport_def player_ok_def inside_def
        int_f32_def world_new_def spawn_item_def Let_def)
  obtain w' k' where r: "game_handle_intent demo_game_env True (identity_local ''ann'') (Drop 0) demo_world
       (game_task_new :: int game_wire game_task) = (w', k')"
    by fastforce
  have "slot_entry (identity_local ''ann'') 0 demo_world = Some \<lparr>ii_kind = Key, ii_count = 3\<rparr>"
    by code_simp
  moreover have "replicate_mset 3 Key = {#Key, Key, Key#}" by (simp add: numeral_3_eq_3)
  ultimately have "items_dropped (identity_local ''ann'') (Drop 0 :: int game_intent) demo_world = {#Key#}"
      "items_taken (identity_local ''ann'') (Drop 0 :: int game_intent) demo_world = {#Key, Key, Key#}"
    by (simp_all add: items_dropped_def items_taken_def entry_items_def)
  with game_intent_sound [OF laws ok r] r show ?thesis by simp
qed

subsection \<open>What the rules allow\<close>

text \<open>In a zone without weapons the policy keeps a sword out of the inventory of an arriving player,
  but every world is created with one.\<close>

lemma policy_fold:
  "fold (\<lambda>i (acc, rej). if \<not> item_admitted w i then (acc, rej @ [(i, m)]) else (acc @ [i], rej)) xs (as, rs) =
     (as @ filter (item_admitted w) xs, rs @ map (\<lambda>i. (i, m)) (filter (\<lambda>i. \<not> item_admitted w i) xs))"
  by (induction xs arbitrary: as rs) simp_all

lemma policy_accepts: "gi_accepted (apply_import_policy w p) = filter (item_admitted w) (gp_inventory p)"
  unfolding apply_import_policy_def policy_fold by simp

lemma cave_has_sword: "\<not> w_allow_weapons (world_new int_f32 ''Deep Cave'') \<and>
    Sword \<in># item_units (world_new int_f32 ''Deep Cave'')"
  by code_simp

text \<open>A dropped item takes the tick as its number and may share it with another one; a potion lowers
  the health of a player whose passport has a smaller maximum; the player of a passport stays
  in the world when the connection that brought it authenticated under another name.\<close>

lemma drop_reuses_id:
  "map wi_id (w_items (intent_drop (identity_local ''ann'') 0 (world_tick demo_world))) = [1, 2, 3, 4, 1]"
  by code_simp

lemma potion_lowers_health:
  "let w = fst (game_authenticate demo_game_env True (identity_local ''bob'') ''Bob'' (Some []) (world_new int_f32 ''Hill'')
         (game_task_new :: int game_wire game_task))
   in map (\<lambda>(_, p). pl_health p) (w_players w) = [80] \<and>
      map (\<lambda>(_, p). pl_health p) (w_players (intent_use_item (identity_local ''ann'') 1 w)) = [0]"
  by code_simp

lemma passport_ghost_player:
  "let w = fst (game_authenticate demo_game_env True (identity_local ''bob'') ''Bob'' (Some []) (world_new int_f32 ''Hill'')
         (game_task_new :: int game_wire game_task))
   in map fst (w_players (remove_player (identity_local ''bob'') w)) = [identity_local ''ann'']"
  by code_simp

end
