(* ===== verification/Forum.thy ===== *)
theory Forum
  imports Wire
begin

section \<open>The forum and the microblog\<close>

text \<open>
  \<^verbatim>\<open>examples/forum/src\<close> and \<^verbatim>\<open>examples/microblog/src\<close>: two servers that answer HTTP requests.
  A handler runs under the state's lock, so it is a function of the state and the decoded
  request; a status code other than success is an error value. The clock is an input, read
  as often as the handler reads it; \<open>checked\<close> says whether the build checks arithmetic
  overflow (a debug build) or wraps around (a release build).
\<close>

datatype http_status = NOT_FOUND | BAD_REQUEST

subsection \<open>The forum's data\<close>

record forum_thread =
  ft_id :: u64
  ft_title :: string
  ft_author :: identity
  ft_author_name :: string
  ft_created_at :: u64
  ft_reply_count :: u32
  ft_last_activity :: u64

record forum_reply =
  fr_id :: u64
  fr_thread_id :: u64
  fr_author :: identity
  fr_author_name :: string
  fr_body :: string
  fr_created_at :: u64
  fr_parent_id :: "u64 option"

record thread_detail =
  td_thread :: forum_thread
  td_body :: string
  td_replies :: "forum_reply list"
  td_total_replies :: u32
  td_page :: u32
  td_per_page :: u32

record thread_list =
  tl_threads :: "forum_thread list"
  tl_total :: u32
  tl_page :: u32
  tl_per_page :: u32

record forum_profile =
  fp_identity :: identity
  fp_display_name :: string
  fp_post_count :: u32
  fp_reputation :: int
  fp_joined_at :: u64

datatype forum_intent =
    CreateThread string string
  | ReplyTo u64 string "u64 option"
  | EditPost u64 string
  | DeletePost u64

fun forum_intent_fields :: "'j json_ops \<Rightarrow> forum_intent \<Rightarrow> (string \<times> 'j) list" where
  "forum_intent_fields J (CreateThread title b) = tagged J ''create_thread'' [(''title'', j_str J title), (''body'', j_str J b)]"
| "forum_intent_fields J (ReplyTo thread_id b parent_id) =
     tagged J ''reply''
       [(''thread_id'', j_int J (uint thread_id)), (''body'', j_str J b),
        (''parent_id'', opt_json J (\<lambda>p. j_int J (uint p)) parent_id)]"
| "forum_intent_fields J (EditPost post_id b) = tagged J ''edit'' [(''post_id'', j_int J (uint post_id)), (''body'', j_str J b)]"
| "forum_intent_fields J (DeletePost post_id) = tagged J ''delete'' [(''post_id'', j_int J (uint post_id))]"

record forum_passport =
  fpp_identity :: identity
  fpp_display_name :: string
  fpp_home_forum :: string
  fpp_reputation :: int
  fpp_post_count :: u32

record forum_import_result =
  fi_reputation :: int
  fi_can_post :: bool
  fi_restriction_reason :: "string option"

record stored_thread =
  st_thread :: forum_thread
  st_body :: string
  st_replies :: "forum_reply list"

record forum_state =
  fs_name :: string
  fs_port :: u16
  fs_threads :: "stored_thread list"
  fs_users :: "(identity \<times> forum_profile) list"
  fs_next_thread_id :: u64
  fs_next_reply_id :: u64

definition forum_state_new :: "string \<Rightarrow> u16 \<Rightarrow> forum_state" where
  "forum_state_new name port =
     \<lparr>fs_name = name, fs_port = port, fs_threads = [], fs_users = [], fs_next_thread_id = 1, fs_next_reply_id = 1\<rparr>"

subsection \<open>The forum's handlers\<close>

definition forum_import_policy :: "forum_passport \<Rightarrow> forum_import_result" where
  "forum_import_policy p =
     (let rep = max (-100) (min 100 (fpp_reputation p));
          can = (rep \<ge> 0 \<or> fpp_post_count p > 10)
      in \<lparr>fi_reputation = rep, fi_can_post = can,
          fi_restriction_reason =
            (if can then None else Some ''New users with negative reputation must wait for approval'')\<rparr>)"

definition get_or_create_user :: "u64 \<Rightarrow> identity \<Rightarrow> string \<Rightarrow> forum_state \<Rightarrow> forum_state" where
  "get_or_create_user now who name s =
     (case map_of (fs_users s) who of
        Some _ \<Rightarrow> s
      | None \<Rightarrow>
          s\<lparr>fs_users := AList.update who
              \<lparr>fp_identity = who, fp_display_name = name, fp_post_count = 0, fp_reputation = 0, fp_joined_at = now\<rparr>
              (fs_users s)\<rparr>)"

text \<open>\<^verbatim>\<open>let user = s.get_or_create_user(..); user.post_count += 1\<close>.\<close>

definition count_post :: "u64 \<Rightarrow> identity \<Rightarrow> string \<Rightarrow> forum_state \<Rightarrow> forum_state" where
  "count_post now who name s =
     (let s1 = get_or_create_user now who name s
      in s1\<lparr>fs_users := map_modify who (\<lambda>p. p\<lparr>fp_post_count := fp_post_count p + 1\<rparr>) (fs_users s1)\<rparr>)"

definition forum_manifest :: "(nat \<Rightarrow> 'j) \<Rightarrow> forum_state \<Rightarrow> 'j manifest" where
  "forum_manifest metadata s =
     \<lparr>m_identity = identity_local (fs_name s), m_name = fs_name s, m_substrate = None,
      m_metadata = metadata (length (fs_threads s))\<rparr>"

text \<open>\<^verbatim>\<open>((page - 1) * per_page) as usize\<close> on \<^verbatim>\<open>u32\<close>.\<close>

definition page_start :: "bool \<Rightarrow> u32 \<Rightarrow> u32 \<Rightarrow> nat outcome" where
  "page_start checked page per_page =
     (if checked \<and> (page = 0 \<or> 2 ^ 32 \<le> (unat page - 1) * unat per_page) then Panic
      else Done (unat ((page - 1) * per_page)))"

definition page_or :: "u32 option \<Rightarrow> u32" where
  "page_or page = (case page of None \<Rightarrow> 1 | Some p \<Rightarrow> p)"

definition per_page_or :: "u32 \<Rightarrow> u32 option \<Rightarrow> u32" where
  "per_page_or d per_page = min (case per_page of None \<Rightarrow> d | Some p \<Rightarrow> p) 100"

definition list_threads :: "bool \<Rightarrow> u32 option \<Rightarrow> u32 option \<Rightarrow> forum_state \<Rightarrow> thread_list outcome" where
  "list_threads checked page per_page s =
     (let p = page_or page; pp = per_page_or 20 per_page
      in bind_outcome (page_start checked p pp)
           (\<lambda>start. Done \<lparr>tl_threads = map st_thread (take (unat pp) (drop start (rev (fs_threads s)))),
              tl_total = of_nat (length (fs_threads s)), tl_page = p, tl_per_page = pp\<rparr>))"

definition find_thread :: "u64 \<Rightarrow> forum_state \<Rightarrow> stored_thread option" where
  "find_thread i s = find (\<lambda>t. ft_id (st_thread t) = i) (fs_threads s)"

definition get_thread ::
  "bool \<Rightarrow> u64 \<Rightarrow> u32 option \<Rightarrow> u32 option \<Rightarrow> forum_state \<Rightarrow> (http_status + thread_detail) outcome" where
  "get_thread checked i page per_page s =
     (case find_thread i s of
        None \<Rightarrow> Done (Inl NOT_FOUND)
      | Some t \<Rightarrow>
          (let p = page_or page; pp = per_page_or 50 per_page
           in bind_outcome (page_start checked p pp)
                (\<lambda>start. Done (Inr
                   \<lparr>td_thread = st_thread t, td_body = st_body t,
                    td_replies = take (unat pp) (drop start (st_replies t)),
                    td_total_replies = of_nat (length (st_replies t)), td_page = p, td_per_page = pp\<rparr>))))"

definition author_or_anonymous :: "string \<Rightarrow> string" where
  "author_or_anonymous name = (if name = [] then ''Anonymous'' else name)"

definition create_thread ::
  "u64 \<Rightarrow> u64 \<Rightarrow> string \<Rightarrow> string \<Rightarrow> string \<Rightarrow> forum_state \<Rightarrow> forum_thread \<times> forum_state" where
  "create_thread now1 now2 title body author s =
     (let who = identity_local author;
          name = author_or_anonymous author;
          s1 = count_post now1 who name s;
          t = \<lparr>ft_id = fs_next_thread_id s1, ft_title = title, ft_author = who, ft_author_name = name,
               ft_created_at = now2, ft_reply_count = 0, ft_last_activity = now2\<rparr>
      in (t, s1\<lparr>fs_next_thread_id := fs_next_thread_id s1 + 1,
                fs_threads := fs_threads s1 @ [\<lparr>st_thread = t, st_body = body, st_replies = []\<rparr>]\<rparr>))"

text \<open>\<^verbatim>\<open>iter_mut().find(..)\<close>: change the first thread with the number.\<close>

fun update_thread :: "u64 \<Rightarrow> (stored_thread \<Rightarrow> stored_thread) \<Rightarrow> stored_thread list \<Rightarrow> stored_thread list" where
  "update_thread i f [] = []"
| "update_thread i f (t # ts) = (if ft_id (st_thread t) = i then f t # ts else t # update_thread i f ts)"

definition add_reply :: "u64 \<Rightarrow> forum_reply \<Rightarrow> stored_thread \<Rightarrow> stored_thread" where
  "add_reply now r t =
     t\<lparr>st_thread := (st_thread t)\<lparr>ft_reply_count := ft_reply_count (st_thread t) + 1, ft_last_activity := now\<rparr>,
       st_replies := st_replies t @ [r]\<rparr>"

definition reply_to_thread ::
  "u64 \<Rightarrow> u64 \<Rightarrow> u64 \<Rightarrow> string \<Rightarrow> string \<Rightarrow> u64 option \<Rightarrow> forum_state
    \<Rightarrow> (http_status + forum_reply) \<times> forum_state" where
  "reply_to_thread now1 now2 thread_id body author parent s =
     (if \<not> list_ex (\<lambda>t. ft_id (st_thread t) = thread_id) (fs_threads s) then (Inl NOT_FOUND, s)
      else
        let who = identity_local author;
            name = author_or_anonymous author;
            r = \<lparr>fr_id = fs_next_reply_id s, fr_thread_id = thread_id, fr_author = who, fr_author_name = name,
                 fr_body = body, fr_created_at = now1, fr_parent_id = parent\<rparr>;
            s1 = s\<lparr>fs_next_reply_id := fs_next_reply_id s + 1,
                   fs_threads := update_thread thread_id (add_reply now1 r) (fs_threads s)\<rparr>
        in (Inr r, count_post now2 who name s1))"

definition get_forum_profile :: "string \<Rightarrow> forum_state \<Rightarrow> http_status + forum_profile" where
  "get_forum_profile txt s =
     (case identity_from_str txt of
        Inl _ \<Rightarrow> Inl BAD_REQUEST
      | Inr who \<Rightarrow> (case map_of (fs_users s) who of None \<Rightarrow> Inl NOT_FOUND | Some p \<Rightarrow> Inr p))"

definition import_user :: "forum_passport \<Rightarrow> forum_state \<Rightarrow> forum_import_result" where
  "import_user p s = forum_import_policy p"

subsection \<open>What the forum keeps\<close>

text \<open>The requests that change the state.\<close>

datatype forum_request =
    CreateThread u64 u64 string string string
  | ReplyTo u64 u64 u64 string string "u64 option"

fun forum_serve :: "forum_request \<Rightarrow> forum_state \<Rightarrow> forum_state" where
  "forum_serve (CreateThread now1 now2 title body author) s = snd (create_thread now1 now2 title body author s)"
| "forum_serve (ReplyTo now1 now2 i body author parent) s = snd (reply_to_thread now1 now2 i body author parent s)"

abbreviation thread_id :: "stored_thread \<Rightarrow> u64" where
  "thread_id t \<equiv> ft_id (st_thread t)"

definition stored_ok :: "u64 \<Rightarrow> stored_thread \<Rightarrow> bool" where
  "stored_ok nr t \<longleftrightarrow>
     ft_reply_count (st_thread t) = of_nat (length (st_replies t)) \<and>
     sorted_wrt (<) (map fr_id (st_replies t)) \<and>
     (\<forall>r \<in> set (st_replies t). fr_thread_id r = thread_id t \<and> fr_id r < nr)"

definition forum_ok :: "nat \<Rightarrow> forum_state \<Rightarrow> bool" where
  "forum_ok n s \<longleftrightarrow>
     unat (fs_next_thread_id s) \<le> n + 1 \<and> unat (fs_next_reply_id s) \<le> n + 1 \<and>
     sorted_wrt (<) (map thread_id (fs_threads s)) \<and>
     (\<forall>t \<in> set (fs_threads s). thread_id t < fs_next_thread_id s \<and> stored_ok (fs_next_reply_id s) t)"

lemma count_post_sel [simp]:
  "fs_threads (count_post now who name s) = fs_threads s"
  "fs_next_thread_id (count_post now who name s) = fs_next_thread_id s"
  "fs_next_reply_id (count_post now who name s) = fs_next_reply_id s"
  by (simp_all add: count_post_def get_or_create_user_def Let_def split: option.splits)

lemma word_succ:
  fixes x :: u64
  assumes "unat x \<le> n + 1" and "n + 2 < 2 ^ 64"
  shows "x < x + 1" "unat (x + 1) = unat x + 1"
proof -
  have "unat x + 1 < 2 ^ LENGTH(64)" using assms by simp
  then show "x < x + 1" "unat (x + 1) = unat x + 1"
    by (simp_all add: word_less_nat_alt unat_word_ariths)
qed

lemma create_thread_ok:
  assumes ok: "forum_ok n s" and n: "n + 2 < 2 ^ 64"
  shows "forum_ok (Suc n) (snd (create_thread now1 now2 title body author s))"
proof -
  have "unat (fs_next_thread_id s) \<le> n + 1"
    using ok by (simp add: forum_ok_def)
  note succ = word_succ [OF this n]
  show ?thesis
    using ok succ
    by (auto simp: forum_ok_def create_thread_def Let_def sorted_wrt_append stored_ok_def dest: less_trans)
qed

lemma update_thread_ids [simp]:
  "(\<And>t. thread_id (f t) = thread_id t) \<Longrightarrow> map thread_id (update_thread i f ts) = map thread_id ts"
  by (induction ts) auto

lemma update_thread_all:
  "(\<And>t. t \<in> set ts \<Longrightarrow> P t) \<Longrightarrow> (\<And>t. t \<in> set ts \<Longrightarrow> thread_id t = i \<Longrightarrow> P (f t)) \<Longrightarrow>
     t \<in> set (update_thread i f ts) \<Longrightarrow> P t"
  by (induction ts) (auto split: if_splits)

lemma reply_ok:
  assumes ok: "forum_ok n s" and n: "n + 2 < 2 ^ 64"
  shows "forum_ok (Suc n) (snd (reply_to_thread now1 now2 i body author parent s))"
proof (cases "list_ex (\<lambda>t. thread_id t = i) (fs_threads s)")
  case False
  then show ?thesis
    using ok by (auto simp: reply_to_thread_def forum_ok_def)
next
  case True
  have nr: "unat (fs_next_reply_id s) \<le> n + 1"
    using ok by (simp add: forum_ok_def)
  note succ = word_succ [OF this n]
  define r where "r = \<lparr>fr_id = fs_next_reply_id s, fr_thread_id = i, fr_author = identity_local author,
      fr_author_name = author_or_anonymous author, fr_body = body, fr_created_at = now1, fr_parent_id = parent\<rparr>"
  have grow: "stored_ok (fs_next_reply_id s + 1) t" if "stored_ok (fs_next_reply_id s) t" for t
    using that succ(1) by (auto simp: stored_ok_def dest: less_trans)
  have added: "stored_ok (fs_next_reply_id s + 1) (add_reply now1 r t)"
    if "stored_ok (fs_next_reply_id s) t" "thread_id t = i" for t
    using that succ(1) by (auto simp: stored_ok_def add_reply_def r_def sorted_wrt_append dest: less_trans)
  have "thread_id t < fs_next_thread_id s \<and> stored_ok (fs_next_reply_id s + 1) t"
    if "t \<in> set (update_thread i (add_reply now1 r) (fs_threads s))" for t
    using that ok grow added
    by (rule_tac update_thread_all [of "fs_threads s" _ i "add_reply now1 r"])
      (auto simp: forum_ok_def add_reply_def)
  then show ?thesis
    using True ok succ(2)
    by (auto simp: reply_to_thread_def r_def [symmetric] forum_ok_def Let_def add_reply_def)
qed

text \<open>After any sequence of requests (fewer than \<open>2 ^ 64 - 2\<close>) the threads have increasing numbers, the
  reply counter of a thread is the number of its replies modulo \<open>2 ^ 32\<close>, and each reply is stored
  with the thread it names, under increasing numbers.\<close>

lemma forum_serve_ok:
  "length rs + 1 < 2 ^ 64 \<Longrightarrow> forum_ok (length rs) (fold forum_serve rs (forum_state_new name port))"
proof (induction rs rule: rev_induct)
  case Nil
  show ?case by (simp add: forum_ok_def forum_state_new_def)
next
  case (snoc r rs)
  then have "forum_ok (length rs) (fold forum_serve rs (forum_state_new name port))" by simp
  with snoc.prems create_thread_ok reply_ok show ?case
    by (cases r) simp_all
qed

subsection \<open>Pages\<close>

lemma page_start_exact:
  assumes "page \<noteq> 0" and "(unat page - 1) * unat pp < 2 ^ 32"
  shows "page_start checked page pp = Done ((unat page - 1) * unat pp)"
proof -
  have "unat (page - 1) = unat page - 1"
    using assms(1) by (simp add: unat_minus_one)
  then show ?thesis
    using assms by (simp add: page_start_def unat_word_ariths)
qed

text \<open>The pages of a list, one after the other, are the list.\<close>

lemma pages_concat: "concat (map (\<lambda>i. take k (drop (i * k) xs)) [0..<n]) = take (n * k) xs"
  by (induction n) (simp_all add: take_add [symmetric] add.commute)

lemma forum_pages:
  assumes "unat pp \<le> 100" and "n * unat pp < 2 ^ 32" and "n < 2 ^ 32" and "length (fs_threads s) \<le> n * unat pp"
  shows "concat (map (\<lambda>i. case list_threads checked (Some (of_nat (Suc i))) (Some pp) s of
       Done l \<Rightarrow> tl_threads l | Panic \<Rightarrow> []) [0..<n]) = rev (map st_thread (fs_threads s))"
proof -
  have page: "(case list_threads checked (Some (of_nat (Suc i))) (Some pp) s of Done l \<Rightarrow> tl_threads l | Panic \<Rightarrow> []) =
      take (unat pp) (drop (i * unat pp) (rev (map st_thread (fs_threads s))))" if "i < n" for i
  proof -
    have u: "unat (of_nat (Suc i) :: u32) = Suc i"
      using that assms(3) by (intro of_nat_inverse) simp_all
    then have nz: "(of_nat (Suc i) :: u32) \<noteq> 0"
      by (metis nat.distinct(1) unat_0)
    have "i * unat pp \<le> n * unat pp" using that by simp
    with assms(2) have "i * unat pp < 2 ^ 32" by (rule_tac le_less_trans)
    then have "(unat (of_nat (Suc i) :: u32) - 1) * unat pp < 2 ^ 32"
      unfolding u by simp
    note start = page_start_exact [OF nz this]
    have "min pp 100 = pp"
      using assms(1) by (simp add: min_def word_le_nat_alt)
    then show ?thesis
      using start u by (simp add: list_threads_def page_or_def per_page_or_def Let_def take_map drop_map rev_map del: of_nat_Suc)
  qed
  have "concat (map (\<lambda>i. case list_threads checked (Some (of_nat (Suc i))) (Some pp) s of
       Done l \<Rightarrow> tl_threads l | Panic \<Rightarrow> []) [0..<n]) =
     concat (map (\<lambda>i. take (unat pp) (drop (i * unat pp) (rev (map st_thread (fs_threads s))))) [0..<n])"
    by (intro arg_cong [where f = concat] map_cong refl page) simp
  then show ?thesis
    using assms(4) by (simp add: pages_concat)
qed

text \<open>Page 0 panics in a debug build; in a release build it asks for a page before the first one,
  which starts far behind the end of any list.\<close>

lemma page_zero:
  "list_threads True (Some 0) None s = Panic"
  "page_start False 0 20 = Done (2 ^ 32 - 20)"
  by (simp_all add: list_threads_def page_or_def page_start_def Let_def)

subsection \<open>The microblog\<close>

record blog_post =
  bp_id :: u64
  bp_author :: identity
  bp_text :: string
  bp_timestamp :: u64

record blog_timeline =
  bt_posts :: "blog_post list"
  bt_server_name :: string

datatype blog_intent = BlogPost string | BlogFollow identity | BlogUnfollow identity

record blog_profile =
  bpr_identity :: identity
  bpr_display_name :: string
  bpr_bio :: string
  bpr_post_count :: u64

record blog_state =
  bs_identity :: identity
  bs_name :: string
  bs_port :: u16
  bs_posts :: "blog_post list"
  bs_following :: "identity set"
  bs_next_id :: u64

definition blog_address :: "string \<Rightarrow> u16 \<Rightarrow> string" where
  "blog_address name port = name @ ''@localhost:'' @ show_nat (unat port)"

definition blog_state_new :: "string \<Rightarrow> u16 \<Rightarrow> blog_state" where
  "blog_state_new name port =
     \<lparr>bs_identity = identity_url (blog_address name port), bs_name = name, bs_port = port, bs_posts = [],
      bs_following = {}, bs_next_id = 1\<rparr>"

definition blog_manifest :: "'j \<Rightarrow> blog_state \<Rightarrow> 'j manifest" where
  "blog_manifest metadata s =
     \<lparr>m_identity = bs_identity s, m_name = blog_address (bs_name s) (bs_port s), m_substrate = None,
      m_metadata = metadata\<rparr>"

definition blog_get_timeline :: "blog_state \<Rightarrow> blog_timeline" where
  "blog_get_timeline s =
     \<lparr>bt_posts = take 20 (rev (bs_posts s)), bt_server_name = ''localhost:'' @ show_nat (unat (bs_port s))\<rparr>"

definition blog_get_profile :: "blog_state \<Rightarrow> blog_profile" where
  "blog_get_profile s =
     \<lparr>bpr_identity = bs_identity s, bpr_display_name = bs_name s, bpr_bio = [],
      bpr_post_count = of_nat (length (bs_posts s))\<rparr>"

definition blog_create_post :: "u64 \<Rightarrow> blog_intent \<Rightarrow> blog_state \<Rightarrow> (http_status + blog_post) \<times> blog_state" where
  "blog_create_post now i s =
     (case i of
        BlogPost txt \<Rightarrow>
          (let p = \<lparr>bp_id = bs_next_id s, bp_author = bs_identity s, bp_text = txt, bp_timestamp = now\<rparr>
           in (Inr p, s\<lparr>bs_next_id := bs_next_id s + 1, bs_posts := bs_posts s @ [p]\<rparr>))
      | _ \<Rightarrow> (Inl BAD_REQUEST, s))"

definition blog_follow :: "blog_intent \<Rightarrow> blog_state \<Rightarrow> (http_status + string) \<times> blog_state" where
  "blog_follow i s =
     (case i of
        BlogFollow who \<Rightarrow> (Inr (identity_to_string who), s\<lparr>bs_following := insert who (bs_following s)\<rparr>)
      | _ \<Rightarrow> (Inl BAD_REQUEST, s))"

definition blog_unfollow :: "blog_intent \<Rightarrow> blog_state \<Rightarrow> (http_status + string) \<times> blog_state" where
  "blog_unfollow i s =
     (case i of
        BlogUnfollow who \<Rightarrow> (Inr (identity_to_string who), s\<lparr>bs_following := bs_following s - {who}\<rparr>)
      | _ \<Rightarrow> (Inl BAD_REQUEST, s))"

definition blog_remote_feed :: "string \<Rightarrow> string \<Rightarrow> blog_timeline" where
  "blog_remote_feed srv user =
     (let url = ''http://'' @ srv @ ''/timeline''
      in \<lparr>bt_posts = [], bt_server_name = user @ '' (fetch from '' @ url @ '')''\<rparr>)"

end
