(* ===== verification/Webchat.thy ===== *)
theory Webchat
  imports Server
begin

section \<open>The web chat server\<close>

text \<open>
  \<^verbatim>\<open>examples/webchat/src/main.rs\<close>: a room that keeps the last 100 messages and a task per web
  socket. Adding a message and publishing the snapshot take the room's lock separately, so
  other tasks may come between the two. The HTTP handlers hand out the page and start the
  task.
\<close>

record wc_message =
  wm_author :: string
  wm_text :: string
  wm_timestamp :: u64

record wc_snapshot =
  wsn_messages :: "wc_message list"

datatype wc_intent = WcSendMessage string

fun wc_intent_fields :: "'j json_ops \<Rightarrow> wc_intent \<Rightarrow> (string \<times> 'j) list" where
  "wc_intent_fields J (WcSendMessage txt) = tagged J ''send_message'' [(''text'', j_str J txt)]"

record wc_room =
  wr_messages :: "wc_message list"

definition wc_room_new :: wc_room where
  "wc_room_new = \<lparr>wr_messages = []\<rparr>"

text \<open>The clock in milliseconds, 0 when it is set before the epoch.\<close>

definition wc_add_message :: "nat option \<Rightarrow> string \<Rightarrow> string \<Rightarrow> wc_room \<Rightarrow> wc_room" where
  "wc_add_message now author txt r =
     r\<lparr>wr_messages := push_bounded 100 (wr_messages r)
         \<lparr>wm_author = author, wm_text = txt,
          wm_timestamp = of_nat (case now of None \<Rightarrow> 0 | Some ms \<Rightarrow> ms)\<rparr>\<rparr>"

definition wc_room_snapshot :: "wc_room \<Rightarrow> wc_snapshot" where
  "wc_room_snapshot r = \<lparr>wsn_messages = wr_messages r\<rparr>"

record ('j, 'b, 'e) wc_env =
  we_enc :: "('j, wc_snapshot) server_wire \<Rightarrow> 'e + 'b"
  we_dec :: "'b \<Rightarrow> 'e + wc_intent client_wire"

record ('j, 'b) wc_shared =
  ws_room :: wc_room
  ws_manifest :: "'j manifest"
  ws_seq :: u64
  ws_log :: "'b list"

definition wc_shared_new :: "'j \<Rightarrow> ('j, 'b) wc_shared" where
  "wc_shared_new metadata =
     \<lparr>ws_room = wc_room_new,
      ws_manifest = \<lparr>m_identity = identity_local ''webchat'', m_name = ''WebChat Room'', m_substrate = None,
        m_metadata = metadata\<rparr>,
      ws_seq = 1, ws_log = []\<rparr>"

definition wc_broadcast_snapshot :: "('j, 'b, 'e) wc_env \<Rightarrow> ('j, 'b) wc_shared \<Rightarrow> ('j, 'b) wc_shared" where
  "wc_broadcast_snapshot E sh =
     (let sh1 = sh\<lparr>ws_seq := ws_seq sh + 1\<rparr>
      in case we_enc E (Snapshot (ws_seq sh) (wc_room_snapshot (ws_room sh))) of
           Inl _ \<Rightarrow> sh1
         | Inr b \<Rightarrow> sh1\<lparr>ws_log := ws_log sh @ [b]\<rparr>)"

datatype wc_phase =
    WcAuth
  | WcManifest string
  | WcFirst string
  | WcSubscribe string
  | WcLive string
  | WcPublish string
  | WcEnded

record 'b wc_task =
  wk_phase :: wc_phase
  wk_out :: "'b list"

definition wc_task_new :: "'b wc_task" where
  "wc_task_new = \<lparr>wk_phase = WcAuth, wk_out = []\<rparr>"

definition wc_reply :: "bool \<Rightarrow> ('e + 'b) \<Rightarrow> wc_phase \<Rightarrow> 'b wc_task \<Rightarrow> 'b wc_task" where
  "wc_reply ok m nxt k =
     (case send_frame ok m (wk_out k) of
        None \<Rightarrow> k\<lparr>wk_phase := WcEnded\<rparr>
      | Some out \<Rightarrow> \<lparr>wk_phase = nxt, wk_out = out\<rparr>)"

text \<open>Unlike the other servers, this one skips a message it cannot read while it waits for the
  authentication.\<close>

definition wc_wait_auth :: "('j, 'b, 'e) wc_env \<Rightarrow> 'b net \<Rightarrow> 'b wc_task \<Rightarrow> 'b wc_task" where
  "wc_wait_auth E msg k =
     (case msg of
        NetEnd \<Rightarrow> k\<lparr>wk_phase := WcEnded\<rparr>
      | NetErr \<Rightarrow> k\<lparr>wk_phase := WcEnded\<rparr>
      | NetOther \<Rightarrow> k
      | NetText txt \<Rightarrow>
          (case from_json (we_dec E) txt of
             Inl _ \<Rightarrow> k
           | Inr (Auth who name _) \<Rightarrow> k\<lparr>wk_phase := WcManifest (display_name who name)\<rparr>
           | Inr _ \<Rightarrow> k))"

definition wc_main ::
  "('j, 'b, 'e) wc_env \<Rightarrow> bool \<Rightarrow> nat option \<Rightarrow> string \<Rightarrow> 'b task_input
    \<Rightarrow> ('j, 'b) wc_shared \<Rightarrow> 'b wc_task \<Rightarrow> ('j, 'b) wc_shared \<times> 'b wc_task" where
  "wc_main E ok now name inp sh k =
     (case inp of
        Proceed \<Rightarrow> (sh, k)
      | FromPeer NetErr \<Rightarrow> (sh, k\<lparr>wk_phase := WcEnded\<rparr>)
      | FromPeer NetEnd \<Rightarrow> (sh, k\<lparr>wk_phase := WcEnded\<rparr>)
      | FromPeer NetOther \<Rightarrow> (sh, k)
      | FromPeer (NetText txt) \<Rightarrow>
          (case from_json (we_dec E) txt of
             Inl _ \<Rightarrow> (sh, k)
           | Inr (Intent (WcSendMessage m)) \<Rightarrow>
               (sh\<lparr>ws_room := wc_add_message now name m (ws_room sh)\<rparr>, k\<lparr>wk_phase := WcPublish name\<rparr>)
           | Inr Ping \<Rightarrow> (sh, wc_reply ok (we_enc E Pong) (WcLive name) k)
           | Inr _ \<Rightarrow> (sh, k))
      | FromChannel (ChanMsg b) \<Rightarrow> (sh, wc_reply ok (Inr b :: 'e + 'b) (WcLive name) k)
      | FromChannel (ChanLagged _) \<Rightarrow> (sh, k)
      | FromChannel ChanClosed \<Rightarrow> (sh, k\<lparr>wk_phase := WcEnded\<rparr>))"

definition wc_step ::
  "('j, 'b, 'e) wc_env \<Rightarrow> bool \<times> nat option \<times> 'b task_input
    \<Rightarrow> ('j, 'b) wc_shared \<Rightarrow> 'b wc_task \<Rightarrow> ('j, 'b) wc_shared \<times> 'b wc_task" where
  "wc_step E x sh k =
     (case x of (ok, now, inp) \<Rightarrow>
        (case wk_phase k of
           WcAuth \<Rightarrow> (case inp of FromPeer msg \<Rightarrow> (sh, wc_wait_auth E msg k) | _ \<Rightarrow> (sh, k))
         | WcManifest name \<Rightarrow> (sh, wc_reply ok (we_enc E (Manifest (ws_manifest sh))) (WcFirst name) k)
         | WcFirst name \<Rightarrow>
             (sh, wc_reply ok (we_enc E (Snapshot 0 (wc_room_snapshot (ws_room sh)))) (WcSubscribe name) k)
         | WcSubscribe name \<Rightarrow> (sh, k\<lparr>wk_phase := WcLive name\<rparr>)
         | WcLive name \<Rightarrow> wc_main E ok now name inp sh k
         | WcPublish name \<Rightarrow> (wc_broadcast_snapshot E sh, k\<lparr>wk_phase := WcLive name\<rparr>)
         | WcEnded \<Rightarrow> (sh, k)))"

abbreviation wc_run ::
  "('j, 'b, 'e) wc_env \<Rightarrow> (bool \<times> nat option \<times> 'b task_input) server_event list \<Rightarrow> 'j
    \<Rightarrow> (('j, 'b) wc_shared, 'b wc_task) server" where
  "wc_run E evs metadata \<equiv>
     server_run wc_task_new (wc_step E) evs \<lparr>srv_shared = wc_shared_new metadata, srv_tasks = []\<rparr>"

subsection \<open>What is published\<close>

text \<open>The room never holds more than 100 messages, and the published snapshots are numbered from 1
  without a gap while they can be encoded.\<close>

definition wc_shared_ok :: "('j, 'b, 'e) wc_env \<Rightarrow> ('j, 'b) wc_shared \<Rightarrow> bool" where
  "wc_shared_ok E sh \<longleftrightarrow>
     length (wr_messages (ws_room sh)) \<le> 100 \<and> ws_seq sh = of_nat (length (ws_log sh)) + 1 \<and>
     (\<forall>i < length (ws_log sh). \<exists>d. length (wsn_messages d) \<le> 100 \<and> we_enc E (Snapshot (of_nat i + 1) d) = Inr (ws_log sh ! i))"

lemma wc_broadcast_ok:
  assumes "wc_shared_ok E sh" and "\<forall>m. \<exists>b. we_enc E m = Inr b"
  shows "wc_shared_ok E (wc_broadcast_snapshot E sh)"
proof -
  obtain b where b: "we_enc E (Snapshot (ws_seq sh) (wc_room_snapshot (ws_room sh))) = Inr b"
    using assms(2) by blast
  moreover have "length (wsn_messages (wc_room_snapshot (ws_room sh))) \<le> 100"
    using assms(1) by (simp add: wc_shared_ok_def wc_room_snapshot_def)
  ultimately show ?thesis
    using assms(1)
    by (auto simp: wc_shared_ok_def wc_broadcast_snapshot_def Let_def nth_append less_Suc_eq add.commute)
qed

lemma wc_step_ok:
  assumes "wc_shared_ok E sh" and "\<forall>m. \<exists>b. we_enc E m = Inr b"
  shows "wc_shared_ok E (fst (wc_step E x sh k))"
  using assms wc_broadcast_ok [OF assms]
  by (auto simp: wc_step_def wc_main_def wc_shared_ok_def wc_add_message_def push_bounded_length
      split: prod.splits wc_phase.splits task_input.splits net.splits sum.splits client_wire.splits
        wc_intent.splits from_channel.splits)

interpretation wc_served: task_invariant wc_task_new "wc_step E"
    "\<lambda>sh. (\<forall>m. \<exists>b. we_enc E m = Inr b) \<longrightarrow> wc_shared_ok E sh" "\<lambda>_. True" for E
  by unfold_locales (simp_all add: wc_step_ok)

lemma wc_run_published:
  assumes "\<forall>m. \<exists>b. we_enc E m = Inr b"
  shows "wc_shared_ok E (srv_shared (wc_run E evs metadata))"
  using wc_served.server_run_ok [of E "\<lparr>srv_shared = wc_shared_new metadata, srv_tasks = []\<rparr>" evs] assms
  by (simp add: wc_shared_ok_def wc_shared_new_def wc_room_new_def)

end
