(* ===== verification/Spec2Isabelle.thy ===== *)
theory Spec2Isabelle
  imports Entry_Points Bridges Cli Chat_Sessions Process_Room Game Forum Webchat
begin

text \<open>
  This development models the Interconnect workspace: the protocol types of a room and its clients,
  the client library, the daemon that keeps connections to rooms of outside services open, the
  connectors to those services, and the example servers. All paths below are relative to the
  root of the repository.

  \<^bold>\<open>The parts and how they interact.\<close> A room is owned by an authority; a client sends intents and
  receives snapshots. \<^verbatim>\<open>crates/interconnect-core\<close> defines the identities, the wire messages, the
  transport interface and the authority traits. \<^verbatim>\<open>crates/interconnect-client\<close> runs the handshake
  (authentication, manifest, first snapshot) over a transport and then sends intents and
  receives messages. Each crate under \<^verbatim>\<open>crates/connectors\<close> is a transport that stands for a room of
  an outside service: its \<^verbatim>\<open>recv\<close> turns what the service delivers into snapshots, its \<^verbatim>\<open>send\<close> turns
  intents into requests of the service. \<^verbatim>\<open>crates/interconnect-daemon\<close> opens the configured rooms
  through the connectors, runs one task per room that copies snapshots into the room's log and
  forwards intents, and serves local clients over a socket; its command line client prints what
  it answers. The servers under \<^verbatim>\<open>examples\<close> are rooms of their own.

  \<^bold>\<open>Theories.\<close>
  \<^item> \<open>Prelude\<close>: machine integers, panics as values (\<open>outcome\<close>), the string routines of the standard
    library, decimal and hexadecimal numbers, the bounded buffer, maps as association lists.
  \<^item> \<open>Json_Api\<close>: the operations of \<^verbatim>\<open>serde_json::Value\<close> as a record, their documented laws as the
    locale \<open>json_value\<close>, and an implementation on a datatype.
  \<^item> \<open>Identity\<close>, \<open>Wire\<close>, \<open>Transport\<close>, \<open>Authority\<close>: \<^verbatim>\<open>interconnect-core/src\<close> (\<^verbatim>\<open>identity.rs\<close>; \<^verbatim>\<open>lib.rs\<close>,
    \<^verbatim>\<open>message.rs\<close>, \<^verbatim>\<open>transfer.rs\<close>, \<^verbatim>\<open>wire.rs\<close>; \<^verbatim>\<open>transport.rs\<close>; \<^verbatim>\<open>authority.rs\<close>). \<open>Transport\<close> and
    \<open>Authority\<close> hold the contracts that their clients use as locales.
  \<^item> \<open>Client\<close>: \<^verbatim>\<open>interconnect-client/src\<close>, the connection and the web socket transport.
  \<^item> \<open>Protocol\<close>, \<open>Daemon\<close>, \<open>Daemon_Tasks\<close>, \<open>Room\<close>, \<open>Cli\<close>: \<^verbatim>\<open>interconnect-daemon/src\<close> (\<^verbatim>\<open>protocol.rs\<close> and
    \<^verbatim>\<open>config.rs\<close>; \<^verbatim>\<open>daemon.rs\<close> as functions on the locked state; \<^verbatim>\<open>daemon.rs\<close> as a transition system
    of its connections; \<^verbatim>\<open>room.rs\<close>; \<^verbatim>\<open>cli.rs\<close>, \<^verbatim>\<open>cli_main.rs\<close> and the preset).
  \<^item> \<open>Room_Select\<close>: the \<^verbatim>\<open>select!\<close> of the room tasks, which drops a receive that an intent overtakes.
    \<open>Connector_Rooms\<close>: every connector as the transport of such a task, where its receive can be
    dropped, and what its intents come to. \<open>Room_System\<close>: a room task, the channels between it and
    the daemon, and the daemon's connections as one transition system. \<open>Bridges\<close>: the IRC, Signal and
    Discord connectors in that system, from the service's messages to the daemon's clients.
  \<^item> \<open>Entry_Points\<close>: \<^verbatim>\<open>daemon_main.rs\<close>, the start of the configured rooms in \<^verbatim>\<open>daemon.rs\<close>, and the
    arguments of the example servers.
  \<^item> \<open>Irc\<close>, \<open>Telegram\<close>, \<open>Zulip\<close>, \<open>Maillist\<close>, \<open>Github\<close>, \<open>Matrix\<close>, \<open>Signal\<close>, \<open>Discord\<close>, \<open>Slack\<close>, \<open>Whatsapp\<close>,
    \<open>Fs\<close>, \<open>Sqlite\<close>, \<open>Sqlite_Chat\<close>: one connector each, with its types, its \<^verbatim>\<open>connect\<close>, \<^verbatim>\<open>send\<close> and \<^verbatim>\<open>recv\<close>;
    \<open>Dates\<close> holds the two hand-written time stamp parsers.
  \<^item> \<open>Server\<close>, \<open>Chat\<close>, \<open>Chat_Sessions\<close>, \<open>Process_Room\<close>, \<open>Game\<close>, \<open>Forum\<close>, \<open>Webchat\<close>: the example servers.
    \<open>Server\<close> has what their connection tasks share; \<open>Forum\<close> includes the microblog.
  \<^item> this theory: the properties that span components.

  \<^bold>\<open>How state and operations correspond.\<close> A struct is a record with the fields of the source, an
  enum a datatype, an unsigned integer of the program a word of its width unless it is only
  compared or printed, a string the list of its bytes, a hash map an association list whose
  order stands for an arbitrary iteration order. A method that changes its receiver returns it
  beside the result; a \<^verbatim>\<open>Result\<close> is a sum with the error on the left; a panic is the value \<open>Panic\<close>.
  Codecs, sockets, HTTP replies, clocks and channels are parameters or inputs: a \<^verbatim>\<open>recv\<close> takes
  the list of what its environment delivers and answers \<open>Pending\<close> when the list is used up, so
  one call consumes a prefix and a room's life is a fold over its inputs. What a transport sends is
  part of its state: the requests of its HTTP client, the lines written to a socket or a process,
  the files or the database; a parameter says what the service answers after them. Concurrency is explicit:
  the daemon is the step function \<open>daemon_step\<close> on the connections and the rooms, whose steps are
  the critical sections of the code; a server is a list of tasks over a shared state
  (\<open>server_run\<close>), and every interleaving is an event list. A room of the daemon from end to end is
  \<open>system_step\<close>: its task takes turns by \<open>select_step\<close>, what it pushes goes through the channel into
  the steps of \<open>daemon_step\<close>, and what send requests leave in the room's handle comes back to it.

  \<^bold>\<open>What the lemmas show.\<close> Round trips and their exact limits (identities, the untagged responses,
  base64, SQL values and statements); the log of a daemon room refines a queue and every push is
  handed to exactly one receive under every interleaving; the same from the room's task to the
  clients and back, through both channels, and that a client can always catch up; what the clients
  of an IRC, Signal or Discord room are given, message by message; that a receive
  dropped by \<^verbatim>\<open>select!\<close> loses nothing in six of the connectors and an acknowledged message in
  Slack's; that no intent reaches its service while the envelope repeats the tag, whatever the connector's
  \<^verbatim>\<open>send\<close> would make of it; the rooms with
  which the daemon starts; the exact condition under which a
  waiting receiver wakes up, and an interleaving in which it does not; the handshake of the client
  succeeds exactly on the documented sequence of messages, and it ends; what each connector's
  history holds after any sequence of inputs (a lossless window, or what is lost); which changes
  the polling connectors report; what a file room shows and which files its intents reach; that
  the database reads the inserts as the rows that were asked for; who is in the chat room's table under every interleaving of
  its connections; that the process room publishes its current state; that the game's intents
  keep its world well formed, and which items they make or lose. Several of these state a defect of the code
  as it is; the manifest's findings point at them.

  \<^bold>\<open>Bounds.\<close> The loops of the handshake take the number of calls of \<^verbatim>\<open>recv\<close> they may make;
  \<open>client_handshake_terminates\<close> shows that one more than there are inputs is always enough. The walk
  over a directory takes the depth limit of the code (five levels) as its measure. The \<^verbatim>\<open>recv\<close>
  loops are structural in their inputs. Sequence numbers and counters wrap around at their width, as in a build without overflow checks;
  where a property needs that they have not, it says so in a hypothesis on the number of events.

  \<^bold>\<open>Locales.\<close> \<open>json_value\<close> and \<open>tokio_notify\<close> state documented laws of libraries, \<open>file_system\<close> those of the file operations of the standard library. \<open>snapshot_transport\<close>,
  \<open>sequenced_transport\<close>, \<open>window_room\<close>, \<open>lossless_room\<close>, the locales of \<open>Transport\<close> whose names begin with
  \<open>turn\<close>, and \<open>signature_poll\<close> state what the connectors have in common and are interpreted on each connector's own definitions; \<open>authority_invariant\<close> and
  \<open>session_registry\<close> are the contracts of an authority, which the chat and the process room discharge;
  \<open>task_invariant\<close> is the frame of the server tasks; \<open>droppable_room\<close> extends \<open>turn_lossless\<close> by where a
  receive may be dropped and what sending keeps, and \<open>decoding_transport\<close> is what every \<^verbatim>\<open>send\<close> does
  first: both are interpreted for the connectors in \<open>Connector_Rooms\<close>; \<open>announcing_room\<close> extends
  \<open>droppable_room\<close> by the snapshot that goes with every message and is interpreted for three of them
  in \<open>Bridges\<close>.

  \<^bold>\<open>Not modelled.\<close> The text of JSON and TOML, HTTP, web sockets, TLS, the databases and the client
  libraries of the services are third-party code behind parameters; so are the argument parser of the
  command line client and the HTTP router of the forum, the microblog and the web chat. Binding and
  accepting on sockets, removing a stale socket file and the reading of environment variables are
  I/O around the modelled functions; the documents, the web page and the build files hold no logic.
  Log output is left out everywhere. A panic inside a spawned task, which ends that task only, is
  not followed into the daemon.
\<close>

section \<open>Properties across components\<close>

subsection \<open>The intents of the rooms inside the wire envelope\<close>

lemma example_intents_tagged:
  "type_tagged J (process_intent_fields J)" "type_tagged J (wc_intent_fields J)" "type_tagged J (forum_intent_fields J)"
  unfolding type_tagged_def by (intro allI; rename_tac x; case_tac x; simp; blast)+

text \<open>Like the connectors' intents (\<open>connector_rooms_deaf\<close>), those of the process room, the web chat and
  the forum have the member \<open>type\<close> twice inside the envelope, so that these servers do not decode
  them; an intent of the chat room, whose own tag is \<open>action\<close>, has it once, for the envelope.\<close>

lemma example_intents_refused:
  "strict_codec J (process_intent_fields J) print enc dec \<Longrightarrow> \<exists>data e. enc (Intent x) = Inr data \<and> dec data = Inl e"
  "strict_codec J (wc_intent_fields J) print_wc enc_wc dec_wc \<Longrightarrow> \<exists>data e. enc_wc (Intent y) = Inr data \<and> dec_wc data = Inl e"
  "strict_codec J (forum_intent_fields J) print_f enc_f dec_f \<Longrightarrow> \<exists>data e. enc_f (Intent z) = Inr data \<and> dec_f data = Inl e"
  by (meson strict_codec_refuses example_intents_tagged)+

lemma chat_intent_keys:
  "keys_distinct (client_wire_fields J (chat_intent_fields J) (Intent x)) \<and>
   map_of (client_wire_fields J (chat_intent_fields J) (Intent x)) ''type'' = Some (j_str J ''intent'')"
  by (cases x) (simp add: keys_distinct_def tagged_def)

subsection \<open>A client of the chat server\<close>

text \<open>C21: whatever the other connections do, a client whose connection task has reached the main loop
  completes the handshake of the client library on what the task has written, however control
  messages are mixed in: it gets the server's manifest and a snapshot of the room, and everything
  behind them is still to be received.\<close>

theorem chat_client_connects:
  assumes "k \<in> set (srv_tasks (chat_run E evs md name peer))" and "chat_greeted (ck_phase k)"
    and "round_trips (ce_enc E) dec" and "carries its (ck_out k)" and "length its < n"
    and "enc (Auth who nm pass) = Inr data" and "sink ws (WsText (utf8 data)) = (Inr u, ws')"
  shows "\<exists>r rest. conn_connect (ws_transport utf8 sink) into enc dec n ws who nm pass its =
      (Frame (established ws' (chat_manifest md name), chat_room_snapshot r), ws', rest) \<and>
    carries rest (drop 2 (ck_out k))"
proof -
  obtain bm r bs later where out: "ce_enc E (Manifest (chat_manifest md name)) = Inr bm"
      "ce_enc E (Snapshot 0 (chat_room_snapshot r)) = Inr bs" "ck_out k = bm # bs # later"
    using chat_greeting [OF assms(1,2)] by blast
  then obtain i1 i2 where i: "its = i1 @ i2" "carries i1 [bm, bs]" "carries i2 later"
    using carries_split [of its "[bm, bs]" later] assms(4) by auto
  have "conn_connect (ws_transport utf8 sink) into enc dec n ws who nm pass (i1 @ i2) =
      (Frame (established ws' (chat_manifest md name), chat_room_snapshot r), ws', i2)"
    by (rule connect_ws [where pre = "[]" and mid = "[]" and bm = bm and bs = bs and q = 0 and u = u and data = data])
      (use assms out i round_tripsD [OF assms(3) out(1)] round_tripsD [OF assms(3) out(2)] in simp_all)
  with i out(3) show ?thesis by auto
qed

text \<open>A codec of the three messages that a first client meets, and the run in which it is let in.\<close>

definition hall_snapshot :: chat_snapshot where
  "hall_snapshot = \<lparr>csn_messages = [], csn_users = [''ann'']\<rparr>"

definition hall_enc :: "(unit, chat_snapshot) server_wire \<Rightarrow> unit + bytes" where
  "hall_enc m =
     (if m = Manifest (chat_manifest () ''hall'') then Inr [0]
      else if m = Snapshot 0 hall_snapshot then Inr [1]
      else if m = System ''ann joined'' then Inr [2] else Inl ())"

definition hall_dec :: "bytes \<Rightarrow> unit + (unit, chat_snapshot) server_wire" where
  "hall_dec b =
     (if b = [0] then Inr (Manifest (chat_manifest () ''hall''))
      else if b = [1] then Inr (Snapshot 0 hall_snapshot)
      else if b = [2] then Inr (System ''ann joined'') else Inl ())"

definition hall_env :: "(unit, bytes, unit) chat_env" where
  "hall_env =
     \<lparr>ce_enc = hall_enc,
      ce_dec = \<lambda>b. if b = [9] then Inr (Auth (identity_local ''ann'') None None) else Inl (),
      ce_passport_enc = \<lambda>_. Inl (), ce_passport_dec = \<lambda>_. Inl ()\<rparr>"

definition hall_events :: "(bool \<times> u64 \<times> bytes task_input) server_event list" where
  "hall_events =
     [Accept, Task 0 (True, 0, FromPeer (NetText [9])), Task 0 (True, 0, Proceed), Task 0 (True, 0, Proceed),
      Task 0 (True, 0, Proceed), Task 0 (True, 0, Proceed)]"

lemma hall_run:
  "map (\<lambda>k. (ck_phase k, ck_out k)) (srv_tasks (chat_run hall_env hall_events () ''hall'' None)) =
     [(ChatLive (session_new 1 (identity_local ''ann'') ''ann'') 1, [[0], [1]])]"
  by code_simp

theorem chat_client_connects_witness:
  "\<exists>r rest. conn_connect (ws_transport id (\<lambda>s m. (Inr (), Suc s))) (WebSocket :: unit \<Rightarrow> (unit, unit, unit) client_error)
     (\<lambda>_ :: chat_intent client_wire. Inr [9]) hall_dec 5 0 (identity_local ''ann'') None None
     [WsPing [], WsText [0], WsText [1]] =
    (Frame (established 1 (chat_manifest () ''hall''), chat_room_snapshot r), 1, rest)"
proof -
  obtain k where k: "k \<in> set (srv_tasks (chat_run hall_env hall_events () ''hall'' None))"
      "ck_phase k = ChatLive (session_new 1 (identity_local ''ann'') ''ann'') 1" "ck_out k = [[0], [1]]"
    using hall_run by (auto simp: map_eq_Cons_conv)
  have rt: "round_trips (ce_enc hall_env) hall_dec"
    by (auto simp: round_trips_def hall_env_def hall_enc_def hall_dec_def split: if_splits)
  have "carries [WsPing [], WsText [0], WsText [1]] (ck_out k)"
    by (simp add: k(3) carries_item carries_control)
  from chat_client_connects [OF k(1) _ rt this, of 5
      "\<lambda>_ :: chat_intent client_wire. Inr [9]" "identity_local ''ann''" None None "[9]" "\<lambda>s m. (Inr (), Suc s)" 0 id "()" 1
      "WebSocket :: unit \<Rightarrow> (unit, unit, unit) client_error"]
  show ?thesis
    by (auto simp: k(2))
qed

end
